(* ===== verification/Store.thy ===== *)
theory Store
  imports Prelude
begin

text \<open>
  The database as state.  A table is the list of its rows; the Prisma calls the services
  make are read as what they do to that list: \<open>findUnique\<close>/\<open>findFirst\<close> return the first
  matching row, \<open>findMany\<close> and \<open>count\<close> all of them, \<open>updateMany\<close> rewrites every row its
  \<open>where\<close> clause matches and reports how many there were, \<open>deleteMany\<close> removes them.  Each
  call is one atomic step on the table.

  Most of the concurrency arguments of the code base are the same one: a row is moved by
  an \<open>updateMany\<close> whose \<open>where\<close> clause the update itself makes false, so of any number of
  racing callers one sees a count of 1 and the others 0.  The locale \<open>one_shot\<close> states that
  contract once; the components interpret it on their own guards.
\<close>

type_synonym 'r table = "'r list"

definition find_row :: "('r \<Rightarrow> bool) \<Rightarrow> 'r table \<Rightarrow> 'r option" where
  "find_row p t = List.find p t"

definition find_many :: "('r \<Rightarrow> bool) \<Rightarrow> 'r table \<Rightarrow> 'r list" where
  "find_many p t = filter p t"

definition count_rows :: "('r \<Rightarrow> bool) \<Rightarrow> 'r table \<Rightarrow> nat" where
  "count_rows p t = length (filter p t)"

definition upd_rows :: "('r \<Rightarrow> bool) \<Rightarrow> ('r \<Rightarrow> 'r) \<Rightarrow> 'r table \<Rightarrow> 'r table" where
  "upd_rows p f t = map (\<lambda>r. if p r then f r else r) t"

definition update_many :: "('r \<Rightarrow> bool) \<Rightarrow> ('r \<Rightarrow> 'r) \<Rightarrow> 'r table \<Rightarrow> 'r table \<times> nat" where
  "update_many p f t = (upd_rows p f t, count_rows p t)"

definition delete_many :: "('r \<Rightarrow> bool) \<Rightarrow> 'r table \<Rightarrow> 'r table \<times> nat" where
  "delete_many p t = (filter (\<lambda>r. \<not> p r) t, count_rows p t)"

definition insert_row :: "'r \<Rightarrow> 'r table \<Rightarrow> 'r table" where
  "insert_row r t = t @ [r]"

text \<open>A primary key (or \<open>@unique\<close> column): no two rows share it.\<close>

definition unique_on :: "('r \<Rightarrow> 'k) \<Rightarrow> 'r table \<Rightarrow> bool" where
  "unique_on k t = distinct (map k t)"

lemma find_row_Some: "find_row p t = Some r \<Longrightarrow> r \<in> set t \<and> p r"
  by (auto simp: find_row_def dest: find_SomeD)

lemma find_row_None: "find_row p t = None \<longleftrightarrow> (\<forall>r\<in>set t. \<not> p r)"
  by (auto simp: find_row_def find_None_iff)

lemma set_upd_rows: "set (upd_rows p f t) = (\<lambda>r. if p r then f r else r) ` set t"
  by (simp add: upd_rows_def)

lemma upd_rowsE:
  assumes "r' \<in> set (upd_rows p f t)"
  obtains r where "r \<in> set t" "p r" "r' = f r" | "r' \<in> set t" "\<not> p r'"
  using assms by (auto simp: set_upd_rows split: if_splits)

lemma length_upd_rows [simp]: "length (upd_rows p f t) = length t"
  by (simp add: upd_rows_def)

lemma upd_rows_none: "count_rows p t = 0 \<Longrightarrow> upd_rows p f t = t"
  by (auto simp: count_rows_def upd_rows_def filter_Nil_iff intro!: map_idI)

lemma count_rows_zero: "count_rows p t = 0 \<longleftrightarrow> (\<forall>r\<in>set t. \<not> p r)"
  by (simp add: count_rows_def filter_Nil_iff)

lemma count_rows_pos: "0 < count_rows p t \<longleftrightarrow> (\<exists>r\<in>set t. p r)"
  by (simp add: count_rows_def filter_empty_conv)

lemma unique_on_upd_rows:
  "(\<And>r. r \<in> set t \<Longrightarrow> p r \<Longrightarrow> k (f r) = k r) \<Longrightarrow> unique_on k (upd_rows p f t) = unique_on k t"
proof -
  assume *: "\<And>r. r \<in> set t \<Longrightarrow> p r \<Longrightarrow> k (f r) = k r"
  have "map k (upd_rows p f t) = map k t"
    by (auto simp: upd_rows_def *)
  then show ?thesis by (simp add: unique_on_def)
qed

lemma unique_on_insert_row:
  "unique_on k (insert_row r t) \<longleftrightarrow> unique_on k t \<and> k r \<notin> k ` set t"
  by (auto simp: unique_on_def insert_row_def)

lemma set_insert_row [simp]: "set (insert_row r t) = insert r (set t)"
  by (simp add: insert_row_def)

lemma find_row_insert_row:
  "find_row p (insert_row r t) = (case find_row p t of None \<Rightarrow> if p r then Some r else None | Some x \<Rightarrow> Some x)"
  by (induction t) (auto simp: find_row_def insert_row_def)

lemma unique_on_eqD:
  "unique_on k t \<Longrightarrow> r \<in> set t \<Longrightarrow> s \<in> set t \<Longrightarrow> k r = k s \<Longrightarrow> r = s"
  by (auto simp: unique_on_def distinct_map dest: inj_onD)

lemma find_row_unique:
  assumes "unique_on k t" "r \<in> set t"
  shows "find_row (\<lambda>x. k x = k r) t = Some r"
proof (cases "find_row (\<lambda>x. k x = k r) t")
  case None
  with assms(2) show ?thesis by (auto simp: find_row_None)
next
  case (Some x)
  then have "x \<in> set t" "k x = k r" by (auto dest: find_row_Some)
  with assms have "x = r" by (auto intro: unique_on_eqD)
  with Some show ?thesis by simp
qed

lemma count_rows_unique_le1:
  assumes "unique_on k t"
  shows "count_rows (\<lambda>r. k r = i \<and> p r) t \<le> 1"
  using assms
proof (induction t)
  case Nil
  show ?case by (simp add: count_rows_def)
next
  case (Cons x t)
  then have IH: "count_rows (\<lambda>r. k r = i \<and> p r) t \<le> 1"
    by (simp add: unique_on_def)
  show ?case
  proof (cases "k x = i \<and> p x")
    case True
    with Cons.prems have "filter (\<lambda>r. k r = i \<and> p r) t = []"
      by (fastforce simp: unique_on_def filter_Nil_iff image_iff)
    with True show ?thesis by (simp add: count_rows_def)
  next
    case False
    with IH show ?thesis by (auto simp: count_rows_def)
  qed
qed

lemma find_row_upd_rows_keyed:
  assumes "\<And>r. r \<in> set t \<Longrightarrow> p r \<Longrightarrow> k (f r) = k r"
  shows "find_row (\<lambda>r. k r = i) (upd_rows p f t) =
         map_option (\<lambda>r. if p r then f r else r) (find_row (\<lambda>r. k r = i) t)"
  using assms by (simp add: find_row_def upd_rows_def find_map_stable)

text \<open>
  The contract of a guarded, self-falsifying update.  \<open>guard\<close> is the \<open>where\<close> clause,
  \<open>change\<close> what the winner writes, \<open>other\<close> any update of the row made in between.
\<close>

locale one_shot =
  fixes guard :: "'r \<Rightarrow> bool"
    and change :: "'a \<Rightarrow> 'r \<Rightarrow> 'r"
  assumes falsifies: "guard r \<Longrightarrow> \<not> guard (change a r)"
begin

lemma second_loses: "count_rows guard (upd_rows guard (change a) t) = 0"
  by (auto simp: count_rows_zero set_upd_rows falsifies)

lemma second_keeps: "upd_rows guard (change b) (upd_rows guard (change a) t) = upd_rows guard (change a) t"
  by (rule upd_rows_none) (rule second_loses)

lemma row_changed_once:
  assumes "r' \<in> set (upd_rows guard (change a) t)"
  shows "\<not> guard r'"
  using second_loses [of a t] assms by (simp add: count_rows_zero)

end

text \<open>
  The contract of a lifecycle: the moves the code allows, and the states it declares
  terminal.  A run of allowed moves never leaves a terminal state.
\<close>

locale status_machine =
  fixes allowed :: "'s \<Rightarrow> 's \<Rightarrow> bool"
    and terminal :: "'s \<Rightarrow> bool"
  assumes terminal_stuck: "terminal s \<Longrightarrow> \<not> allowed s t"
    and no_self_move: "\<not> allowed s s"
begin

lemma terminal_forever:
  assumes "allowed\<^sup>*\<^sup>* s t" "terminal s"
  shows "t = s"
  using assms by (induction rule: converse_rtranclp_induct) (auto simp: terminal_stuck)

lemma never_into_itself: "allowed s t \<Longrightarrow> s \<noteq> t"
  using no_self_move by auto

end

end
