(* ===== verification/Resilience.thy ===== *)
theory Resilience
  imports Prelude Complex_Main
begin

text \<open>
  Outbound-call resilience, \<open>src/common/resilience\<close>: the circuit breaker
  (\<open>circuit-breaker.ts\<close>) and the jittered backoff (\<open>backoff.ts\<close>).

  The breaker's private fields are the record \<open>circuit_breaker\<close>, its methods functions on
  it.  \<open>admit\<close> may throw after it has changed the state (through \<open>refresh\<close>), so it
  returns both the refusal and the state.  A call is in flight between \<open>admit\<close> and
  \<open>record_outcome\<close>, and other calls interleave there: \<open>breaker_step\<close> is one such event,
  \<open>breaker_run\<close> any sequence of them.  The contract the callers of a breaker rely on is the locale
  \<open>circuit_contract\<close>.
\<close>

datatype call_outcome = Success | Trip | Ignore

datatype circuit_state = Closed | Open | HalfOpen

record circuit_breaker =
  failureThreshold :: int
  openDurationMs :: int
  halfOpenMaxProbes :: int
  successThreshold :: int
  cb_state :: circuit_state
  consecutiveFailures :: int
  probeSuccesses :: int
  probesInFlight :: int
  openCount :: int
  openUntil :: time_ms

definition DEFAULT_FAILURE_THRESHOLD :: int where
  "DEFAULT_FAILURE_THRESHOLD = 5"

definition DEFAULT_OPEN_DURATION_MS :: int where
  "DEFAULT_OPEN_DURATION_MS = 30000"

definition DEFAULT_HALF_OPEN_MAX_PROBES :: int where
  "DEFAULT_HALF_OPEN_MAX_PROBES = 1"

definition DEFAULT_SUCCESS_THRESHOLD :: int where
  "DEFAULT_SUCCESS_THRESHOLD = 2"

definition new_circuit_breaker ::
  "int option \<Rightarrow> int option \<Rightarrow> int option \<Rightarrow> int option \<Rightarrow> circuit_breaker" where
  "new_circuit_breaker ft od hp st =
     \<lparr>failureThreshold = nullish ft DEFAULT_FAILURE_THRESHOLD,
      openDurationMs = nullish od DEFAULT_OPEN_DURATION_MS,
      halfOpenMaxProbes = nullish hp DEFAULT_HALF_OPEN_MAX_PROBES,
      successThreshold = nullish st DEFAULT_SUCCESS_THRESHOLD,
      cb_state = Closed, consecutiveFailures = 0, probeSuccesses = 0, probesInFlight = 0,
      openCount = 0, openUntil = 0\<rparr>"

definition open_circuit :: "time_ms \<Rightarrow> circuit_breaker \<Rightarrow> circuit_breaker" where
  "open_circuit now b =
     b\<lparr>cb_state := Open, openUntil := now + openDurationMs b, openCount := openCount b + 1,
       probeSuccesses := 0, probesInFlight := 0\<rparr>"

definition close_circuit :: "circuit_breaker \<Rightarrow> circuit_breaker" where
  "close_circuit b =
     b\<lparr>cb_state := Closed, consecutiveFailures := 0, probeSuccesses := 0,
       probesInFlight := 0, openUntil := 0\<rparr>"

definition reset :: "circuit_breaker \<Rightarrow> circuit_breaker" where
  "reset b =
     b\<lparr>cb_state := Closed, consecutiveFailures := 0, probeSuccesses := 0,
       probesInFlight := 0, openUntil := 0\<rparr>"

definition refresh :: "time_ms \<Rightarrow> circuit_breaker \<Rightarrow> circuit_breaker" where
  "refresh now b =
     (if cb_state b = Open \<and> openUntil b \<le> now
      then b\<lparr>cb_state := HalfOpen, probeSuccesses := 0, probesInFlight := 0\<rparr> else b)"

definition tryAcquireProbe :: "circuit_breaker \<Rightarrow> bool \<times> circuit_breaker" where
  "tryAcquireProbe b =
     (if halfOpenMaxProbes b \<le> probesInFlight b then (False, b)
      else (True, b\<lparr>probesInFlight := probesInFlight b + 1\<rparr>))"

text \<open>\<open>admit\<close>: the state the \<open>CircuitOpenError\<close> carries, or \<open>None\<close> when the call may proceed.\<close>

definition admit :: "time_ms \<Rightarrow> circuit_breaker \<Rightarrow> circuit_state option \<times> circuit_breaker" where
  "admit now b =
     (let b1 = refresh now b in
      if cb_state b1 = Open then (Some Open, b1)
      else if cb_state b1 = HalfOpen then
        (let (ok, b2) = tryAcquireProbe b1 in
         if \<not> ok then (Some HalfOpen, b2) else (None, b2))
      else (None, b1))"

definition onSuccess :: "circuit_breaker \<Rightarrow> circuit_breaker" where
  "onSuccess b =
     (if cb_state b = HalfOpen then
        (let b1 = b\<lparr>probeSuccesses := probeSuccesses b + 1\<rparr> in
         if successThreshold b1 \<le> probeSuccesses b1 then close_circuit b1 else b1)
      else b\<lparr>consecutiveFailures := 0\<rparr>)"

definition onTrip :: "time_ms \<Rightarrow> circuit_breaker \<Rightarrow> circuit_breaker" where
  "onTrip now b =
     (if cb_state b = HalfOpen then open_circuit now b
      else
        (let b1 = b\<lparr>consecutiveFailures := consecutiveFailures b + 1\<rparr> in
         if failureThreshold b1 \<le> consecutiveFailures b1 then open_circuit now b1 else b1))"

definition record_outcome :: "time_ms \<Rightarrow> call_outcome \<Rightarrow> circuit_breaker \<Rightarrow> circuit_breaker" where
  "record_outcome now oc b =
     (let b1 = (if cb_state b = HalfOpen
                then b\<lparr>probesInFlight := max 0 (probesInFlight b - 1)\<rparr> else b) in
      case oc of Success \<Rightarrow> onSuccess b1 | Trip \<Rightarrow> onTrip now b1 | Ignore \<Rightarrow> b1)"

record circuit_snapshot =
  snap_state :: circuit_state
  snap_consecutiveFailures :: int
  snap_probeSuccesses :: int
  snap_probesInFlight :: int
  snap_openCount :: int
  cooldownRemainingMs :: int

definition snapshot :: "time_ms \<Rightarrow> circuit_breaker \<Rightarrow> circuit_snapshot \<times> circuit_breaker" where
  "snapshot now b =
     (let b1 = refresh now b in
      (\<lparr>snap_state = cb_state b1, snap_consecutiveFailures = consecutiveFailures b1,
        snap_probeSuccesses = probeSuccesses b1, snap_probesInFlight = probesInFlight b1,
        snap_openCount = openCount b1,
        cooldownRemainingMs =
          (if cb_state b1 = Open then max 0 (openUntil b1 - now) else 0)\<rparr>, b1))"

text \<open>
  A call run to completion with nothing in between.  \<open>operation\<close> is what the awaited
  promise settles to; a nested breaker's refusal is passed through unrecorded.
\<close>

datatype 'e call_error = CircuitOpenError circuit_state | OpError 'e

definition run ::
  "('e call_error + 'v) \<Rightarrow> (('e call_error + 'v) \<Rightarrow> call_outcome) \<Rightarrow> time_ms \<Rightarrow> time_ms \<Rightarrow>
   circuit_breaker \<Rightarrow> ('e call_error + 'v) \<times> circuit_breaker" where
  "run operation classify now now' b =
     (case admit now b of
        (Some s, b1) \<Rightarrow> (Inl (CircuitOpenError s), b1)
      | (None, b1) \<Rightarrow>
          (case operation of
             Inl (CircuitOpenError s) \<Rightarrow> (Inl (CircuitOpenError s), b1)
           | _ \<Rightarrow> (operation, record_outcome now' (classify operation) b1)))"

definition execute ::
  "('e call_error + 'v) \<Rightarrow> ('e call_error \<Rightarrow> call_outcome) \<Rightarrow> time_ms \<Rightarrow> time_ms \<Rightarrow>
   circuit_breaker \<Rightarrow> ('e call_error + 'v) \<times> circuit_breaker" where
  "execute operation classify =
     run operation (\<lambda>r. case r of Inr _ \<Rightarrow> Success | Inl e \<Rightarrow> classify e)"

text \<open>The events of interleaved calls; \<open>EPassThrough\<close> is a nested breaker's refusal.\<close>

datatype breaker_event =
    EAdmit time_ms
  | ERecord time_ms call_outcome
  | EPassThrough
  | ESnapshot time_ms
  | EReset

fun breaker_step :: "breaker_event \<Rightarrow> circuit_breaker \<Rightarrow> circuit_breaker" where
  "breaker_step (EAdmit now) b = snd (admit now b)"
| "breaker_step (ERecord now oc) b = record_outcome now oc b"
| "breaker_step EPassThrough b = b"
| "breaker_step (ESnapshot now) b = snd (snapshot now b)"
| "breaker_step EReset b = reset b"

fun breaker_run :: "breaker_event list \<Rightarrow> circuit_breaker \<Rightarrow> circuit_breaker" where
  "breaker_run [] b = b"
| "breaker_run (e # es) b = breaker_run es (breaker_step e b)"

text \<open>
  \<open>backoff.ts\<close>.  \<open>random\<close> is a sample of the injected source of [0, 1), a rational; all
  other quantities are integers of milliseconds.
\<close>

definition backoff_cap :: "int \<Rightarrow> int \<Rightarrow> int \<Rightarrow> int" where
  "backoff_cap attempt baseMs maxDelayMs =
     (let exponent = min (max (attempt - 1) 0) 30;
          uncapped = baseMs * 2 ^ nat exponent
      in min uncapped maxDelayMs)"

definition backoffDelayMs :: "int \<Rightarrow> int \<Rightarrow> int \<Rightarrow> rat \<Rightarrow> int" where
  "backoffDelayMs attempt baseMs maxDelayMs random =
     floor (random * of_int (backoff_cap attempt baseMs maxDelayMs))"


subsection \<open>Invariant\<close>

definition cb_inv :: "circuit_breaker \<Rightarrow> bool" where
  "cb_inv b \<longleftrightarrow>
     0 < failureThreshold b \<and> 0 < halfOpenMaxProbes b \<and> 0 < successThreshold b \<and>
     0 \<le> consecutiveFailures b \<and> 0 \<le> probeSuccesses b \<and> 0 \<le> probesInFlight b \<and>
     (case cb_state b of
        Closed \<Rightarrow> consecutiveFailures b < failureThreshold b \<and> probeSuccesses b = 0 \<and> probesInFlight b = 0
      | Open \<Rightarrow> probeSuccesses b = 0 \<and> probesInFlight b = 0
      | HalfOpen \<Rightarrow> probeSuccesses b < successThreshold b \<and> probesInFlight b \<le> halfOpenMaxProbes b)"

lemmas breaker_defs =
  admit_def refresh_def tryAcquireProbe_def record_outcome_def onSuccess_def onTrip_def
  open_circuit_def close_circuit_def reset_def snapshot_def

lemmas breaker_splits = circuit_state.splits call_outcome.splits if_splits prod.splits

lemma cb_inv_new [simp]:
  "cb_inv (new_circuit_breaker ft od hp st) \<longleftrightarrow>
     0 < nullish ft DEFAULT_FAILURE_THRESHOLD \<and> 0 < nullish hp DEFAULT_HALF_OPEN_MAX_PROBES \<and>
     0 < nullish st DEFAULT_SUCCESS_THRESHOLD"
  by (auto simp: cb_inv_def new_circuit_breaker_def)

lemma cb_inv_refresh: "cb_inv b \<Longrightarrow> cb_inv (refresh now b)"
  by (auto simp: cb_inv_def refresh_def)

lemma cb_inv_tryAcquireProbe:
  "cb_inv b \<Longrightarrow> cb_state b = HalfOpen \<Longrightarrow> cb_inv (snd (tryAcquireProbe b))"
  by (auto simp: cb_inv_def tryAcquireProbe_def)

lemma cb_inv_admit: "cb_inv b \<Longrightarrow> cb_inv (snd (admit now b))"
  using cb_inv_refresh [of b now] cb_inv_tryAcquireProbe [of "refresh now b"]
  by (auto simp: admit_def Let_def split: prod.splits)

lemma cb_inv_open: "cb_inv b \<Longrightarrow> cb_inv (open_circuit now b)"
  by (auto simp: cb_inv_def open_circuit_def)

lemma cb_inv_close: "cb_inv b \<Longrightarrow> cb_inv (close_circuit b)"
  by (auto simp: cb_inv_def close_circuit_def)

lemma cb_inv_record: "cb_inv b \<Longrightarrow> cb_inv (record_outcome now oc b)"
  by (cases oc; cases "cb_state b")
     (auto simp: cb_inv_def record_outcome_def onSuccess_def onTrip_def open_circuit_def
        close_circuit_def Let_def)

lemma cb_inv_step: "cb_inv b \<Longrightarrow> cb_inv (breaker_step e b)"
proof (cases e)
  case EReset
  assume "cb_inv b"
  with EReset show ?thesis by (auto simp: cb_inv_def reset_def)
qed (auto simp: cb_inv_admit cb_inv_record cb_inv_refresh snapshot_def Let_def)

lemma cb_inv_run: "cb_inv b \<Longrightarrow> cb_inv (breaker_run es b)"
  by (induction es arbitrary: b) (auto simp: cb_inv_step)

lemma options_step [simp]:
  "failureThreshold (breaker_step e b) = failureThreshold b"
  "openDurationMs (breaker_step e b) = openDurationMs b"
  "halfOpenMaxProbes (breaker_step e b) = halfOpenMaxProbes b"
  "successThreshold (breaker_step e b) = successThreshold b"
  by (cases e; auto simp: breaker_defs Let_def split: breaker_splits)+

lemma options_run [simp]:
  "failureThreshold (breaker_run es b) = failureThreshold b"
  "openDurationMs (breaker_run es b) = openDurationMs b"
  "halfOpenMaxProbes (breaker_run es b) = halfOpenMaxProbes b"
  "successThreshold (breaker_run es b) = successThreshold b"
  by (induction es arbitrary: b) auto

subsection \<open>Opening\<close>

text \<open>Completed calls only: no time passes through \<open>refresh\<close> between them.\<close>

abbreviation records :: "(time_ms \<times> call_outcome) list \<Rightarrow> breaker_event list" where
  "records os \<equiv> map (\<lambda>(t, oc). ERecord t oc) os"

abbreviation trips :: "(time_ms \<times> call_outcome) list \<Rightarrow> int" where
  "trips os \<equiv> int (length (filter (\<lambda>(t, oc). oc = Trip) os))"

lemma record_open_stays_open:
  assumes "cb_state b = Open" "failureThreshold b \<le> consecutiveFailures b" "oc \<noteq> Success"
  shows "cb_state (record_outcome now oc b) = Open \<and>
    failureThreshold (record_outcome now oc b) \<le> consecutiveFailures (record_outcome now oc b)"
  using assms by (cases oc) (auto simp: breaker_defs Let_def)

lemma records_open_stays_open:
  assumes "cb_state b = Open" "failureThreshold b \<le> consecutiveFailures b"
    and "Success \<notin> snd ` set os"
  shows "cb_state (breaker_run (records os) b) = Open"
  using assms
proof (induction os arbitrary: b)
  case Nil
  then show ?case by simp
next
  case (Cons o1 os)
  obtain t oc where o1: "o1 = (t, oc)" by force
  with Cons.prems have "oc \<noteq> Success" by auto
  with Cons.prems have "cb_state (record_outcome t oc b) = Open \<and>
      failureThreshold (record_outcome t oc b) \<le> consecutiveFailures (record_outcome t oc b)"
    by (intro record_open_stays_open)
  with Cons o1 show ?case by auto
qed

lemma records_from_closed:
  assumes "cb_state b = Closed" "consecutiveFailures b < failureThreshold b"
    and "Success \<notin> snd ` set os"
  shows "cb_state (breaker_run (records os) b) =
    (if failureThreshold b \<le> consecutiveFailures b + trips os then Open else Closed)"
  using assms
proof (induction os arbitrary: b)
  case Nil
  then show ?case by simp
next
  case (Cons o1 os)
  obtain t oc where o1: "o1 = (t, oc)" by force
  let ?b = "record_outcome t oc b"
  show ?case
  proof (cases oc)
    case Success
    with Cons.prems o1 show ?thesis by auto
  next
    case Ignore
    with Cons.prems have "?b = b" by (auto simp: breaker_defs Let_def)
    with Cons o1 Ignore show ?thesis by auto
  next
    case Trip
    show ?thesis
    proof (cases "failureThreshold b \<le> consecutiveFailures b + 1")
      case True
      with Cons.prems Trip have "cb_state ?b = Open" "failureThreshold ?b \<le> consecutiveFailures ?b"
        by (auto simp: breaker_defs Let_def)
      then have "cb_state (breaker_run (records os) ?b) = Open"
        using Cons.prems by (intro records_open_stays_open) auto
      with True o1 Trip show ?thesis by auto
    next
      case False
      with Cons.prems Trip have "cb_state ?b = Closed" "consecutiveFailures ?b = consecutiveFailures b + 1"
        "failureThreshold ?b = failureThreshold b"
        by (auto simp: breaker_defs Let_def)
      with Cons.IH [of ?b] Cons.prems False o1 Trip show ?thesis by (auto simp: algebra_simps)
    qed
  qed
qed


subsection \<open>The contract of a circuit breaker\<close>

text \<open>
  What a caller relies on: a closed circuit lets every call through unchanged, an open one
  refuses until its cool-off has elapsed and then admits a probe, and a failed probe starts
  a fresh cool-off.  \<open>ok\<close> is the invariant of the implementation.
\<close>

locale circuit_contract =
  fixes ok :: "'s \<Rightarrow> bool"
    and phase :: "'s \<Rightarrow> circuit_state"
    and allows :: "time_ms \<Rightarrow> 's \<Rightarrow> bool"
    and enter :: "time_ms \<Rightarrow> 's \<Rightarrow> 's"
    and fail :: "time_ms \<Rightarrow> 's \<Rightarrow> 's"
    and until :: "'s \<Rightarrow> time_ms"
    and cooloff :: "'s \<Rightarrow> int"
  assumes closed_allows: "ok s \<Longrightarrow> phase s = Closed \<Longrightarrow> allows now s \<and> enter now s = s"
    and open_refuses: "ok s \<Longrightarrow> phase s = Open \<Longrightarrow> now < until s \<Longrightarrow> \<not> allows now s \<and> enter now s = s"
    and open_probes: "ok s \<Longrightarrow> phase s = Open \<Longrightarrow> until s \<le> now \<Longrightarrow>
      allows now s \<and> phase (enter now s) = HalfOpen"
    and probe_fails: "ok s \<Longrightarrow> phase s = HalfOpen \<Longrightarrow>
      phase (fail now s) = Open \<and> until (fail now s) = now + cooloff s"
    and ok_enter: "ok s \<Longrightarrow> ok (enter now s)"
    and ok_fail: "ok s \<Longrightarrow> ok (fail now s)"
    and cooloff_enter: "cooloff (enter now s) = cooloff s"
begin

lemma open_frozen:
  "ok s \<Longrightarrow> phase s = Open \<Longrightarrow> \<forall>t\<in>set ts. t < until s \<Longrightarrow> fold enter ts s = s"
  by (induction ts) (auto simp: open_refuses)

lemma failed_probe_cools_off:
  assumes "ok s" "phase s = HalfOpen" "\<forall>t\<in>set ts. t < now + cooloff s" "t' < now + cooloff s"
  shows "\<not> allows t' (fold enter ts (fail now s))"
  using assms probe_fails [of s now] ok_fail [of s now] open_frozen [of "fail now s" ts]
  by (simp add: open_refuses)

lemma reprobes_after_cooloff:
  assumes "ok s" "phase s = HalfOpen" "\<forall>t\<in>set ts. t < now + cooloff s" "now + cooloff s \<le> t'"
  shows "allows t' (fold enter ts (fail now s))"
  using assms probe_fails [of s now] ok_fail [of s now] open_frozen [of "fail now s" ts]
  by (simp add: open_probes)

end

definition cb_allows :: "time_ms \<Rightarrow> circuit_breaker \<Rightarrow> bool" where
  "cb_allows now b = (fst (admit now b) = None)"

interpretation cb: circuit_contract cb_inv cb_state cb_allows "\<lambda>now b. snd (admit now b)"
  "\<lambda>now. record_outcome now Trip" openUntil openDurationMs
proof unfold_locales
  fix s now
  show "cb_inv s \<Longrightarrow> cb_state s = Closed \<Longrightarrow> cb_allows now s \<and> snd (admit now s) = s"
    by (simp add: cb_allows_def admit_def refresh_def)
  show "cb_inv s \<Longrightarrow> cb_state s = Open \<Longrightarrow> now < openUntil s \<Longrightarrow>
      \<not> cb_allows now s \<and> snd (admit now s) = s"
    by (simp add: cb_allows_def admit_def refresh_def)
  show "cb_inv s \<Longrightarrow> cb_state s = Open \<Longrightarrow> openUntil s \<le> now \<Longrightarrow>
      cb_allows now s \<and> cb_state (snd (admit now s)) = HalfOpen"
    by (simp add: cb_allows_def admit_def refresh_def tryAcquireProbe_def cb_inv_def)
  show "cb_inv s \<Longrightarrow> cb_state s = HalfOpen \<Longrightarrow> cb_state (record_outcome now Trip s) = Open \<and>
      openUntil (record_outcome now Trip s) = now + openDurationMs s"
    by (simp add: breaker_defs Let_def)
  show "cb_inv s \<Longrightarrow> cb_inv (snd (admit now s))" by (rule cb_inv_admit)
  show "cb_inv s \<Longrightarrow> cb_inv (record_outcome now Trip s)" by (rule cb_inv_record)
  show "openDurationMs (snd (admit now s)) = openDurationMs s"
    using options_step(2) [of "EAdmit now" s] by simp
qed

subsection \<open>Recovery and the probe budget\<close>

lemma admitted_success_half_open:
  assumes "cb_inv b" "cb_state b = HalfOpen" "probesInFlight b = 0"
  shows "run (Inr v) (\<lambda>_. Success) now now' b =
    (Inr v, if successThreshold b \<le> probeSuccesses b + 1 then close_circuit b
            else b\<lparr>probeSuccesses := probeSuccesses b + 1\<rparr>)"
  using assms
  by (simp add: run_def admit_def refresh_def tryAcquireProbe_def record_outcome_def onSuccess_def
      close_circuit_def Let_def cb_inv_def)

text \<open>Sequential successful calls, at the given instants.\<close>

fun good_calls :: "time_ms list \<Rightarrow> circuit_breaker \<Rightarrow> circuit_breaker" where
  "good_calls [] b = b"
| "good_calls (t # ts) b = good_calls ts (snd (run (Inr ()) (\<lambda>_. Success) t t b :: (unit call_error + unit) \<times> circuit_breaker))"

lemma good_calls_half_open:
  assumes "cb_inv b" "cb_state b = HalfOpen" "probesInFlight b = 0"
    and "int (length ts) = successThreshold b - probeSuccesses b"
  shows "cb_state (good_calls ts b) = Closed"
  using assms
proof (induction ts arbitrary: b)
  case Nil
  then show ?case by (auto simp: cb_inv_def)
next
  case (Cons t ts)
  let ?b = "b\<lparr>probeSuccesses := probeSuccesses b + 1\<rparr>"
  show ?case
  proof (cases ts)
    case Nil
    with Cons.prems show ?thesis
      by (simp add: admitted_success_half_open close_circuit_def)
  next
    case (Cons t' ts')
    then have "int (length ts) \<ge> 1" by simp
    with Cons.prems have lt: "probeSuccesses b + 1 < successThreshold b" by simp
    with Cons.prems have "cb_inv ?b" by (simp add: cb_inv_def)
    with Cons.prems Cons.IH [of ?b] lt show ?thesis
      by (simp add: admitted_success_half_open)
  qed
qed

lemma refresh_lapsed:
  assumes "cb_state b = Open" "openUntil b \<le> now"
  shows "admit now b = admit now (b\<lparr>cb_state := HalfOpen, probeSuccesses := 0, probesInFlight := 0\<rparr>)"
  using assms by (simp add: admit_def refresh_def)

lemma good_calls_lapsed:
  assumes "cb_state b = Open" "openUntil b \<le> t"
  shows "good_calls (t # ts) b =
    good_calls (t # ts) (b\<lparr>cb_state := HalfOpen, probeSuccesses := 0, probesInFlight := 0\<rparr>)"
  by (simp add: run_def refresh_lapsed [OF assms])

lemma exhausted_refuses:
  assumes "cb_state b = HalfOpen" "halfOpenMaxProbes b \<le> probesInFlight b"
  shows "admit now b = (Some HalfOpen, b)"
  using assms by (simp add: admit_def refresh_def tryAcquireProbe_def)

subsection \<open>Properties\<close>

text \<open>L. In every interleaving of calls the breaker's counters stay within their bounds: the
  probes it counts in flight never exceed \<open>halfOpenMaxProbes\<close>, a closed circuit is below its
  failure threshold and a half-open one below its success threshold.\<close>

theorem breaker_run_invariant:
  assumes "0 < ft" "0 < hp" "0 < st"
  shows "cb_inv (breaker_run es (new_circuit_breaker (Some ft) od (Some hp) (Some st)))"
  using assms by (simp add: cb_inv_run)

theorem breaker_run_invariant_witness:
  "cb_inv (breaker_run [EAdmit 0, ERecord 5 Trip, EAdmit 40000, ERecord 40001 Success]
     (new_circuit_breaker (Some 1) None (Some 1) (Some 2)))"
  by (rule breaker_run_invariant) simp_all

text \<open>C26. Only dependency failures open the circuit, and exactly at the threshold: over completed
  calls with no success among them, a closed circuit opens if and only if the trips seen so far
  reach \<open>failureThreshold\<close>, however many ignored outcomes are mixed in.\<close>

theorem opens_exactly_at_threshold:
  assumes "cb_inv b" "cb_state b = Closed" "Success \<notin> snd ` set os"
  shows "cb_state (breaker_run (records os) b) = Open \<longleftrightarrow>
    failureThreshold b \<le> consecutiveFailures b + trips os"
  using assms records_from_closed [of b os] by (simp add: cb_inv_def)

theorem opens_exactly_at_threshold_witness:
  "cb_state (breaker_run (records [(1, Trip), (2, Ignore), (3, Trip)])
     (new_circuit_breaker (Some 2) None None None)) = Open"
  using opens_exactly_at_threshold
    [of "new_circuit_breaker (Some 2) None None None" "[(1, Trip), (2, Ignore), (3, Trip)]"]
  by (simp add: new_circuit_breaker_def cb_inv_def DEFAULT_HALF_OPEN_MAX_PROBES_def
      DEFAULT_SUCCESS_THRESHOLD_def)

text \<open>C27. A failed probe gives the dependency a full fresh cool-off: whatever calls arrive before
  \<open>openDurationMs\<close> has elapsed are refused without changing the breaker, and the first call at or
  after that instant is admitted as a probe.\<close>

theorem failed_probe_full_cooloff:
  assumes "cb_inv b" "cb_state b = HalfOpen" "\<forall>t\<in>set ts. t < now + openDurationMs b"
  shows "cb_allows t' (fold (\<lambda>t b. snd (admit t b)) ts (record_outcome now Trip b)) \<longleftrightarrow> now + openDurationMs b \<le> t'"
  using cb.failed_probe_cools_off [OF assms, of t'] cb.reprobes_after_cooloff [OF assms, of t']
  by linarith

theorem failed_probe_full_cooloff_witness:
  "\<not> cb_allows 70 (fold (\<lambda>t b. snd (admit t b)) [50, 60] (record_outcome 40 Trip
      (new_circuit_breaker None (Some 100) None None\<lparr>cb_state := HalfOpen, probesInFlight := 1\<rparr>)))"
  using failed_probe_full_cooloff
    [of "new_circuit_breaker None (Some 100) None None\<lparr>cb_state := HalfOpen, probesInFlight := 1\<rparr>"
        "[50, 60]" 40 70]
  by (simp add: new_circuit_breaker_def cb_inv_def DEFAULT_FAILURE_THRESHOLD_def
      DEFAULT_HALF_OPEN_MAX_PROBES_def DEFAULT_SUCCESS_THRESHOLD_def)

text \<open>L. Recovery: once the cool-off of an open circuit has elapsed, \<open>successThreshold\<close> successful
  calls in a row close it.\<close>

theorem recovers_after_successes:
  assumes "cb_inv b" "cb_state b = Open" "openUntil b \<le> t"
    and "int (length (t # ts)) = successThreshold b"
  shows "cb_state (good_calls (t # ts) b) = Closed"
proof -
  let ?b = "b\<lparr>cb_state := HalfOpen, probeSuccesses := 0, probesInFlight := 0\<rparr>"
  have "cb_inv ?b" using assms(1) by (simp add: cb_inv_def)
  then have "cb_state (good_calls (t # ts) ?b) = Closed"
    using assms(4) by (intro good_calls_half_open) auto
  then show ?thesis using good_calls_lapsed [OF assms(2,3)] by simp
qed

theorem recovers_after_successes_witness:
  "cb_state (good_calls [100, 101]
     (new_circuit_breaker None None None None\<lparr>cb_state := Open, openUntil := 90\<rparr>)) = Closed"
  using recovers_after_successes
    [of "new_circuit_breaker None None None None\<lparr>cb_state := Open, openUntil := 90\<rparr>" 100 "[101]"]
  by (simp add: new_circuit_breaker_def cb_inv_def DEFAULT_FAILURE_THRESHOLD_def
      DEFAULT_HALF_OPEN_MAX_PROBES_def DEFAULT_SUCCESS_THRESHOLD_def)

text \<open>C38. A probe whose operation is refused by a nested breaker is passed through unrecorded and
  never returns its slot: with the default budget of one probe the circuit then refuses every later
  call, however much time passes.\<close>

theorem nested_refusal_leaks_probe:
  assumes "cb_state b = Open" "openUntil b \<le> now" "halfOpenMaxProbes b = 1"
  shows "fst (admit t (fold (\<lambda>t b. snd (admit t b)) ts
           (snd (run (Inl (CircuitOpenError s)) classify now now' b)))) = Some HalfOpen"
proof -
  let ?b = "snd (run (Inl (CircuitOpenError s)) classify now now' b)"
  have b: "cb_state ?b = HalfOpen" "halfOpenMaxProbes ?b \<le> probesInFlight ?b"
    using assms by (simp_all add: run_def admit_def refresh_def tryAcquireProbe_def)
  then have "fold (\<lambda>t b. snd (admit t b)) ts ?b = ?b"
    by (induction ts) (simp_all add: exhausted_refuses)
  with b show ?thesis by (simp add: exhausted_refuses)
qed

theorem nested_refusal_leaks_probe_witness:
  "fst (admit 1000000 (fold (\<lambda>t b. snd (admit t b)) [200, 300]
      (snd (run (Inl (CircuitOpenError Open)) (\<lambda>_. Trip) 100 100
         (new_circuit_breaker None None None None\<lparr>cb_state := Open, openUntil := 90\<rparr>)
         :: (unit call_error + unit) \<times> circuit_breaker)))) = Some HalfOpen"
  by (rule nested_refusal_leaks_probe)
     (simp_all add: new_circuit_breaker_def DEFAULT_HALF_OPEN_MAX_PROBES_def)

text \<open>L. Backoff delays are bounded: for a sample of the random source in [0, 1) the delay is a
  non-negative integer that never exceeds \<open>maxDelayMs\<close>, nor the exponential term of the attempt,
  and the exponential term stops growing after 31 attempts.\<close>

theorem backoff_bounded:
  assumes "0 \<le> r" "r < 1" "0 \<le> baseMs" "0 \<le> maxDelayMs"
  shows "0 \<le> backoffDelayMs attempt baseMs maxDelayMs r \<and>
    backoffDelayMs attempt baseMs maxDelayMs r \<le> maxDelayMs \<and>
    backoffDelayMs attempt baseMs maxDelayMs r \<le> baseMs * 2 ^ nat (min (max (attempt - 1) 0) 30)"
proof -
  let ?cap = "backoff_cap attempt baseMs maxDelayMs"
  have cap: "0 \<le> ?cap" "?cap \<le> maxDelayMs" "?cap \<le> baseMs * 2 ^ nat (min (max (attempt - 1) 0) 30)"
    using assms by (simp_all add: backoff_cap_def Let_def)
  have "r * of_int ?cap \<le> of_int ?cap"
    using assms cap by (intro mult_left_le_one_le) simp_all
  then have "floor (r * of_int ?cap) \<le> ?cap"
    by (metis floor_mono floor_of_int)
  moreover have "0 \<le> floor (r * of_int ?cap)"
    using assms cap by simp
  ultimately show ?thesis using cap by (simp add: backoffDelayMs_def)
qed

theorem backoff_bounded_witness:
  "backoffDelayMs 3 100 1000 (1/2) = 200 \<and> backoffDelayMs 90 100 1000 (9/10) \<le> 1000"
  using backoff_bounded [of "9/10" 100 1000 90]
  by (simp add: backoffDelayMs_def backoff_cap_def)

end
