(* ===== verification/Calendar.thy ===== *)
theory Calendar
  imports JsStrings
begin

text \<open>
  The UTC calendar of the language's \<open>Date\<close>: \<open>getUTCFullYear\<close>, \<open>getUTCMonth\<close>,
  \<open>getUTCDate\<close>, the time of day, \<open>Date.UTC\<close> and \<open>toISOString\<close>, following the
  specification's DayFromYear, YearFromTime and MonthFromTime.  Months count from 0.
  \<open>utc_month_number\<close> numbers the months of all years consecutively; the main lemma
  \<open>month_number_iff\<close> says which instants belong to which month.
\<close>

definition ms_per_day :: int where
  "ms_per_day = 86400000"

definition day_of :: "time_ms \<Rightarrow> int" where
  "day_of t = t div ms_per_day"

definition time_in_day :: "time_ms \<Rightarrow> int" where
  "time_in_day t = t mod ms_per_day"

definition day_from_year :: "int \<Rightarrow> int" where
  "day_from_year y =
     365 * (y - 1970) + (y - 1969) div 4 - (y - 1901) div 100 + (y - 1601) div 400"

definition is_leap :: "int \<Rightarrow> bool" where
  "is_leap y \<longleftrightarrow> (y mod 4 = 0 \<and> y mod 100 \<noteq> 0) \<or> y mod 400 = 0"

text \<open>Day-in-year of the first day of a month.\<close>

definition month_offset :: "bool \<Rightarrow> int \<Rightarrow> int" where
  "month_offset leap m =
     (let l = (if leap then 1 else 0) in
      if m \<le> 0 then 0 else if m = 1 then 31 else if m = 2 then 59 + l
      else if m = 3 then 90 + l else if m = 4 then 120 + l else if m = 5 then 151 + l
      else if m = 6 then 181 + l else if m = 7 then 212 + l else if m = 8 then 243 + l
      else if m = 9 then 273 + l else if m = 10 then 304 + l else if m = 11 then 334 + l
      else 365 + l)"

definition year_from_day :: "int \<Rightarrow> int" where
  "year_from_day d =
     (let y = 1970 + (400 * d) div 146097 in
      if d < day_from_year y then y - 1
      else if day_from_year (y + 1) \<le> d then y + 1 else y)"

fun month_search :: "bool \<Rightarrow> int \<Rightarrow> int list \<Rightarrow> int" where
  "month_search leap k [] = 0"
| "month_search leap k (m # ms) = (if month_offset leap m \<le> k then m else month_search leap k ms)"

definition utc_year :: "time_ms \<Rightarrow> int" where
  "utc_year t = year_from_day (day_of t)"

definition day_in_year :: "time_ms \<Rightarrow> int" where
  "day_in_year t = day_of t - day_from_year (utc_year t)"

definition utc_month :: "time_ms \<Rightarrow> int" where
  "utc_month t = month_search (is_leap (utc_year t)) (day_in_year t) [11,10,9,8,7,6,5,4,3,2,1,0]"

definition utc_date :: "time_ms \<Rightarrow> int" where
  "utc_date t = day_in_year t - month_offset (is_leap (utc_year t)) (utc_month t) + 1"

text \<open>\<open>Date.UTC(y, m, d)\<close>, where the month may leave 0--11 and carries into the year.\<close>

definition date_utc :: "int \<Rightarrow> int \<Rightarrow> int \<Rightarrow> time_ms" where
  "date_utc y m d =
     (let y' = y + m div 12; m' = m mod 12 in
      (day_from_year y' + month_offset (is_leap y') m' + (d - 1)) * ms_per_day)"

definition utc_month_number :: "time_ms \<Rightarrow> int" where
  "utc_month_number t = 12 * utc_year t + utc_month t"

definition month_start :: "int \<Rightarrow> time_ms" where
  "month_start k = date_utc 0 k 1"

definition pad2 :: "int \<Rightarrow> string" where
  "pad2 i = pad_start 2 CHR ''0'' (show_int i)"

definition show_year :: "int \<Rightarrow> string" where
  "show_year y =
     (if 0 \<le> y \<and> y \<le> 9999 then pad_start 4 CHR ''0'' (show_int y)
      else (if y < 0 then ''-'' else ''+'') @ pad_start 6 CHR ''0'' (show_int (abs y)))"

definition toISOString :: "time_ms \<Rightarrow> string" where
  "toISOString t =
     (let s = time_in_day t in
      show_year (utc_year t) @ ''-'' @ pad2 (utc_month t + 1) @ ''-'' @ pad2 (utc_date t) @ ''T''
      @ pad2 (s div 3600000) @ '':'' @ pad2 (s div 60000 mod 60) @ '':''
      @ pad2 (s div 1000 mod 60) @ ''.''
      @ pad_start 3 CHR ''0'' (show_int (s mod 1000)) @ ''Z'')"

lemma div_bounds:
  fixes x k :: int
  assumes "0 < k"
  shows "k * (x div k) \<le> x" "x < k * (x div k) + k"
proof -
  have "k * (x div k) + x mod k = x" by simp
  moreover have "0 \<le> x mod k" "x mod k < k" using assms by simp_all
  ultimately show "k * (x div k) \<le> x" "x < k * (x div k) + k" by linarith+
qed

lemma div_step:
  fixes x k :: int
  assumes k: "0 < k"
  shows "(x + 1) div k = x div k + (if (x + 1) mod k = 0 then 1 else 0)"
proof (cases "x mod k = k - 1")
  case True
  have "x = k * (x div k) + x mod k" by simp
  with True have "x + 1 = k * (x div k + 1)" unfolding distrib_left by linarith
  then have "(x + 1) div k = x div k + 1" "(x + 1) mod k = 0"
    using k by (metis nonzero_mult_div_cancel_left less_irrefl, metis mod_mult_self1_is_0)
  then show ?thesis by simp
next
  case False
  have b: "0 \<le> x mod k" "x mod k < k" using k by simp_all
  have e: "x + 1 = k * (x div k) + (x mod k + 1)" by simp
  have "x mod k + 1 < k" using False b by linarith
  then have "(x + 1) div k = x div k" "(x + 1) mod k = x mod k + 1"
    using b k int_div_pos_eq [OF e] int_mod_pos_eq [OF e] by auto
  with b show ?thesis by simp
qed

lemma div_cycle_step:
  fixes y k q :: int
  assumes "0 < k"
  shows "(y + 1 - (k * q + 1)) div k = (y - (k * q + 1)) div k + (if y mod k = 0 then 1 else 0)"
proof -
  have e: "y - (k * q + 1) + 1 = y + (- q) * k" "y + 1 - (k * q + 1) = y - (k * q + 1) + 1"
    by simp_all
  have "(y - (k * q + 1) + 1) mod k = y mod k" unfolding e(1) by (rule mod_mult_self1)
  then show ?thesis unfolding e(2) using div_step [OF assms, of "y - (k * q + 1)"] by presburger
qed

lemma leap_cycles:
  "(y + 1 - 1969) div 4 = (y - 1969) div 4 + (if y mod 4 = 0 then 1 else (0::int))"
  "(y + 1 - 1901) div 100 = (y - 1901) div 100 + (if y mod 100 = 0 then 1 else (0::int))"
  "(y + 1 - 1601) div 400 = (y - 1601) div 400 + (if y mod 400 = 0 then 1 else (0::int))"
proof -
  have n: "4 * 492 + 1 = (1969::int)" "100 * 19 + 1 = (1901::int)" "400 * 4 + 1 = (1601::int)"
    by simp_all
  show "(y + 1 - 1969) div 4 = (y - 1969) div 4 + (if y mod 4 = 0 then 1 else (0::int))"
    by (rule div_cycle_step [of 4 y 492, unfolded n]) simp
  show "(y + 1 - 1901) div 100 = (y - 1901) div 100 + (if y mod 100 = 0 then 1 else (0::int))"
    by (rule div_cycle_step [of 100 y 19, unfolded n]) simp
  show "(y + 1 - 1601) div 400 = (y - 1601) div 400 + (if y mod 400 = 0 then 1 else (0::int))"
    by (rule div_cycle_step [of 400 y 4, unfolded n]) simp
qed

lemma day_from_year_step:
  "day_from_year (y + 1) = day_from_year y + (if is_leap y then 366 else 365)"
proof -
  have "y mod 100 mod 4 = y mod 4" "y mod 400 mod 100 = y mod 100"
    by (rule mod_mod_cancel, simp)+
  then have m: "y mod 100 = 0 \<Longrightarrow> y mod 4 = 0" "y mod 400 = 0 \<Longrightarrow> y mod 100 = 0"
    by (metis mod_0)+
  show ?thesis
  proof (cases "y mod 400 = 0")
    case True
    with m show ?thesis unfolding day_from_year_def leap_cycles is_leap_def by simp
  next
    case False
    then show ?thesis
      using m(1) unfolding day_from_year_def leap_cycles is_leap_def
      by (cases "y mod 100 = 0") simp_all
  qed
qed

lemma day_from_year_less: "day_from_year y < day_from_year (y + 1)"
  by (simp add: day_from_year_step)

lemma day_from_year_mono: "y \<le> z \<Longrightarrow> day_from_year y \<le> day_from_year z"
proof (induction z rule: int_ge_induct)
  case (step i)
  with day_from_year_less [of i] show ?case by simp
qed simp

lemma day_from_year_bounds:
  "400 * day_from_year y \<le> 146097 * (y - 1970) + 589"
  "146097 * (y - 1970) - 506 \<le> 400 * day_from_year y"
proof -
  note d = div_bounds [of 4 "y - 1969"] div_bounds [of 100 "y - 1901"]
    div_bounds [of 400 "y - 1601"]
  show "400 * day_from_year y \<le> 146097 * (y - 1970) + 589"
    unfolding day_from_year_def using d by simp
  show "146097 * (y - 1970) - 506 \<le> 400 * day_from_year y"
    unfolding day_from_year_def using d by simp
qed

lemma year_from_day_bounds:
  "day_from_year (year_from_day d) \<le> d \<and> d < day_from_year (year_from_day d + 1)"
proof -
  define n where "n = (400 * d) div 146097"
  have n: "146097 * n \<le> 400 * d" "400 * d < 146097 * n + 146097"
    unfolding n_def using div_bounds [of 146097 "400 * d"] by simp_all
  note b = day_from_year_bounds
  define y where "y = 1970 + n"
  have hi: "d < day_from_year (y + 1 + 1)" using b(2) [of "y + 1 + 1"] n y_def by simp
  have lo: "day_from_year (y - 1) \<le> d" using b(1) [of "y - 1"] n y_def by simp
  have e: "year_from_day d = (if d < day_from_year y then y - 1
      else if day_from_year (y + 1) \<le> d then y + 1 else y)"
    unfolding year_from_day_def Let_def n_def [symmetric] y_def [symmetric] by (rule refl)
  show ?thesis
  proof (cases "d < day_from_year y")
    case True
    with lo show ?thesis unfolding e by simp
  next
    case False
    with hi show ?thesis unfolding e by (cases "day_from_year (y + 1) \<le> d") simp_all
  qed
qed

lemma year_from_day_unique:
  assumes "day_from_year y \<le> d" "d < day_from_year (y + 1)"
  shows "year_from_day d = y"
proof (rule ccontr)
  assume "year_from_day d \<noteq> y"
  then consider "y + 1 \<le> year_from_day d" | "year_from_day d + 1 \<le> y" by linarith
  then show False
    using day_from_year_mono assms year_from_day_bounds [of d] by cases fastforce+
qed

lemma month_cases: "0 \<le> m \<Longrightarrow> m \<le> 11 \<Longrightarrow> (m::int) \<in> {0,1,2,3,4,5,6,7,8,9,10,11}"
  by simp presburger

lemma month_offset_step: "0 \<le> m \<Longrightarrow> m \<le> 11 \<Longrightarrow> month_offset l m < month_offset l (m + 1)"
  using month_cases [of m] by (cases l) (auto simp: month_offset_def)

lemma month_search_upto:
  assumes "0 \<le> k"
  shows "0 \<le> month_search l k (map int (rev [0..<Suc n])) \<and>
         month_search l k (map int (rev [0..<Suc n])) \<le> int n \<and>
         month_offset l (month_search l k (map int (rev [0..<Suc n]))) \<le> k \<and>
         (month_search l k (map int (rev [0..<Suc n])) = int n \<or>
          k < month_offset l (month_search l k (map int (rev [0..<Suc n])) + 1))"
proof (induction n)
  case 0
  with assms show ?case by (simp add: month_offset_def)
next
  case (Suc n)
  then show ?case by (auto simp: algebra_simps)
qed

lemma months_list: "map int (rev [0..<Suc 11]) = [11,10,9,8,7,6,5,4,3,2,1,0]"
  by (simp add: upt_rec numeral_eq_Suc)

lemma month_search_bounds:
  assumes "0 \<le> k" "k < (if l then 366 else 365)"
  defines "m \<equiv> month_search l k [11,10,9,8,7,6,5,4,3,2,1,0]"
  shows "0 \<le> m \<and> m \<le> 11 \<and> month_offset l m \<le> k \<and> k < month_offset l (m + 1)"
proof -
  have "k < month_offset l 12" using assms(2) by (cases l) (simp_all add: month_offset_def)
  with month_search_upto [OF assms(1), of l 11, unfolded months_list]
  show ?thesis unfolding m_def by auto
qed

lemma utc_fields:
  "day_from_year (utc_year t) \<le> day_of t" "0 \<le> day_in_year t"
  "day_in_year t < (if is_leap (utc_year t) then 366 else 365)"
  using year_from_day_bounds [of "day_of t"]
  by (simp_all add: utc_year_def day_in_year_def day_from_year_step split: if_splits)

lemma utc_month_bounds:
  "0 \<le> utc_month t" "utc_month t \<le> 11"
  "month_offset (is_leap (utc_year t)) (utc_month t) \<le> day_in_year t"
  "day_in_year t < month_offset (is_leap (utc_year t)) (utc_month t + 1)"
  using month_search_bounds [OF utc_fields(2,3) [of t]] by (simp_all add: utc_month_def)

lemma month_start_year_month:
  assumes "0 \<le> m" "m \<le> 11"
  shows "month_start (12 * y + m) = (day_from_year y + month_offset (is_leap y) m) * ms_per_day"
    "month_start (12 * y + m + 1) = (day_from_year y + month_offset (is_leap y) (m + 1)) * ms_per_day"
proof -
  have d: "(12 * y + m) div 12 = y" "(12 * y + m) mod 12 = m" using assms by auto
  then show "month_start (12 * y + m) = (day_from_year y + month_offset (is_leap y) m) * ms_per_day"
    by (simp add: month_start_def date_utc_def)
  show "month_start (12 * y + m + 1) = (day_from_year y + month_offset (is_leap y) (m + 1)) * ms_per_day"
  proof (cases "m = 11")
    case True
    then have "(12 * y + m + 1) div 12 = y + 1" "(12 * y + m + 1) mod 12 = 0" by auto
    with True show ?thesis
      using day_from_year_step [of y] by (simp add: month_start_def date_utc_def month_offset_def add.commute)
  next
    case False
    with assms have "(12 * y + (m + 1)) div 12 = y" "(12 * y + (m + 1)) mod 12 = m + 1" by auto
    then show ?thesis by (simp add: month_start_def date_utc_def add.assoc)
  qed
qed

lemma day_of_le: "d * ms_per_day \<le> t \<longleftrightarrow> d \<le> day_of t"
proof
  assume "d * ms_per_day \<le> t"
  then have "d * ms_per_day div ms_per_day \<le> t div ms_per_day"
    by (rule zdiv_mono1) (simp add: ms_per_day_def)
  then show "d \<le> day_of t" by (simp add: day_of_def ms_per_day_def)
next
  assume "d \<le> day_of t"
  then show "d * ms_per_day \<le> t"
    using div_bounds(1) [of ms_per_day t] by (simp add: day_of_def ms_per_day_def)
qed

lemma day_of_less: "t < d * ms_per_day \<longleftrightarrow> day_of t < d"
  using day_of_le [of d t] by linarith

text \<open>An instant lies in month \<open>k\<close> exactly when it is between the starts of \<open>k\<close> and \<open>k + 1\<close>.\<close>

lemma month_number_bounds:
  "month_start (utc_month_number t) \<le> t \<and> t < month_start (utc_month_number t + 1)"
  using utc_month_bounds [of t]
  by (simp add: utc_month_number_def month_start_year_month day_of_le day_of_less day_in_year_def)

lemma month_start_less: "month_start k < month_start (k + 1)"
proof -
  define y m where "y = k div 12" and "m = k mod 12"
  have k: "k = 12 * y + m" and m: "0 \<le> m" "m \<le> 11" by (simp_all add: y_def m_def)
  show ?thesis unfolding k month_start_year_month [OF m]
    using month_offset_step [OF m] by (simp add: ms_per_day_def)
qed

lemma month_start_mono: "j \<le> k \<Longrightarrow> month_start j \<le> month_start k"
proof (induction k rule: int_ge_induct)
  case (step i)
  with month_start_less [of i] show ?case by simp
qed simp

lemma month_start_strict: "j < k \<Longrightarrow> month_start j < month_start k"
  using month_start_mono [of "j + 1" k] month_start_less [of j] by simp

lemma month_number_unique:
  assumes "month_start k \<le> t" "t < month_start (k + 1)"
  shows "utc_month_number t = k"
proof (rule ccontr)
  assume "utc_month_number t \<noteq> k"
  then consider "k + 1 \<le> utc_month_number t" | "utc_month_number t + 1 \<le> k" by linarith
  then show False
    using month_start_mono assms month_number_bounds [of t] by cases fastforce+
qed

lemma month_number_iff:
  "utc_month_number t = k \<longleftrightarrow> month_start k \<le> t \<and> t < month_start (k + 1)"
  using month_number_bounds [of t] month_number_unique by blast

lemma date_utc_month_start: "date_utc y m 1 = month_start (12 * y + m)"
  by (simp add: month_start_def date_utc_def)

lemma utc_month_number_start [simp]: "utc_month_number (month_start k) = k"
  by (simp add: month_number_iff month_start_less)

end
