(* ===== verification/Json.thy ===== *)
theory Json
  imports Calendar "HOL-Library.Multiset"
begin

text \<open>
  JSON values, \<open>JSON.stringify\<close>, and the key-sorting canonical form the services hash:
  \<open>common/crypto/canonicalize.ts\<close> (payloads, credentials) and \<open>canonicalStringify\<close> of
  \<open>audit/audit-chain.ts\<close> (audit records).

  An object is the list of its entries in enumeration order; the language enumerates
  array-index keys first, in numeric order, and then the others in insertion order
  (\<open>own_order\<close>).  Numbers are integers, and \<open>JNonFinite\<close> stands for NaN and the infinities.
  Object keys are compared as strings of characters.
\<close>

datatype json =
    JNull
  | JBool bool
  | JInt int
  | JNonFinite
  | JStr string
  | JArr "json list"
  | JObj "(string \<times> json) list"

text \<open>Array-index keys: the decimal form of a number below \<open>2 ^ 32 - 1\<close>.\<close>

definition is_index :: "string \<Rightarrow> bool" where
  "is_index k \<longleftrightarrow> k \<noteq> [] \<and> all_digits k \<and> show_nat (read_digits k) = k \<and> read_digits k < 2 ^ 32 - 1"

definition own_order :: "(string \<times> 'v) list \<Rightarrow> (string \<times> 'v) list" where
  "own_order es =
     sort_key (\<lambda>e. read_digits (fst e)) (filter (\<lambda>e. is_index (fst e)) es) @
     filter (\<lambda>e. \<not> is_index (fst e)) es"

definition hex_digit :: "nat \<Rightarrow> char" where
  "hex_digit d = ''0123456789abcdef'' ! d"

definition quote_char :: "char \<Rightarrow> string" where
  "quote_char c =
     (let n = (of_char c :: nat) in
      if n = 34 then [CHR 0x5C, CHR 0x22]
      else if n = 92 then [CHR 0x5C, CHR 0x5C]
      else if n = 8 then [CHR 0x5C, CHR ''b'']
      else if n = 12 then [CHR 0x5C, CHR ''f'']
      else if n = 10 then [CHR 0x5C, CHR ''n'']
      else if n = 13 then [CHR 0x5C, CHR ''r'']
      else if n = 9 then [CHR 0x5C, CHR ''t'']
      else if n < 32 then [CHR 0x5C, CHR ''u'', CHR ''0'', CHR ''0'', hex_digit (n div 16), hex_digit (n mod 16)]
      else [c])"

definition quote :: "string \<Rightarrow> string" where
  "quote s = [CHR 0x22] @ concat (map quote_char s) @ [CHR 0x22]"

text \<open>\<open>JSON.stringify\<close>: a non-finite number renders as \<open>null\<close>.\<close>

fun stringify :: "json \<Rightarrow> string" where
  "stringify JNull = ''null''"
| "stringify (JBool b) = (if b then ''true'' else ''false'')"
| "stringify (JInt i) = show_int i"
| "stringify JNonFinite = ''null''"
| "stringify (JStr s) = quote s"
| "stringify (JArr xs) = ''['' @ join '','' (map stringify xs) @ '']''"
| "stringify (JObj es) = ''{'' @ join '','' (map (\<lambda>(k, v). quote k @ '':'' @ stringify v) es) @ ''}''"

text \<open>
  \<open>sortObject\<close>: sorts the keys of every object; None is the exception it throws on a number
  that is not finite.
\<close>

fun sortObject :: "json \<Rightarrow> json option" where
  "sortObject JNonFinite = None"
| "sortObject (JArr xs) = map_option JArr (those (map sortObject xs))"
| "sortObject (JObj es) =
     map_option (\<lambda>vs. JObj (own_order (sort_key fst (zip (map fst es) vs)))) (those (map (\<lambda>(k, v). sortObject v) es))"
| "sortObject j = Some j"

definition canonicalize :: "json \<Rightarrow> string option" where
  "canonicalize j = map_option stringify (sortObject j)"

text \<open>\<open>sortKeysDeep\<close> of the audit chain: the same sorting, with no check of the numbers.\<close>

fun sortKeysDeep :: "json \<Rightarrow> json" where
  "sortKeysDeep (JArr xs) = JArr (map sortKeysDeep xs)"
| "sortKeysDeep (JObj es) = JObj (own_order (sort_key fst (map (\<lambda>(k, v). (k, sortKeysDeep v)) es)))"
| "sortKeysDeep j = j"

definition canonicalStringify :: "json \<Rightarrow> string" where
  "canonicalStringify j = stringify (sortKeysDeep j)"

text \<open>Equality up to the order of object keys, at every depth.\<close>

inductive json_eq :: "json \<Rightarrow> json \<Rightarrow> bool" where
  eq_refl: "json_eq j j"
| eq_arr: "list_all2 json_eq xs ys \<Longrightarrow> json_eq (JArr xs) (JArr ys)"
| eq_obj: "list_all2 (\<lambda>a b. fst a = fst b \<and> json_eq (snd a) (snd b)) es fs \<Longrightarrow> mset fs = mset gs \<Longrightarrow>
    distinct (map fst es) \<Longrightarrow> json_eq (JObj es) (JObj gs)"

fun finite_json :: "json \<Rightarrow> bool" where
  "finite_json JNonFinite = False"
| "finite_json (JArr xs) = list_all finite_json xs"
| "finite_json (JObj es) = list_all (\<lambda>(k, v). finite_json v) es"
| "finite_json j = True"

lemma sort_key_unique_keys:
  fixes f :: "'a \<Rightarrow> 'k::linorder"
  assumes "mset xs = mset ys" "distinct (map f xs)"
  shows "sort_key f xs = sort_key f ys"
  by (rule sort_key_inj_key_eq) (use assms in \<open>simp_all add: distinct_map\<close>)

lemma those_map_Some: "(\<And>x. x \<in> set xs \<Longrightarrow> f x = Some (g x)) \<Longrightarrow> those (map f xs) = Some (map g xs)"
  by (induction xs) auto

lemma those_map_None: "x \<in> set xs \<Longrightarrow> f x = None \<Longrightarrow> those (map f xs) = None"
  by (induction xs) (auto split: option.splits)

lemma sortObject_finite: "sortObject j = (if finite_json j then Some (sortKeysDeep j) else None)"
proof (induction j)
  case (JArr xs)
  show ?case
  proof (cases "list_all finite_json xs")
    case True
    then have "those (map sortObject xs) = Some (map sortKeysDeep xs)"
      using JArr by (intro those_map_Some) (auto simp: list_all_iff)
    with True show ?thesis by simp
  next
    case False
    then obtain x where "x \<in> set xs" "\<not> finite_json x" by (auto simp: list_all_iff)
    then have "those (map sortObject xs) = None" using JArr by (intro those_map_None [of x]) auto
    with False show ?thesis by simp
  qed
next
  case (JObj es)
  show ?case
  proof (cases "list_all (\<lambda>(k, v). finite_json v) es")
    case True
    then have "those (map (\<lambda>(k, v). sortObject v) es) = Some (map (\<lambda>(k, v). sortKeysDeep v) es)"
      using JObj by (intro those_map_Some) (fastforce simp: list_all_iff)
    moreover have "zip (map fst es) (map (\<lambda>(k, v). sortKeysDeep v) es) = map (\<lambda>(k, v). (k, sortKeysDeep v)) es"
      by (induction es) auto
    ultimately show ?thesis using True by simp
  next
    case False
    then obtain k v where "(k, v) \<in> set es" "\<not> finite_json v" by (auto simp: list_all_iff)
    then have "those (map (\<lambda>(k, v). sortObject v) es) = None"
      using JObj by (intro those_map_None [of "(k, v)"]) fastforce+
    with False show ?thesis by simp
  qed
qed simp_all

lemma list_all2_map_eq: "list_all2 (\<lambda>x y. f x = g y) xs ys \<Longrightarrow> map f xs = map g ys"
  by (induction rule: list_all2_induct) auto

lemma sortKeysDeep_eq: "json_eq j j' \<Longrightarrow> sortKeysDeep j = sortKeysDeep j'"
proof (induction rule: json_eq.induct)
  case (eq_arr xs ys)
  then have "map sortKeysDeep xs = map sortKeysDeep ys"
    by (intro list_all2_map_eq) (auto elim: list_all2_mono)
  then show ?case by simp
next
  case (eq_obj es fs gs)
  let ?f = "\<lambda>(k, v). (k, sortKeysDeep v)"
  have m: "map ?f es = map ?f fs"
    using eq_obj.IH by (intro list_all2_map_eq) (auto elim!: list_all2_mono)
  have "map fst es = map fst fs"
    using eq_obj.IH by (intro list_all2_map_eq) (auto elim!: list_all2_mono)
  moreover have k: "map fst (map ?f xs) = map fst xs" for xs :: "(string \<times> json) list"
    by (induction xs) auto
  ultimately have "distinct (map fst (map ?f fs))" using eq_obj.hyps(2) by metis
  moreover have "mset (map ?f fs) = mset (map ?f gs)" using eq_obj.hyps(1) by (simp only: mset_map)
  ultimately have "sort_key fst (map ?f fs) = sort_key fst (map ?f gs)" by (intro sort_key_unique_keys)
  then show ?case using m by simp
qed simp

lemma finite_json_eq: "json_eq j j' \<Longrightarrow> finite_json j = finite_json j'"
proof (induction rule: json_eq.induct)
  case (eq_arr xs ys)
  then have "map finite_json xs = map finite_json ys"
    by (intro list_all2_map_eq) (auto elim: list_all2_mono)
  then have "list_all id (map finite_json xs) = list_all id (map finite_json ys)" by simp
  then show ?case by (simp add: list.pred_map)
next
  case (eq_obj es fs gs)
  let ?f = "\<lambda>(k, v). finite_json v"
  have "map ?f es = map ?f fs"
    using eq_obj.IH by (intro list_all2_map_eq) (auto elim!: list_all2_mono)
  then have "list_all id (map ?f es) = list_all id (map ?f fs)" by simp
  moreover have "set fs = set gs" using eq_obj.hyps(1) by (rule mset_eq_setD)
  ultimately show ?case by (simp add: list.pred_map list_all_iff)
qed simp

text \<open>L. The canonical forms do not depend on the order in which object keys were inserted, at any
  depth: values equal up to key order have the same canonical string (and \<open>canonicalize\<close> throws on
  both or on neither).\<close>

theorem canonical_key_order:
  assumes "json_eq j j'"
  shows "canonicalize j = canonicalize j' \<and> canonicalStringify j = canonicalStringify j'"
  using sortKeysDeep_eq [OF assms] finite_json_eq [OF assms]
  by (simp add: canonicalize_def canonicalStringify_def sortObject_finite)

theorem canonical_key_order_witness:
  "canonicalize (JObj [(''b'', JInt 1), (''a'', JObj [(''10'', JNull), (''9'', JBool True)])]) =
   canonicalize (JObj [(''a'', JObj [(''9'', JBool True), (''10'', JNull)]), (''b'', JInt 1)])"
proof -
  have "json_eq (JObj [(''10'', JNull), (''9'', JBool True)]) (JObj [(''9'', JBool True), (''10'', JNull)])"
    by (rule eq_obj [of _ "[(''10'', JNull), (''9'', JBool True)]"]) (auto intro: eq_refl)
  then have "json_eq (JObj [(''b'', JInt 1), (''a'', JObj [(''10'', JNull), (''9'', JBool True)])])
      (JObj [(''a'', JObj [(''9'', JBool True), (''10'', JNull)]), (''b'', JInt 1)])"
    by (intro eq_obj [of _ "[(''b'', JInt 1), (''a'', JObj [(''9'', JBool True), (''10'', JNull)])]"])
      (auto intro: eq_refl)
  then show ?thesis by (rule canonical_key_order [THEN conjunct1])
qed

end
