(* ===== verification/AuditChain.thy ===== *)
theory AuditChain
  imports Json Store
begin

text \<open>
  The tamper-evident audit log: the hash primitives of \<open>audit/audit-chain.ts\<close>, the chained
  append of \<open>database/prisma.service.ts\<close>, the walk of \<open>audit/audit-verification.service.ts\<close>,
  and \<open>tx_audit_create\<close>, the plain insert a service makes when it calls
  \<open>tx.auditLog.create\<close> inside its own transaction, where the chained writer is not installed
  and the row gets the column defaults (chain \<open>SYSTEM\<close>, sequence 0, empty hash).

  \<open>sha256\<close> is a parameter.
\<close>

record audit_row =
  l_id :: ident
  l_actorType :: string
  l_actorId :: "ident option"
  l_action :: string
  l_resourceType :: string
  l_resourceId :: "ident option"
  l_metadata :: "json option"
  l_createdAt :: time_ms
  l_organizationId :: "ident option"
  l_chainKey :: string
  l_sequence :: int
  l_hashVersion :: int
  l_prevHash :: "string option"
  l_hash :: string

record chain_cursor =
  k_chainKey :: string
  k_lastSequence :: int
  k_lastHash :: "string option"

record audit_store =
  audit_log :: "audit_row table"
  chain_cursors :: "chain_cursor table"

text \<open>What a caller passes to \<open>auditLog.create\<close>.\<close>

record audit_data =
  d_actorType :: string
  d_actorId :: "ident option"
  d_action :: string
  d_resourceType :: string
  d_resourceId :: "ident option"
  d_metadata :: "json option"
  d_organizationId :: "ident option"

subsection \<open>Hash primitives\<close>

definition CURRENT_HASH_VERSION :: int where
  "CURRENT_HASH_VERSION = 1"

definition SYSTEM_CHAIN_KEY :: string where
  "SYSTEM_CHAIN_KEY = ''SYSTEM''"

definition GENESIS_SENTINEL :: string where
  "GENESIS_SENTINEL = ''GENESIS''"

definition resolveChainKey :: "ident option \<Rightarrow> string" where
  "resolveChainKey orgId = (if truthy orgId then the orgId else SYSTEM_CHAIN_KEY)"

definition json_opt :: "string option \<Rightarrow> json" where
  "json_opt x = (case x of None \<Rightarrow> JNull | Some s \<Rightarrow> JStr s)"

record audit_hash_input =
  i_chainKey :: string
  i_sequence :: int
  i_hashVersion :: int
  i_actorType :: string
  i_actorId :: "ident option"
  i_action :: string
  i_resourceType :: string
  i_resourceId :: "ident option"
  i_metadata :: "json option"
  i_createdAt :: time_ms

definition buildCanonicalRecord :: "audit_hash_input \<Rightarrow> string" where
  "buildCanonicalRecord i = canonicalStringify (JObj
     [(''chainKey'', JStr (i_chainKey i)),
      (''sequence'', JStr (show_int (i_sequence i))),
      (''hashVersion'', JInt (i_hashVersion i)),
      (''actorType'', JStr (i_actorType i)),
      (''actorId'', json_opt (i_actorId i)),
      (''action'', JStr (i_action i)),
      (''resourceType'', JStr (i_resourceType i)),
      (''resourceId'', json_opt (i_resourceId i)),
      (''metadata'', nullish (i_metadata i) JNull),
      (''createdAt'', JStr (toISOString (i_createdAt i)))])"

text \<open>None is the exception on an unsupported version.\<close>

definition computeAuditHash ::
  "(string \<Rightarrow> string) \<Rightarrow> string option \<Rightarrow> audit_hash_input \<Rightarrow> int \<Rightarrow> string option" where
  "computeAuditHash sha256 prev i version =
     (if version = 1
      then Some (sha256 (nullish prev GENESIS_SENTINEL @ ''|'' @ buildCanonicalRecord (i\<lparr>i_hashVersion := version\<rparr>)))
      else None)"

definition row_input :: "string \<Rightarrow> audit_row \<Rightarrow> audit_hash_input" where
  "row_input key r =
     \<lparr>i_chainKey = key, i_sequence = l_sequence r, i_hashVersion = l_hashVersion r, i_actorType = l_actorType r,
      i_actorId = l_actorId r, i_action = l_action r, i_resourceType = l_resourceType r,
      i_resourceId = l_resourceId r, i_metadata = l_metadata r, i_createdAt = l_createdAt r\<rparr>"

subsection \<open>Writers\<close>

definition seq_taken :: "string \<Rightarrow> int \<Rightarrow> audit_row table \<Rightarrow> bool" where
  "seq_taken key n t \<longleftrightarrow> (\<exists>r\<in>set t. l_chainKey r = key \<and> l_sequence r = n)"

text \<open>The insert that every \<open>create\<close> ends in: \<open>(chainKey, sequence)\<close> is unique.\<close>

definition insert_audit :: "audit_row \<Rightarrow> audit_row table \<Rightarrow> (http_error, audit_row table) result" where
  "insert_audit r t =
     (if seq_taken (l_chainKey r) (l_sequence r) t then Inl UniqueViolation else Inr (insert_row r t))"

definition tx_audit_create :: "ident \<Rightarrow> audit_data \<Rightarrow> time_ms \<Rightarrow> audit_row table \<Rightarrow> (http_error, audit_row table) result" where
  "tx_audit_create rid d now t =
     insert_audit \<lparr>l_id = rid, l_actorType = d_actorType d, l_actorId = d_actorId d, l_action = d_action d,
        l_resourceType = d_resourceType d, l_resourceId = d_resourceId d, l_metadata = d_metadata d,
        l_createdAt = now, l_organizationId = d_organizationId d, l_chainKey = SYSTEM_CHAIN_KEY, l_sequence = 0,
        l_hashVersion = 1, l_prevHash = None, l_hash = []\<rparr> t"

definition appendAuditLog ::
  "(string \<Rightarrow> string) \<Rightarrow> ident \<Rightarrow> audit_data \<Rightarrow> time_ms \<Rightarrow> audit_store
   \<Rightarrow> (http_error, audit_row) result \<times> audit_store" where
  "appendAuditLog sha256 rid d now st =
     (let key = resolveChainKey (d_organizationId d);
          cs = (if \<exists>c\<in>set (chain_cursors st). k_chainKey c = key then chain_cursors st
                else insert_row \<lparr>k_chainKey = key, k_lastSequence = 0, k_lastHash = None\<rparr> (chain_cursors st))
      in case find_row (\<lambda>c. k_chainKey c = key) cs of
           None \<Rightarrow> (Inl (ServiceUnavailable ''Audit chain cursor could not be locked''), st)
         | Some c \<Rightarrow>
             let row0 = \<lparr>l_id = rid, l_actorType = d_actorType d, l_actorId = d_actorId d, l_action = d_action d,
                    l_resourceType = d_resourceType d, l_resourceId = d_resourceId d, l_metadata = d_metadata d,
                    l_createdAt = now, l_organizationId = d_organizationId d, l_chainKey = key,
                    l_sequence = k_lastSequence c + 1, l_hashVersion = CURRENT_HASH_VERSION,
                    l_prevHash = k_lastHash c, l_hash = []\<rparr>;
                 h = the (computeAuditHash sha256 (k_lastHash c) (row_input key row0) CURRENT_HASH_VERSION);
                 row = row0\<lparr>l_hash := h\<rparr>
             in (case insert_audit row (audit_log st) of
                   Inl e \<Rightarrow> (Inl e, st)
                 | Inr t \<Rightarrow>
                     (Inr row, \<lparr>audit_log = t,
                        chain_cursors = upd_rows (\<lambda>c. k_chainKey c = key)
                          (\<lambda>c. c\<lparr>k_lastSequence := l_sequence row, k_lastHash := Some h\<rparr>) cs\<rparr>)))"

subsection \<open>Verification\<close>

datatype chain_break_reason = HASH_MISMATCH | PREV_HASH_MISMATCH | SEQUENCE_GAP

record walk_state =
  w_prevHash :: "string option"
  w_prevSequence :: "int option"
  w_checked :: nat
  w_first :: "int option"
  w_last :: "int option"
  w_truncated :: bool

record chain_result =
  v_chainKey :: string
  v_ok :: bool
  v_checked :: nat
  v_first :: "int option"
  v_last :: "int option"
  v_truncated :: bool
  v_break :: "(ident \<times> int \<times> chain_break_reason) option"

text \<open>One record of the walk: go on, stop at a break, or the exception of an unknown version.\<close>

datatype walk_outcome = Go walk_state | Stop chain_result | Throw

definition break_at :: "string \<Rightarrow> walk_state \<Rightarrow> audit_row \<Rightarrow> chain_break_reason \<Rightarrow> chain_result" where
  "break_at key st r why =
     \<lparr>v_chainKey = key, v_ok = False, v_checked = w_checked st + 1, v_first = w_first st,
      v_last = Some (l_sequence r), v_truncated = w_truncated st, v_break = Some (l_id r, l_sequence r, why)\<rparr>"

definition walk_record :: "(string \<Rightarrow> string) \<Rightarrow> string \<Rightarrow> walk_state \<Rightarrow> audit_row \<Rightarrow> walk_outcome" where
  "walk_record sha256 key st0 r =
     (let st = (if w_first st0 = None
                then st0\<lparr>w_first := Some (l_sequence r), w_truncated := (w_truncated st0 \<or> 1 < l_sequence r)\<rparr>
                else st0)
      in case computeAuditHash sha256 (l_prevHash r) (row_input key r) (l_hashVersion r) of
           None \<Rightarrow> Throw
         | Some h \<Rightarrow>
             if h \<noteq> l_hash r then Stop (break_at key st r HASH_MISMATCH)
             else if (w_prevHash st \<noteq> None \<or> w_prevSequence st \<noteq> None) \<and> l_prevHash r \<noteq> w_prevHash st
             then Stop (break_at key st r PREV_HASH_MISMATCH)
             else if (w_prevHash st \<noteq> None \<or> w_prevSequence st \<noteq> None) \<and>
                     Some (l_sequence r) \<noteq> map_option (\<lambda>n. n + 1) (w_prevSequence st)
             then Stop (break_at key st r SEQUENCE_GAP)
             else Go (st\<lparr>w_prevHash := Some (l_hash r), w_prevSequence := Some (l_sequence r),
                        w_checked := w_checked st + 1, w_last := Some (l_sequence r)\<rparr>))"

fun walk_page :: "(string \<Rightarrow> string) \<Rightarrow> string \<Rightarrow> walk_state \<Rightarrow> audit_row list \<Rightarrow> walk_outcome" where
  "walk_page sha256 key st [] = Go st"
| "walk_page sha256 key st (r # rs) =
     (case walk_record sha256 key st r of
        Go st' \<Rightarrow> walk_page sha256 key st' rs | Stop res \<Rightarrow> Stop res | Throw \<Rightarrow> Throw)"

definition WALK_PAGE_SIZE :: nat where
  "WALK_PAGE_SIZE = 500"

text \<open>The query of one page: rows of the chain after the cursor, in sequence order.\<close>

definition after_cursor :: "string \<Rightarrow> int option \<Rightarrow> audit_row table \<Rightarrow> audit_row list" where
  "after_cursor key cur t =
     sort_key l_sequence (filter (\<lambda>r. l_chainKey r = key \<and> (cur = None \<or> the cur < l_sequence r)) t)"

lemma after_cursor_shrinks:
  assumes "take n (after_cursor key cur t) \<noteq> []"
  shows "length (after_cursor key (Some (l_sequence (last (take n (after_cursor key cur t))))) t)
         < length (after_cursor key cur t)"
proof -
  let ?p = "\<lambda>cur r. l_chainKey r = key \<and> (cur = None \<or> the cur < l_sequence r)"
  let ?x = "last (take n (after_cursor key cur t))"
  have "?x \<in> set (take n (after_cursor key cur t))" using assms by (rule last_in_set)
  then have "?x \<in> set (after_cursor key cur t)" by (rule in_set_takeD)
  then have x: "?x \<in> set t" "?p cur ?x" by (auto simp: after_cursor_def)
  have "length (filter (?p (Some (l_sequence ?x))) t) < length (filter (?p cur) t)"
  proof -
    have "filter (?p (Some (l_sequence ?x))) t = filter (?p (Some (l_sequence ?x))) (filter (?p cur) t)"
      using x by (auto simp: intro!: filter_cong)
    also have "length \<dots> < length (filter (?p cur) t)"
      by (rule length_filter_less [of ?x]) (use x in auto)
    finally show ?thesis .
  qed
  then show ?thesis by (simp add: after_cursor_def)
qed

function walk_chain :: "(string \<Rightarrow> string) \<Rightarrow> string \<Rightarrow> int option \<Rightarrow> walk_state \<Rightarrow> audit_row table \<Rightarrow> walk_outcome" where
  "walk_chain sha256 key cur st t =
     (let page = take WALK_PAGE_SIZE (after_cursor key cur t) in
      if page = [] then Go st
      else case walk_page sha256 key st page of
        Stop res \<Rightarrow> Stop res
      | Throw \<Rightarrow> Throw
      | Go st' \<Rightarrow>
          if length page < WALK_PAGE_SIZE then Go st'
          else walk_chain sha256 key (Some (l_sequence (last page))) st' t)"
  by pat_completeness auto
termination
  by (relation "measure (\<lambda>(sha, key, cur, st, t). length (after_cursor key cur t))")
    (auto intro: after_cursor_shrinks)

declare walk_chain.simps [simp del]

definition walk_start :: walk_state where
  "walk_start = \<lparr>w_prevHash = None, w_prevSequence = None, w_checked = 0, w_first = None,
                 w_last = None, w_truncated = False\<rparr>"

definition verifyChain :: "(string \<Rightarrow> string) \<Rightarrow> ident option \<Rightarrow> audit_row table \<Rightarrow> chain_result option" where
  "verifyChain sha256 orgId t =
     (let key = resolveChainKey orgId in
      case walk_chain sha256 key None walk_start t of
        Throw \<Rightarrow> None
      | Stop res \<Rightarrow> Some res
      | Go st \<Rightarrow> Some \<lparr>v_chainKey = key, v_ok = True, v_checked = w_checked st, v_first = w_first st,
                      v_last = w_last st, v_truncated = w_truncated st, v_break = None\<rparr>)"

subsection \<open>The paged walk is one walk\<close>

lemma walk_page_append:
  "walk_page sha key st (xs @ ys) =
     (case walk_page sha key st xs of Go st' \<Rightarrow> walk_page sha key st' ys | Stop res \<Rightarrow> Stop res | Throw \<Rightarrow> Throw)"
  by (induction xs arbitrary: st) (simp_all split: walk_outcome.splits)

definition seqs_unique :: "string \<Rightarrow> audit_row table \<Rightarrow> bool" where
  "seqs_unique key t \<longleftrightarrow> distinct (map l_sequence (filter (\<lambda>r. l_chainKey r = key) t))"

lemma sorted_drop_filter:
  fixes f :: "'a \<Rightarrow> int"
  assumes "sorted (map f xs)" "distinct (map f xs)" "take n xs \<noteq> []"
  shows "filter (\<lambda>r. f (last (take n xs)) < f r) xs = drop n xs"
  using assms
proof (induction xs arbitrary: n)
  case (Cons x ys)
  then obtain m where n: "n = Suc m" by (cases n) auto
  have gt: "f x < f y" if "y \<in> set ys" for y
    using Cons.prems(1,2) that by (force simp: less_le)
  show ?case
  proof (cases "take m ys = []")
    case True
    then have "last (take n (x # ys)) = x" "drop m ys = ys" by (auto simp: n)
    with gt show ?thesis by (simp add: n filter_id_conv)
  next
    case False
    then have l: "last (take n (x # ys)) = last (take m ys)" by (simp add: n)
    have "last (take m ys) \<in> set ys" using False by (meson in_set_takeD last_in_set)
    then have "\<not> f (last (take m ys)) < f x" using gt by force
    moreover have "filter (\<lambda>r. f (last (take m ys)) < f r) ys = drop m ys"
      using Cons.prems False by (intro Cons.IH) auto
    ultimately show ?thesis unfolding l by (simp add: n)
  qed
qed simp

lemma after_cursor_next:
  assumes "seqs_unique key t" "take n (after_cursor key cur t) \<noteq> []"
  shows "after_cursor key (Some (l_sequence (last (take n (after_cursor key cur t))))) t = drop n (after_cursor key cur t)"
proof -
  let ?xs = "after_cursor key cur t"
  let ?m = "l_sequence (last (take n ?xs))"
  have "last (take n ?xs) \<in> set ?xs" using assms(2) by (meson in_set_takeD last_in_set)
  then have m: "cur = None \<or> the cur < ?m" by (auto simp: after_cursor_def)
  have "distinct (map l_sequence (filter (\<lambda>r. cur = None \<or> the cur < l_sequence r) (filter (\<lambda>r. l_chainKey r = key) t)))"
    using assms(1) unfolding seqs_unique_def by (rule distinct_map_filter)
  then have d: "distinct (map l_sequence ?xs)"
    by (simp add: after_cursor_def distinct_map conj_commute)
  have "filter (\<lambda>r. ?m < l_sequence r) ?xs = drop n ?xs"
    by (rule sorted_drop_filter) (use d assms(2) in \<open>simp_all add: after_cursor_def\<close>)
  moreover have "after_cursor key (Some k) t = filter (\<lambda>r. k < l_sequence r) ?xs"
    if "cur = None \<or> the cur < k" for k
    unfolding after_cursor_def filter_sort filter_filter
    by (rule arg_cong [of _ _ "sort_key l_sequence"], rule filter_cong) (use that in auto)
  ultimately show ?thesis using m by simp
qed

lemma walk_chain_whole:
  assumes "seqs_unique key t"
  shows "walk_chain sha key cur st t = walk_page sha key st (after_cursor key cur t)"
  using assms
proof (induction sha key cur st t rule: walk_chain.induct)
  case (1 sha key cur st t)
  let ?xs = "after_cursor key cur t"
  let ?p = "take WALK_PAGE_SIZE ?xs"
  show ?case
  proof (cases "?p = []")
    case True
    then have "?xs = []" by (simp add: WALK_PAGE_SIZE_def)
    then show ?thesis by (subst walk_chain.simps) simp
  next
    case False
    have split: "walk_page sha key st ?xs =
      (case walk_page sha key st ?p of Go st' \<Rightarrow> walk_page sha key st' (drop WALK_PAGE_SIZE ?xs)
       | Stop res \<Rightarrow> Stop res | Throw \<Rightarrow> Throw)"
      using walk_page_append [of sha key st ?p "drop WALK_PAGE_SIZE ?xs"] by simp
    show ?thesis
    proof (cases "walk_page sha key st ?p")
      case (Go st')
      show ?thesis
      proof (cases "length ?p < WALK_PAGE_SIZE")
        case True
        then have "?p = ?xs" "length ?xs < WALK_PAGE_SIZE" by simp_all
        with Go False show ?thesis by (subst walk_chain.simps) (simp add: Let_def)
      next
        case not_last: False
        from "1.IH" [OF refl False Go not_last "1.prems"] after_cursor_next [OF "1.prems" False] Go False not_last split
        show ?thesis by (subst walk_chain.simps) (simp add: Let_def)
      qed
    next
      case (Stop res)
      with False split show ?thesis by (subst walk_chain.simps) (simp add: Let_def)
    next
      case Throw
      with False split show ?thesis by (subst walk_chain.simps) (simp add: Let_def)
    qed
  qed
qed

subsection \<open>What the chained writer keeps\<close>

text \<open>The rows of a chain as the walk expects them: consecutive sequences, linked hashes.\<close>

definition row_hash :: "(string \<Rightarrow> string) \<Rightarrow> string \<Rightarrow> audit_row \<Rightarrow> string option" where
  "row_hash sha key r = computeAuditHash sha (l_prevHash r) (row_input key r) (l_hashVersion r)"

fun linked :: "(string \<Rightarrow> string) \<Rightarrow> string \<Rightarrow> string option \<Rightarrow> int \<Rightarrow> audit_row list \<Rightarrow> bool" where
  "linked sha key prev n [] = True"
| "linked sha key prev n (r # rs) \<longleftrightarrow>
     l_sequence r = n + 1 \<and> l_prevHash r = prev \<and> row_hash sha key r = Some (l_hash r) \<and>
     linked sha key (Some (l_hash r)) (n + 1) rs"

definition end_of :: "string option \<Rightarrow> int \<Rightarrow> audit_row list \<Rightarrow> string option \<times> int" where
  "end_of prev n rs = (if rs = [] then (prev, n) else (Some (l_hash (last rs)), n + int (length rs)))"

lemma linked_append:
  "linked sha key prev n (xs @ ys) \<longleftrightarrow>
     linked sha key prev n xs \<and> linked sha key (fst (end_of prev n xs)) (snd (end_of prev n xs)) ys"
  by (induction xs arbitrary: prev n) (auto simp: end_of_def add.assoc)

lemma linked_seq:
  "linked sha key prev n rs \<Longrightarrow> r \<in> set rs \<Longrightarrow> n < l_sequence r \<and> l_sequence r \<le> n + int (length rs)"
  by (induction rs arbitrary: prev n) fastforce+

lemma walk_page_linked:
  assumes "linked sha key prev n rs" "w_prevHash st = prev" "prev \<noteq> None \<longrightarrow> w_prevSequence st = Some n"
    "prev = None \<longrightarrow> w_prevSequence st = None"
  shows "\<exists>st'. walk_page sha key st rs = Go st' \<and> w_checked st' = w_checked st + length rs"
  using assms
proof (induction rs arbitrary: prev n st)
  case (Cons r rs)
  let ?st = "if w_first st = None then st\<lparr>w_first := Some (l_sequence r), w_truncated := (w_truncated st \<or> 1 < l_sequence r)\<rparr> else st"
  let ?st' = "?st\<lparr>w_prevHash := Some (l_hash r), w_prevSequence := Some (l_sequence r),
                  w_checked := w_checked ?st + 1, w_last := Some (l_sequence r)\<rparr>"
  have "walk_record sha key st r = Go ?st'"
    using Cons.prems by (cases prev) (auto simp: walk_record_def row_hash_def Let_def)
  moreover have "\<exists>st2. walk_page sha key ?st' rs = Go st2 \<and> w_checked st2 = w_checked ?st' + length rs"
    using Cons.prems by (intro Cons.IH [of "Some (l_hash r)" "n + 1"]) auto
  ultimately show ?case by auto
qed simp

text \<open>
  The invariant of a log all of whose rows went through \<open>appendAuditLog\<close>: the rows of every chain,
  in insertion order, are linked from the genesis, and the cursor of the chain is at their end.
\<close>

definition chain_rows :: "string \<Rightarrow> audit_row table \<Rightarrow> audit_row list" where
  "chain_rows key t = filter (\<lambda>r. l_chainKey r = key) t"

definition chained :: "(string \<Rightarrow> string) \<Rightarrow> audit_store \<Rightarrow> bool" where
  "chained sha st \<longleftrightarrow>
     unique_on k_chainKey (chain_cursors st) \<and>
     (\<forall>key. linked sha key None 0 (chain_rows key (audit_log st)) \<and>
        (case find_row (\<lambda>c. k_chainKey c = key) (chain_cursors st) of
           None \<Rightarrow> chain_rows key (audit_log st) = []
         | Some c \<Rightarrow> (k_lastHash c, k_lastSequence c) = end_of None 0 (chain_rows key (audit_log st))))"

lemma linked_sorted: "linked sha key prev n rs \<Longrightarrow> sorted (map l_sequence rs) \<and> distinct (map l_sequence rs)"
proof (induction rs arbitrary: prev n)
  case (Cons r rs)
  then have "linked sha key (Some (l_hash r)) (n + 1) rs" "l_sequence r = n + 1" by simp_all
  with Cons.IH linked_seq [of sha key "Some (l_hash r)" "n + 1" rs] show ?case by fastforce
qed simp

lemma chained_walk:
  assumes "linked sha key None 0 (chain_rows key t)"
  shows "\<exists>st. walk_chain sha key None walk_start t = Go st \<and> w_checked st = length (chain_rows key t)"
proof -
  note s = linked_sorted [OF assms]
  then have u: "seqs_unique key t" by (simp add: seqs_unique_def chain_rows_def)
  have "after_cursor key None t = sort_key l_sequence (chain_rows key t)"
    by (simp add: after_cursor_def chain_rows_def)
  then have a: "after_cursor key None t = chain_rows key t" using s by (simp add: sort_key_id_if_sorted)
  show ?thesis
    unfolding walk_chain_whole [OF u] a
    using walk_page_linked [OF assms, of walk_start] by (simp add: walk_start_def)
qed

abbreviation empty_audit_store :: audit_store where
  "empty_audit_store \<equiv> \<lparr>audit_log = [], chain_cursors = []\<rparr>"

lemma chained_init: "chained sha empty_audit_store"
  by (simp add: chained_def chain_rows_def find_row_def unique_on_def)

lemma chain_rows_insert:
  "chain_rows key (insert_row r t) = (if l_chainKey r = key then chain_rows key t @ [r] else chain_rows key t)"
  by (simp add: chain_rows_def insert_row_def)

lemma chained_key:
  "chained sha st \<Longrightarrow> linked sha key None 0 (chain_rows key (audit_log st)) \<and>
    (case find_row (\<lambda>c. k_chainKey c = key) (chain_cursors st) of
       None \<Rightarrow> chain_rows key (audit_log st) = []
     | Some c \<Rightarrow> (k_lastHash c, k_lastSequence c) = end_of None 0 (chain_rows key (audit_log st)))"
  by (simp add: chained_def)

lemma chained_cursor:
  assumes "chained sha st"
  defines "cs \<equiv> \<lambda>key. if \<exists>c\<in>set (chain_cursors st). k_chainKey c = key then chain_cursors st
      else insert_row \<lparr>k_chainKey = key, k_lastSequence = 0, k_lastHash = None\<rparr> (chain_cursors st)"
  shows "unique_on k_chainKey (cs key)"
    "\<exists>c. find_row (\<lambda>c. k_chainKey c = key) (cs key) = Some c \<and> k_chainKey c = key \<and>
       (k_lastHash c, k_lastSequence c) = end_of None 0 (chain_rows key (audit_log st))"
    "k \<noteq> key \<Longrightarrow> find_row (\<lambda>c. k_chainKey c = k) (cs key) = find_row (\<lambda>c. k_chainKey c = k) (chain_cursors st)"
proof -
  have u: "unique_on k_chainKey (chain_cursors st)" using assms(1) by (simp add: chained_def)
  then show uc: "unique_on k_chainKey (cs key)" by (auto simp: cs_def unique_on_insert_row image_iff)
  show "\<exists>c. find_row (\<lambda>c. k_chainKey c = key) (cs key) = Some c \<and> k_chainKey c = key \<and>
       (k_lastHash c, k_lastSequence c) = end_of None 0 (chain_rows key (audit_log st))"
  proof (cases "find_row (\<lambda>c. k_chainKey c = key) (chain_cursors st)")
    case None
    with chained_key [OF assms(1), of key] have "chain_rows key (audit_log st) = []" by simp
    moreover have "\<not> (\<exists>c\<in>set (chain_cursors st). k_chainKey c = key)" using None by (simp add: find_row_None)
    ultimately show ?thesis using None by (simp add: cs_def find_row_insert_row end_of_def)
  next
    case (Some c)
    with chained_key [OF assms(1), of key]
    have "(k_lastHash c, k_lastSequence c) = end_of None 0 (chain_rows key (audit_log st))" by simp
    with Some show ?thesis by (auto simp: cs_def dest: find_row_Some)
  qed
  show "k \<noteq> key \<Longrightarrow> find_row (\<lambda>c. k_chainKey c = k) (cs key) = find_row (\<lambda>c. k_chainKey c = k) (chain_cursors st)"
    by (auto simp: cs_def find_row_insert_row split: option.splits)
qed

lemma append_chained:
  assumes "chained sha st"
  obtains row st' where "appendAuditLog sha rid d now st = (Inr row, st')" "chained sha st'"
    "audit_log st' = insert_row row (audit_log st)" "l_chainKey row = resolveChainKey (d_organizationId d)"
proof -
  let ?key = "resolveChainKey (d_organizationId d)"
  let ?cs = "if \<exists>c\<in>set (chain_cursors st). k_chainKey c = ?key then chain_cursors st
      else insert_row \<lparr>k_chainKey = ?key, k_lastSequence = 0, k_lastHash = None\<rparr> (chain_cursors st)"
  let ?rows = "chain_rows ?key (audit_log st)"
  note cur = chained_cursor [OF assms, of ?key]
  obtain c where c: "find_row (\<lambda>c. k_chainKey c = ?key) ?cs = Some c" "k_chainKey c = ?key"
    "(k_lastHash c, k_lastSequence c) = end_of None 0 ?rows"
    using cur(2) by blast
  define row0 where "row0 = \<lparr>l_id = rid, l_actorType = d_actorType d, l_actorId = d_actorId d, l_action = d_action d,
      l_resourceType = d_resourceType d, l_resourceId = d_resourceId d, l_metadata = d_metadata d,
      l_createdAt = now, l_organizationId = d_organizationId d, l_chainKey = ?key,
      l_sequence = k_lastSequence c + 1, l_hashVersion = CURRENT_HASH_VERSION,
      l_prevHash = k_lastHash c, l_hash = []\<rparr>"
  define h where "h = the (computeAuditHash sha (k_lastHash c) (row_input ?key row0) CURRENT_HASH_VERSION)"
  define row where "row = row0\<lparr>l_hash := h\<rparr>"
  define st' where "st' = \<lparr>audit_log = insert_row row (audit_log st),
      chain_cursors = upd_rows (\<lambda>c. k_chainKey c = ?key)
        (\<lambda>c. c\<lparr>k_lastSequence := l_sequence row, k_lastHash := Some h\<rparr>) ?cs\<rparr>"
  have lk: "linked sha ?key None 0 ?rows" using chained_key [OF assms] by simp
  have n: "k_lastSequence c = int (length ?rows)" "k_lastHash c = fst (end_of None 0 ?rows)"
    using c(3) by (auto simp: end_of_def split: if_splits)
  have rowf: "l_chainKey row = ?key" "l_sequence row = k_lastSequence c + 1" "l_prevHash row = k_lastHash c"
    "l_hash row = h" "row_hash sha ?key row = Some h"
    by (simp_all add: row_def row0_def row_hash_def h_def row_input_def computeAuditHash_def CURRENT_HASH_VERSION_def)
  have "\<not> seq_taken ?key (l_sequence row) (audit_log st)"
    using linked_seq [OF lk] n rowf by (fastforce simp: seq_taken_def chain_rows_def)
  moreover have "l_chainKey row0 = ?key" "l_sequence row0 = l_sequence row" by (simp_all add: row_def row0_def)
  ultimately have ap: "appendAuditLog sha rid d now st = (Inr row, st')"
    using c(1) rowf(1)
    by (simp add: appendAuditLog_def Let_def row0_def [symmetric] h_def [symmetric] row_def [symmetric]
        insert_audit_def st'_def)
  have "linked sha ?key None 0 (?rows @ [row])"
    using lk rowf n by (simp add: linked_append end_of_def)
  then have "linked sha k None 0 (chain_rows k (audit_log st'))" for k
    using chained_key [OF assms, of k] rowf(1) by (auto simp: st'_def chain_rows_insert)
  moreover have "case find_row (\<lambda>x. k_chainKey x = k) (chain_cursors st') of
       None \<Rightarrow> chain_rows k (audit_log st') = []
     | Some x \<Rightarrow> (k_lastHash x, k_lastSequence x) = end_of None 0 (chain_rows k (audit_log st'))" for k
  proof (cases "k = ?key")
    case True
    then show ?thesis
      using c(1,2) n rowf
      by (simp add: st'_def find_row_upd_rows_keyed chain_rows_insert end_of_def)
  next
    case False
    then have "find_row (\<lambda>x. k_chainKey x = k) (chain_cursors st') = find_row (\<lambda>x. k_chainKey x = k) (chain_cursors st)"
      using chained_cursor(3) [OF assms False]
      by (cases "find_row (\<lambda>x. k_chainKey x = k) (chain_cursors st)")
        (auto simp: st'_def find_row_upd_rows_keyed dest: find_row_Some)
    moreover have "chain_rows k (audit_log st') = chain_rows k (audit_log st)"
      using False rowf(1) by (simp add: st'_def chain_rows_insert)
    ultimately show ?thesis using chained_key [OF assms, of k] by (auto split: option.splits)
  qed
  moreover have "unique_on k_chainKey (chain_cursors st')" using cur(1) by (simp add: st'_def unique_on_upd_rows)
  ultimately have "chained sha st'" by (simp add: chained_def)
  with ap show thesis by (rule that) (simp_all add: st'_def rowf)
qed

text \<open>A run of chained writes.\<close>

fun append_all :: "(string \<Rightarrow> string) \<Rightarrow> (ident \<times> audit_data \<times> time_ms) list \<Rightarrow> audit_store \<Rightarrow> audit_store" where
  "append_all sha [] st = st"
| "append_all sha ((rid, d, now) # es) st = append_all sha es (snd (appendAuditLog sha rid d now st))"

lemma append_all_chained:
  assumes "chained sha st"
  shows "chained sha (append_all sha es st) \<and>
    length (chain_rows key (audit_log (append_all sha es st))) =
    length (chain_rows key (audit_log st)) + length (filter (\<lambda>(_, d, _). resolveChainKey (d_organizationId d) = key) es)"
  using assms
proof (induction es arbitrary: st)
  case (Cons e es)
  obtain rid d now where e: "e = (rid, d, now)" by (cases e)
  from Cons.prems obtain row st' where "appendAuditLog sha rid d now st = (Inr row, st')" "chained sha st'"
    "audit_log st' = insert_row row (audit_log st)" "l_chainKey row = resolveChainKey (d_organizationId d)"
    by (rule append_chained)
  with Cons.IH [of st'] show ?case by (simp add: e chain_rows_insert)
qed simp

text \<open>C8. Every log written through \<open>appendAuditLog\<close> verifies: whatever records were appended to
  whatever chains, \<open>verifyChain\<close> of any organisation reports no break and has checked exactly the
  records of that organisation's chain.\<close>

theorem appended_log_verifies:
  "\<exists>res. verifyChain sha org (audit_log (append_all sha es \<lparr>audit_log = [], chain_cursors = []\<rparr>)) = Some res \<and>
     v_ok res \<and> v_break res = None \<and>
     v_checked res = length (filter (\<lambda>(_, d, _). resolveChainKey (d_organizationId d) = resolveChainKey org) es)"
proof -
  let ?st = "append_all sha es \<lparr>audit_log = [], chain_cursors = []\<rparr>"
  note c = append_all_chained [OF chained_init, of sha es "resolveChainKey org"]
  then have "linked sha (resolveChainKey org) None 0 (chain_rows (resolveChainKey org) (audit_log ?st))"
    using chained_key by blast
  then obtain st where "walk_chain sha (resolveChainKey org) None walk_start (audit_log ?st) = Go st"
    "w_checked st = length (chain_rows (resolveChainKey org) (audit_log ?st))"
    using chained_walk by blast
  with c show ?thesis by (simp add: verifyChain_def chain_rows_def Let_def)
qed

subsection \<open>Tamper evidence\<close>

lemma walk_record_Go:
  assumes "walk_record sha key st r = Go st'"
  shows "row_hash sha key r = Some (l_hash r) \<and> w_prevHash st' = Some (l_hash r) \<and> w_prevSequence st' = Some (l_sequence r) \<and>
    (w_prevHash st \<noteq> None \<longrightarrow> l_prevHash r = w_prevHash st \<and> Some (l_sequence r) = map_option (\<lambda>n. n + 1) (w_prevSequence st))"
  using assms by (auto simp: walk_record_def row_hash_def Let_def split: option.splits if_splits)

lemma walk_page_Go_linked:
  assumes "walk_page sha key st rs = Go st'" "w_prevHash st = Some h" "w_prevSequence st = Some n"
  shows "linked sha key (Some h) n rs"
  using assms
proof (induction rs arbitrary: st h n)
  case (Cons r rs)
  then obtain st1 where s: "walk_record sha key st r = Go st1" "walk_page sha key st1 rs = Go st'"
    by (auto split: walk_outcome.splits)
  with walk_record_Go [OF s(1)] Cons.prems Cons.IH [OF s(2)] show ?case by auto
qed simp

lemma walk_page_Stop_not_ok: "walk_page sha key st rs = Stop res \<Longrightarrow> \<not> v_ok res"
proof (induction rs arbitrary: st)
  case (Cons r rs)
  then show ?case
    by (auto simp: walk_record_def break_at_def Let_def split: walk_outcome.splits option.splits if_splits)
qed simp

lemma verify_ok_Go:
  assumes "verifyChain sha org t = Some res" "v_ok res" "seqs_unique (resolveChainKey org) t"
  shows "\<exists>st. walk_chain sha (resolveChainKey org) None walk_start t = Go st"
  using assms walk_page_Stop_not_ok
  by (auto simp: verifyChain_def Let_def walk_chain_whole split: walk_outcome.splits)

lemma verified_linked:
  assumes "seqs_unique key t" "walk_chain sha key None walk_start t = Go st" "after_cursor key None t = r # rs"
  shows "linked sha key (l_prevHash r) (l_sequence r - 1) (r # rs)"
proof -
  from assms obtain st1 where s: "walk_record sha key walk_start r = Go st1" "walk_page sha key st1 rs = Go st"
    by (auto simp: walk_chain_whole split: walk_outcome.splits)
  with walk_record_Go [OF s(1)] walk_page_Go_linked [OF s(2)] show ?thesis by simp
qed

definition link_input :: "string \<Rightarrow> audit_row \<Rightarrow> string" where
  "link_input key r = nullish (l_prevHash r) GENESIS_SENTINEL @ ''|'' @
     buildCanonicalRecord ((row_input key r)\<lparr>i_hashVersion := 1\<rparr>)"

lemma row_hash_link: "row_hash sha key r = Some h \<Longrightarrow> h = sha (link_input key r)"
  by (auto simp: row_hash_def computeAuditHash_def link_input_def split: if_splits)

lemma linked_same_content:
  assumes "linked sha key None n xs" "linked sha key None n' ys" "length xs = length ys"
    "xs \<noteq> [] \<Longrightarrow> l_hash (last xs) = l_hash (last ys)"
    "inj_on sha (link_input key ` (set xs \<union> set ys))" "\<And>s. CHR ''|'' \<notin> set (sha s)"
  shows "map (\<lambda>r. buildCanonicalRecord ((row_input key r)\<lparr>i_hashVersion := 1\<rparr>)) xs =
         map (\<lambda>r. buildCanonicalRecord ((row_input key r)\<lparr>i_hashVersion := 1\<rparr>)) ys"
  using assms(1-5)
proof (induction xs arbitrary: ys rule: rev_induct)
  case (snoc x xs)
  from snoc.prems(3) obtain ys' y where ys: "ys = ys' @ [y]" by (cases ys rule: rev_cases) auto
  have len: "length xs = length ys'" using snoc.prems(3) ys by simp
  have lx: "linked sha key None n xs" "l_prevHash x = fst (end_of None n xs)" "l_hash x = sha (link_input key x)"
    using snoc.prems(1) by (auto simp: linked_append dest: row_hash_link)
  have ly: "linked sha key None n' ys'" "l_prevHash y = fst (end_of None n' ys')" "l_hash y = sha (link_input key y)"
    using snoc.prems(2) by (auto simp: ys linked_append dest: row_hash_link)
  have hash_free: "CHR ''|'' \<notin> set (nullish (fst (end_of None m zs)) GENESIS_SENTINEL)"
    if "linked sha key None m zs" for m zs
  proof (cases zs rule: rev_cases)
    case (snoc zs' z)
    with that have "l_hash z = sha (link_input key z)" by (auto simp: linked_append dest: row_hash_link)
    with snoc assms(6) show ?thesis by (simp add: end_of_def)
  qed (simp add: end_of_def GENESIS_SENTINEL_def)
  have "sha (link_input key x) = sha (link_input key y)" using snoc.prems(4) ys lx(3) ly(3) by simp
  then have "link_input key x = link_input key y"
    by (rule inj_onD [OF snoc.prems(5)]) (simp_all add: ys)
  then have eq: "nullish (l_prevHash x) GENESIS_SENTINEL = nullish (l_prevHash y) GENESIS_SENTINEL"
    "buildCanonicalRecord ((row_input key x)\<lparr>i_hashVersion := 1\<rparr>) = buildCanonicalRecord ((row_input key y)\<lparr>i_hashVersion := 1\<rparr>)"
    using split_at_sep [OF hash_free [OF lx(1)] hash_free [OF ly(1)]] lx(2) ly(2)
    by (auto simp: link_input_def)
  have "map (\<lambda>r. buildCanonicalRecord ((row_input key r)\<lparr>i_hashVersion := 1\<rparr>)) xs =
        map (\<lambda>r. buildCanonicalRecord ((row_input key r)\<lparr>i_hashVersion := 1\<rparr>)) ys'"
  proof (rule snoc.IH [OF lx(1) ly(1) len])
    show "l_hash (last xs) = l_hash (last ys')" if "xs \<noteq> []"
    proof -
      have "ys' \<noteq> []" using that len by auto
      with that eq(1) lx(2) ly(2) show ?thesis by (simp add: end_of_def)
    qed
    show "inj_on sha (link_input key ` (set xs \<union> set ys'))"
      using snoc.prems(5) ys by (auto intro: inj_on_subset)
  qed
  with eq(2) show ?case by (simp add: ys)
qed simp

text \<open>C7. Tamper evidence: two contents of a chain, both starting at the genesis, both accepted by
  \<open>verifyChain\<close>, of the same length and with the same final hash have the same canonical records
  throughout, provided SHA-256 does not collide on the strings hashed and its rendering has no
  separator.  Altering, inserting, dropping or reordering any verified record is visible at the end.\<close>

theorem chain_tamper_evident:
  assumes "key = resolveChainKey org" "seqs_unique key t" "seqs_unique key t'"
    "verifyChain sha org t = Some res" "v_ok res" "verifyChain sha org t' = Some res'" "v_ok res'"
    "after_cursor key None t = r # rs" "after_cursor key None t' = r' # rs'"
    "l_prevHash r = None" "l_prevHash r' = None" "length rs = length rs'"
    "l_hash (last (r # rs)) = l_hash (last (r' # rs'))"
    "inj_on sha (link_input key ` (set (r # rs) \<union> set (r' # rs')))" "\<And>s. CHR ''|'' \<notin> set (sha s)"
  shows "map (\<lambda>r. buildCanonicalRecord ((row_input key r)\<lparr>i_hashVersion := 1\<rparr>)) (after_cursor key None t) =
         map (\<lambda>r. buildCanonicalRecord ((row_input key r)\<lparr>i_hashVersion := 1\<rparr>)) (after_cursor key None t')"
proof -
  obtain st st' where "walk_chain sha key None walk_start t = Go st" "walk_chain sha key None walk_start t' = Go st'"
    using verify_ok_Go assms(1-7) by metis
  then have "linked sha key None (l_sequence r - 1) (r # rs)" "linked sha key None (l_sequence r' - 1) (r' # rs')"
    using verified_linked [OF assms(2) _ assms(8)] verified_linked [OF assms(3) _ assms(9)] assms(10,11) by auto
  from linked_same_content [OF this] assms(8,9,12-15) show ?thesis by simp
qed

definition sample_audit_row :: audit_row where
  "sample_audit_row = \<lparr>l_id = ''a1'', l_actorType = ''user'', l_actorId = None, l_action = ''x'', l_resourceType = ''y'',
     l_resourceId = None, l_metadata = None, l_createdAt = 0, l_organizationId = None, l_chainKey = ''SYSTEM'',
     l_sequence = 1, l_hashVersion = 1, l_prevHash = None, l_hash = ''h''\<rparr>"

lemma sample_audit_verified:
  "filter (\<lambda>r. l_chainKey r = ''SYSTEM'') t = [sample_audit_row] \<Longrightarrow>
   seqs_unique ''SYSTEM'' t \<and> after_cursor ''SYSTEM'' None t = [sample_audit_row] \<and>
   (\<exists>res. verifyChain (\<lambda>_. ''h'') None t = Some res \<and> v_ok res)"
proof (intro conjI)
  assume f: "filter (\<lambda>r. l_chainKey r = ''SYSTEM'') t = [sample_audit_row]"
  show u: "seqs_unique ''SYSTEM'' t" using f by (simp add: seqs_unique_def)
  show a: "after_cursor ''SYSTEM'' None t = [sample_audit_row]" using f by (simp add: after_cursor_def)
  show "\<exists>res. verifyChain (\<lambda>_. ''h'') None t = Some res \<and> v_ok res"
    by (simp add: verifyChain_def resolveChainKey_def SYSTEM_CHAIN_KEY_def walk_chain_whole [OF u] a walk_record_def
        computeAuditHash_def sample_audit_row_def walk_start_def)
qed

theorem chain_tamper_evident_witness:
  "let t = [sample_audit_row]; t' = [sample_audit_row\<lparr>l_chainKey := ''org''\<rparr>, sample_audit_row] in
   map (\<lambda>r. buildCanonicalRecord ((row_input ''SYSTEM'' r)\<lparr>i_hashVersion := 1\<rparr>)) (after_cursor ''SYSTEM'' None t) =
   map (\<lambda>r. buildCanonicalRecord ((row_input ''SYSTEM'' r)\<lparr>i_hashVersion := 1\<rparr>)) (after_cursor ''SYSTEM'' None t')"
proof -
  let ?t = "[sample_audit_row]" and ?t' = "[sample_audit_row\<lparr>l_chainKey := ''org''\<rparr>, sample_audit_row]"
  have "filter (\<lambda>r. l_chainKey r = ''SYSTEM'') ?t = [sample_audit_row]"
    "filter (\<lambda>r. l_chainKey r = ''SYSTEM'') ?t' = [sample_audit_row]"
    by (simp_all add: sample_audit_row_def)
  note v = this [THEN sample_audit_verified]
  obtain res res' where ok: "verifyChain (\<lambda>_. ''h'') None ?t = Some res" "v_ok res"
    "verifyChain (\<lambda>_. ''h'') None ?t' = Some res'" "v_ok res'"
    using v by blast
  have key: "''SYSTEM'' = resolveChainKey None" by (simp add: resolveChainKey_def SYSTEM_CHAIN_KEY_def)
  show ?thesis
    unfolding Let_def
    by (rule chain_tamper_evident [OF key v(1) [THEN conjunct1] v(2) [THEN conjunct1] ok
          v(1) [THEN conjunct2, THEN conjunct1] v(2) [THEN conjunct2, THEN conjunct1]])
      (simp_all add: sample_audit_row_def)
qed

subsection \<open>The unchained insert\<close>

lemma tx_audit_create_Inr:
  assumes "tx_audit_create rid d now t = Inr t'"
  obtains r where "t' = insert_row r t" "l_chainKey r = SYSTEM_CHAIN_KEY" "l_sequence r = 0" "l_hash r = []"
    "l_hashVersion r = 1" "l_id r = rid" "\<not> seq_taken SYSTEM_CHAIN_KEY 0 t"
  using assms by (auto simp: tx_audit_create_def insert_audit_def split: if_splits)

lemma tx_audit_create_taken: "seq_taken SYSTEM_CHAIN_KEY 0 t \<Longrightarrow> tx_audit_create rid d now t = Inl UniqueViolation"
  by (simp add: tx_audit_create_def insert_audit_def)

lemma tx_audit_create_takes: "tx_audit_create rid d now t = Inr t' \<Longrightarrow> seq_taken SYSTEM_CHAIN_KEY 0 t'"
  by (auto elim!: tx_audit_create_Inr simp: seq_taken_def)

lemma seq_taken_insert: "seq_taken key n t \<Longrightarrow> seq_taken key n (insert_row r t)"
  by (auto simp: seq_taken_def)

text \<open>C36. One \<open>tx.auditLog.create\<close> inside a transaction spoils the system chain: its row carries the
  column defaults, so a chain that verified is reported from then on as a hash mismatch at sequence
  0, and every further such insert violates the unique \<open>(chainKey, sequence)\<close> index.\<close>

theorem tx_create_spoils_system_chain:
  assumes "tx_audit_create rid d now t = Inr t'" "seqs_unique SYSTEM_CHAIN_KEY t"
    "\<forall>r\<in>set t. l_chainKey r = SYSTEM_CHAIN_KEY \<longrightarrow> 0 < l_sequence r" "\<And>s. sha s \<noteq> []"
  shows "(\<exists>res. verifyChain sha None t' = Some res \<and> \<not> v_ok res \<and> v_break res = Some (rid, 0, HASH_MISMATCH)) \<and>
         tx_audit_create rid2 d2 now2 t' = Inl UniqueViolation"
proof -
  from assms(1) obtain r where r: "t' = insert_row r t" "l_chainKey r = SYSTEM_CHAIN_KEY" "l_sequence r = 0"
    "l_hash r = []" "l_hashVersion r = 1" "l_id r = rid" "\<not> seq_taken SYSTEM_CHAIN_KEY 0 t"
    by (rule tx_audit_create_Inr)
  have key: "resolveChainKey None = SYSTEM_CHAIN_KEY" by (simp add: resolveChainKey_def)
  have u: "seqs_unique SYSTEM_CHAIN_KEY t'"
    using assms(2) r by (auto simp: seqs_unique_def insert_row_def seq_taken_def image_iff)
  have "after_cursor SYSTEM_CHAIN_KEY None t' =
      sort_key l_sequence (r # filter (\<lambda>r. l_chainKey r = SYSTEM_CHAIN_KEY) t)"
    unfolding after_cursor_def
    by (rule sort_key_unique_keys) (use r u in \<open>auto simp: insert_row_def seqs_unique_def\<close>)
  also have "\<dots> = r # sort_key l_sequence (filter (\<lambda>r. l_chainKey r = SYSTEM_CHAIN_KEY) t)"
    using assms(3) r(3) by (subst sort_key_simps) (auto intro!: insort_is_Cons)
  finally have a: "after_cursor SYSTEM_CHAIN_KEY None t' =
      r # sort_key l_sequence (filter (\<lambda>r. l_chainKey r = SYSTEM_CHAIN_KEY) t)" .
  have "walk_record sha SYSTEM_CHAIN_KEY walk_start r = Stop (break_at SYSTEM_CHAIN_KEY
      (walk_start\<lparr>w_first := Some 0, w_truncated := False\<rparr>) r HASH_MISMATCH)"
    using r(3-5) assms(4) by (simp add: walk_record_def walk_start_def computeAuditHash_def)
  then have "verifyChain sha None t' = Some (break_at SYSTEM_CHAIN_KEY
      (walk_start\<lparr>w_first := Some 0, w_truncated := False\<rparr>) r HASH_MISMATCH)"
    by (simp add: verifyChain_def key walk_chain_whole [OF u] a)
  with r(3,6) have "\<exists>res. verifyChain sha None t' = Some res \<and> \<not> v_ok res \<and> v_break res = Some (rid, 0, HASH_MISMATCH)"
    by (simp add: break_at_def)
  with tx_audit_create_taken [OF tx_audit_create_takes [OF assms(1)]] show ?thesis by blast
qed

definition sample_audit_data :: audit_data where
  "sample_audit_data = \<lparr>d_actorType = ''user'', d_actorId = Some ''adm'', d_action = ''user.status_changed'',
     d_resourceType = ''user'', d_resourceId = Some ''u1'', d_metadata = None, d_organizationId = None\<rparr>"

theorem tx_create_spoils_system_chain_witness:
  "\<exists>t'. tx_audit_create ''a1'' sample_audit_data 5 [] = Inr t' \<and>
     (\<exists>res. verifyChain (\<lambda>s. ''h'' @ s) None t' = Some res \<and> \<not> v_ok res) \<and>
     tx_audit_create ''a2'' sample_audit_data 6 t' = Inl UniqueViolation"
proof -
  obtain t' where t: "tx_audit_create ''a1'' sample_audit_data 5 [] = Inr t'"
    by (simp add: tx_audit_create_def insert_audit_def seq_taken_def)
  have "(\<exists>res. verifyChain (\<lambda>s. ''h'' @ s) None t' = Some res \<and> \<not> v_ok res \<and> v_break res = Some (''a1'', 0, HASH_MISMATCH)) \<and>
      tx_audit_create ''a2'' sample_audit_data 6 t' = Inl UniqueViolation"
    by (rule tx_create_spoils_system_chain [OF t]) (simp_all add: seqs_unique_def)
  with t show ?thesis by blast
qed

end
