(* ===== verification/Accounts.thy ===== *)
theory Accounts
  imports AuditChain
begin

text \<open>
  The account store shared by sign-in, sessions, wallet rotation and user administration,
  the account-status policy (\<open>auth/account-status.policy.ts\<close>) and the administrative
  operations of \<open>users/users.service.ts\<close>.

  \<open>auth_db\<close> holds the tables those services touch.  An operation takes the store and
  returns its result together with the store; an operation that throws inside
  \<open>$transaction\<close> returns the store it started from.
\<close>

datatype user_role = WORKER | ISSUER | ADMIN | DEVELOPER

record user_row =
  u_id :: ident
  u_walletAddress :: string
  u_walletHash :: string
  u_role :: user_role
  u_status :: resource_status
  u_displayName :: "string option"
  u_lastLoginAt :: "time_ms option"

record session_row =
  s_id :: ident
  s_tokenHash :: string
  s_userId :: ident
  s_walletHash :: "string option"
  s_deviceLabel :: "string option"
  s_firstSeenAt :: time_ms
  s_lastSeenAt :: time_ms
  s_createdAt :: time_ms
  s_expiresAt :: time_ms
  s_lastUsedAt :: "time_ms option"
  s_revokedAt :: "time_ms option"
  s_revocationReason :: "string option"
  s_rotatedToId :: "ident option"

record challenge_row =
  c_id :: ident
  c_walletAddress :: string
  c_nonceHash :: string
  c_message :: string
  c_expiresAt :: time_ms
  c_usedAt :: "time_ms option"
  c_networkPassphrase :: "string option"
  c_origin :: "string option"

datatype rotation_status = ROT_PENDING | ROT_COMPLETED | ROT_FAILED | ROT_CANCELLED

datatype rotation_failure =
    NETWORK_MISMATCH | ORIGIN_MISMATCH | IDENTITY_CHANGED | CURRENT_SIGNATURE_INVALID
  | REPLACEMENT_SIGNATURE_INVALID | REPLACEMENT_UNAVAILABLE | SUPERSEDED

record rotation_row =
  r_id :: ident
  r_userId :: ident
  r_currentWalletAddress :: string
  r_newWalletAddress :: string
  r_nonceHash :: string
  r_currentMessage :: string
  r_newMessage :: string
  r_networkPassphrase :: string
  r_origin :: string
  r_status :: rotation_status
  r_failureReason :: "rotation_failure option"
  r_expiresAt :: time_ms
  r_consumedAt :: "time_ms option"
  r_completedAt :: "time_ms option"

datatype auth_event_type =
    CHALLENGE_CREATED | CHALLENGE_VERIFIED | CHALLENGE_REPLAYED | CHALLENGE_EXPIRED
  | SIGNATURE_INVALID | ACCOUNT_INACTIVE | RATE_LIMITED

record auth_event =
  e_eventType :: auth_event_type
  e_walletHash :: string
  e_clientMetadataHash :: "string option"
  e_challengeId :: "ident option"
  e_success :: bool
  e_failureReason :: "string option"
  e_createdAt :: time_ms

record org_owner =
  o_createdById :: ident
  o_status :: resource_status

record auth_db =
  users :: "user_row table"
  sessions :: "session_row table"
  challenges :: "challenge_row table"
  rotations :: "rotation_row table"
  auth_events :: "auth_event table"
  owned_orgs :: "org_owner table"
  audit_logs :: "audit_row table"

text \<open>\<open>AuthenticatedUser\<close>: what a request knows of its caller.\<close>

record authenticated_user =
  a_id :: ident
  a_walletAddress :: string
  a_walletHash :: string
  a_role :: user_role

subsection \<open>Account-status policy\<close>

definition NON_AUTHENTICATING_STATUSES :: "resource_status list" where
  "NON_AUTHENTICATING_STATUSES = [RS_SUSPENDED, RS_REVOKED, RS_DELETED]"

definition canAuthenticate :: "resource_status \<Rightarrow> bool" where
  "canAuthenticate st \<longleftrightarrow> st \<notin> set NON_AUTHENTICATING_STATUSES"

fun ACCOUNT_STATUS_TRANSITIONS :: "resource_status \<Rightarrow> resource_status list" where
  "ACCOUNT_STATUS_TRANSITIONS RS_PENDING = [RS_ACTIVE, RS_SUSPENDED, RS_REVOKED]"
| "ACCOUNT_STATUS_TRANSITIONS RS_ACTIVE = [RS_SUSPENDED, RS_REVOKED]"
| "ACCOUNT_STATUS_TRANSITIONS RS_SUSPENDED = [RS_ACTIVE, RS_REVOKED]"
| "ACCOUNT_STATUS_TRANSITIONS RS_REVOKED = []"
| "ACCOUNT_STATUS_TRANSITIONS RS_DELETED = []"
| "ACCOUNT_STATUS_TRANSITIONS RS_EXPIRED = []"

definition isAllowedStatusTransition :: "resource_status \<Rightarrow> resource_status \<Rightarrow> bool" where
  "isAllowedStatusTransition a b \<longleftrightarrow> b \<in> set (ACCOUNT_STATUS_TRANSITIONS a)"

definition transitionRevokesSessions :: "resource_status \<Rightarrow> resource_status \<Rightarrow> bool" where
  "transitionRevokesSessions a b \<longleftrightarrow> \<not> canAuthenticate b \<or> \<not> canAuthenticate a"

definition ORGANIZATION_OWNER_ROLES :: "user_role list" where
  "ORGANIZATION_OWNER_ROLES = [ADMIN, ISSUER, DEVELOPER]"

definition LIVE_ORGANIZATION_STATUSES :: "resource_status list" where
  "LIVE_ORGANIZATION_STATUSES = [RS_ACTIVE, RS_PENDING, RS_SUSPENDED]"

subsection \<open>User administration\<close>

definition revoke_live_sessions :: "ident \<Rightarrow> time_ms \<Rightarrow> session_row table \<Rightarrow> session_row table \<times> nat" where
  "revoke_live_sessions uid now t =
     update_many (\<lambda>s. s_userId s = uid \<and> s_revokedAt s = None) (\<lambda>s. s\<lparr>s_revokedAt := Some now\<rparr>) t"

fun updateProfile ::
  "ident \<Rightarrow> string option option \<Rightarrow> auth_db \<Rightarrow> (http_error, user_row) result \<times> auth_db" where
  "updateProfile uid None db =
     (case find_row (\<lambda>u. u_id u = uid) (users db) of
        None \<Rightarrow> (Inl (NotFound ''User not found''), db) | Some u \<Rightarrow> (Inr u, db))"
| "updateProfile uid (Some name) db =
     (case find_row (\<lambda>u. u_id u = uid) (users db) of
        None \<Rightarrow> (Inl (NotFound ''User not found''), db)
      | Some u \<Rightarrow>
          (Inr (u\<lparr>u_displayName := name\<rparr>),
           db\<lparr>users := upd_rows (\<lambda>u. u_id u = uid) (\<lambda>u. u\<lparr>u_displayName := name\<rparr>) (users db)\<rparr>))"

fun status_name :: "resource_status \<Rightarrow> string" where
  "status_name RS_ACTIVE = ''ACTIVE''"
| "status_name RS_PENDING = ''PENDING''"
| "status_name RS_SUSPENDED = ''SUSPENDED''"
| "status_name RS_REVOKED = ''REVOKED''"
| "status_name RS_DELETED = ''DELETED''"
| "status_name RS_EXPIRED = ''EXPIRED''"

fun role_name :: "user_role \<Rightarrow> string" where
  "role_name WORKER = ''WORKER''"
| "role_name ISSUER = ''ISSUER''"
| "role_name ADMIN = ''ADMIN''"
| "role_name DEVELOPER = ''DEVELOPER''"

definition USER_STATUS_CHANGED_ACTION :: string where
  "USER_STATUS_CHANGED_ACTION = ''user.status_changed''"

definition USER_ROLE_CHANGED_ACTION :: string where
  "USER_ROLE_CHANGED_ACTION = ''user.role_changed''"

definition user_audit :: "ident \<Rightarrow> string \<Rightarrow> ident \<Rightarrow> (string \<times> json) list \<Rightarrow> audit_data" where
  "user_audit actor action uid meta =
     \<lparr>d_actorType = ''user'', d_actorId = Some actor, d_action = action, d_resourceType = ''user'',
      d_resourceId = Some uid, d_metadata = Some (JObj meta), d_organizationId = None\<rparr>"

text \<open>
  \<open>changeStatus\<close>: the response carries the user as re-read, the previous status and the count.
  The audit record is written by \<open>tx.auditLog.create\<close>, so the whole transaction rolls back when
  that insert fails.  \<open>aid\<close> is the id the database gives the audit row.
\<close>

definition changeStatus ::
  "authenticated_user \<Rightarrow> ident \<Rightarrow> resource_status \<Rightarrow> string option \<Rightarrow> ident \<Rightarrow> time_ms \<Rightarrow> auth_db
   \<Rightarrow> (http_error, user_row \<times> resource_status \<times> nat) result \<times> auth_db" where
  "changeStatus actor uid new reason aid now db =
     (if a_id actor = uid
      then (Inl (Forbidden ''Administrators cannot change their own account status''), db)
      else case find_row (\<lambda>u. u_id u = uid) (users db) of
        None \<Rightarrow> (Inl (NotFound ''User not found''), db)
      | Some current \<Rightarrow>
          let prev = u_status current in
          if \<not> isAllowedStatusTransition prev new
          then (Inl (Conflict (''Account status cannot change from '' @ status_name prev @ '' to '' @ status_name new)), db)
          else
            let (us, n) = update_many (\<lambda>u. u_id u = uid \<and> u_status u = prev) (\<lambda>u. u\<lparr>u_status := new\<rparr>) (users db) in
            if n \<noteq> 1
            then (Inl (Conflict ''Account status changed concurrently; reload and retry''), db)
            else
              let sr = (if transitionRevokesSessions prev new
                        then revoke_live_sessions uid now (sessions db) else (sessions db, 0));
                  meta = [(''previousStatus'', JStr (status_name prev)), (''newStatus'', JStr (status_name new)),
                          (''reason'', json_opt reason), (''sessionsRevoked'', JInt (int (snd sr)))]
              in case tx_audit_create aid (user_audit (a_id actor) USER_STATUS_CHANGED_ACTION uid meta) now (audit_logs db) of
                   Inl e \<Rightarrow> (Inl e, db)
                 | Inr logs \<Rightarrow>
                     (case find_row (\<lambda>u. u_id u = uid) us of
                        None \<Rightarrow> (Inl (NotFound ''User not found''), db)
                      | Some user \<Rightarrow>
                          (Inr (user, prev, snd sr), db\<lparr>users := us, sessions := fst sr, audit_logs := logs\<rparr>)))"

definition changeRole ::
  "authenticated_user \<Rightarrow> ident \<Rightarrow> user_role \<Rightarrow> ident \<Rightarrow> time_ms \<Rightarrow> auth_db
   \<Rightarrow> (http_error, user_row \<times> user_role) result \<times> auth_db" where
  "changeRole actor uid new aid now db =
     (if a_id actor = uid
      then (Inl (Forbidden ''Administrators cannot change their own role''), db)
      else case find_row (\<lambda>u. u_id u = uid) (users db) of
        None \<Rightarrow> (Inl (NotFound ''User not found''), db)
      | Some current \<Rightarrow>
          if u_status current \<noteq> RS_ACTIVE
          then (Inl (Conflict ''Role changes require an active account''), db)
          else let prev = u_role current in
          if prev = new
          then (Inl (Conflict (''User already holds the '' @ role_name new @ '' role'')), db)
          else
            let owned = count_rows (\<lambda>g. o_createdById g = uid \<and> o_status g \<in> set LIVE_ORGANIZATION_STATUSES) (owned_orgs db) in
            if new \<notin> set ORGANIZATION_OWNER_ROLES \<and> 0 < owned
            then (Inl (Conflict (''User owns '' @ show_nat owned @ '' live organization(s); retire ownership before assigning the ''
                        @ role_name new @ '' role'')), db)
            else
              let (us, n) = update_many (\<lambda>u. u_id u = uid \<and> u_role u = prev \<and> u_status u = RS_ACTIVE)
                              (\<lambda>u. u\<lparr>u_role := new\<rparr>) (users db);
                  meta = [(''previousRole'', JStr (role_name prev)), (''newRole'', JStr (role_name new))] in
              if n \<noteq> 1
              then (Inl (Conflict ''Account changed concurrently; reload and retry''), db)
              else case tx_audit_create aid (user_audit (a_id actor) USER_ROLE_CHANGED_ACTION uid meta) now (audit_logs db) of
                     Inl e \<Rightarrow> (Inl e, db)
                   | Inr logs \<Rightarrow>
                       (case find_row (\<lambda>u. u_id u = uid) us of
                          None \<Rightarrow> (Inl (NotFound ''User not found''), db)
                        | Some user \<Rightarrow> (Inr (user, prev), db\<lparr>users := us, audit_logs := logs\<rparr>)))"

subsection \<open>A sample store\<close>

definition sample_admin :: authenticated_user where
  "sample_admin = \<lparr>a_id = ''adm'', a_walletAddress = ''G0'', a_walletHash = ''h0'', a_role = ADMIN\<rparr>"

definition sample_db :: auth_db where
  "sample_db =
     \<lparr>users = [\<lparr>u_id = ''u1'', u_walletAddress = ''G1'', u_walletHash = ''h1'', u_role = DEVELOPER,
                 u_status = RS_ACTIVE, u_displayName = None, u_lastLoginAt = None\<rparr>],
      sessions = [\<lparr>s_id = ''s1'', s_tokenHash = ''t1'', s_userId = ''u1'', s_walletHash = Some ''h1'',
                    s_deviceLabel = None, s_firstSeenAt = 0, s_lastSeenAt = 0, s_createdAt = 0,
                    s_expiresAt = 1000, s_lastUsedAt = None, s_revokedAt = None,
                    s_revocationReason = None, s_rotatedToId = None\<rparr>],
      challenges = [], rotations = [], auth_events = [],
      owned_orgs = [\<lparr>o_createdById = ''u1'', o_status = RS_ACTIVE\<rparr>], audit_logs = []\<rparr>"

subsection \<open>Facts\<close>

interpretation acct: status_machine isAllowedStatusTransition "\<lambda>s. s \<in> {RS_REVOKED, RS_DELETED, RS_EXPIRED}"
proof unfold_locales
  show "s \<in> {RS_REVOKED, RS_DELETED, RS_EXPIRED} \<Longrightarrow> \<not> isAllowedStatusTransition s t" for s t
    by (auto simp: isAllowedStatusTransition_def)
  show "\<not> isAllowedStatusTransition s s" for s
    by (cases s) (auto simp: isAllowedStatusTransition_def)
qed

lemma canAuthenticate_simps [simp]:
  "canAuthenticate RS_ACTIVE" "canAuthenticate RS_PENDING" "canAuthenticate RS_EXPIRED"
  "\<not> canAuthenticate RS_SUSPENDED" "\<not> canAuthenticate RS_REVOKED" "\<not> canAuthenticate RS_DELETED"
  by (simp_all add: canAuthenticate_def NON_AUTHENTICATING_STATUSES_def)

lemma allowed_reaches_revoking:
  "isAllowedStatusTransition a b \<Longrightarrow> transitionRevokesSessions a b \<or> (a = RS_PENDING \<and> b = RS_ACTIVE)"
  by (cases a; cases b) (auto simp: isAllowedStatusTransition_def transitionRevokesSessions_def)

lemma revoke_live_sessions_revoked:
  assumes "s \<in> set (fst (revoke_live_sessions uid now t))" "s_userId s = uid"
  shows "s_revokedAt s \<noteq> None"
  using assms unfolding revoke_live_sessions_def update_many_def fst_conv
  by (elim upd_rowsE) auto

lemma changeStatus_Inr:
  assumes "changeStatus actor uid new reason aid now db = (Inr (user, prev, revoked), db')"
  shows "a_id actor \<noteq> uid \<and> isAllowedStatusTransition prev new \<and>
    map_option u_status (find_row (\<lambda>u. u_id u = uid) (users db)) = Some prev \<and>
    count_rows (\<lambda>u. u_id u = uid \<and> u_status u = prev) (users db) = 1 \<and>
    (\<exists>d logs. tx_audit_create aid d now (audit_logs db) = Inr logs \<and>
    db' = db\<lparr>users := upd_rows (\<lambda>u. u_id u = uid \<and> u_status u = prev) (\<lambda>u. u\<lparr>u_status := new\<rparr>) (users db),
             sessions := (if transitionRevokesSessions prev new
                          then fst (revoke_live_sessions uid now (sessions db)) else sessions db),
             audit_logs := logs\<rparr>)"
proof (cases "find_row (\<lambda>u. u_id u = uid) (users db)")
  case None
  with assms show ?thesis by (simp add: changeStatus_def split: if_splits)
next
  case (Some cur)
  with assms show ?thesis
    by (auto simp: changeStatus_def update_many_def Let_def split: if_splits option.splits sum.splits)
qed

lemma changeStatus_Inl: "changeStatus actor uid new reason aid now db = (Inl e, db') \<Longrightarrow> db' = db"
  by (auto simp: changeStatus_def update_many_def Let_def split: if_splits option.splits sum.splits)

lemma changeRole_Inr:
  assumes "changeRole actor uid new aid now db = (Inr (user, prev), db')"
  shows "a_id actor \<noteq> uid \<and> prev \<noteq> new \<and>
    (new \<in> set ORGANIZATION_OWNER_ROLES \<or>
     count_rows (\<lambda>g. o_createdById g = uid \<and> o_status g \<in> set LIVE_ORGANIZATION_STATUSES) (owned_orgs db) = 0) \<and>
    (\<exists>d logs. tx_audit_create aid d now (audit_logs db) = Inr logs \<and>
    db' = db\<lparr>users := upd_rows (\<lambda>u. u_id u = uid \<and> u_role u = prev \<and> u_status u = RS_ACTIVE)
                       (\<lambda>u. u\<lparr>u_role := new\<rparr>) (users db), audit_logs := logs\<rparr>)"
proof (cases "find_row (\<lambda>u. u_id u = uid) (users db)")
  case None
  with assms show ?thesis by (simp add: changeRole_def split: if_splits)
next
  case (Some cur)
  with assms show ?thesis
    by (auto simp: changeRole_def update_many_def Let_def split: if_splits option.splits sum.splits)
qed

lemma changeRole_Inl: "changeRole actor uid new aid now db = (Inl e, db') \<Longrightarrow> db' = db"
  by (auto simp: changeRole_def update_many_def Let_def split: if_splits option.splits sum.splits)

text \<open>No account whose role may not own an organisation owns a live one.\<close>

definition owners_may_own :: "auth_db \<Rightarrow> bool" where
  "owners_may_own db \<longleftrightarrow>
     (\<forall>u\<in>set (users db). \<forall>g\<in>set (owned_orgs db).
        o_createdById g = u_id u \<and> o_status g \<in> set LIVE_ORGANIZATION_STATUSES
        \<longrightarrow> u_role u \<in> set ORGANIZATION_OWNER_ROLES)"

text \<open>L. A role change never leaves a live organisation owned by an account whose role may
  not own one: \<open>owners_may_own\<close> is preserved by \<open>changeRole\<close>, whatever it returns.\<close>

theorem changeRole_keeps_owners:
  assumes "owners_may_own db"
  shows "owners_may_own (snd (changeRole actor uid new aid now db))"
proof (cases "changeRole actor uid new aid now db")
  case (Pair r db')
  show ?thesis
  proof (cases r)
    case (Inl e)
    with Pair assms show ?thesis by (auto dest: changeRole_Inl)
  next
    case (Inr p)
    obtain user prev where p: "p = (user, prev)" by (cases p)
    note c = changeRole_Inr [OF Pair [unfolded Inr p]]
    then have db': "users db' = upd_rows (\<lambda>u. u_id u = uid \<and> u_role u = prev \<and> u_status u = RS_ACTIVE)
        (\<lambda>u. u\<lparr>u_role := new\<rparr>) (users db)" "owned_orgs db' = owned_orgs db"
      by auto
    show ?thesis
      unfolding Pair owners_may_own_def snd_conv db'
    proof (intro ballI impI)
      fix u g
      assume u: "u \<in> set (upd_rows (\<lambda>u. u_id u = uid \<and> u_role u = prev \<and> u_status u = RS_ACTIVE)
          (\<lambda>u. u\<lparr>u_role := new\<rparr>) (users db))"
        and g: "g \<in> set (owned_orgs db)"
          "o_createdById g = u_id u \<and> o_status g \<in> set LIVE_ORGANIZATION_STATUSES"
      from u show "u_role u \<in> set ORGANIZATION_OWNER_ROLES"
      proof (rule upd_rowsE)
        fix x assume "x \<in> set (users db)" "u = x\<lparr>u_role := new\<rparr>"
          "u_id x = uid \<and> u_role x = prev \<and> u_status x = RS_ACTIVE"
        with c g show ?thesis by (auto simp: count_rows_zero)
      next
        assume "u \<in> set (users db)"
        with assms g show ?thesis by (auto simp: owners_may_own_def)
      qed
    qed
  qed
qed

theorem changeRole_keeps_owners_witness:
  "owners_may_own (snd (changeRole sample_admin ''u1'' WORKER ''a1'' 0 sample_db)) \<and>
   owners_may_own (snd (changeRole sample_admin ''u1'' ISSUER ''a1'' 0 sample_db))"
proof -
  have "owners_may_own sample_db"
    by (simp add: owners_may_own_def sample_db_def ORGANIZATION_OWNER_ROLES_def)
  then show ?thesis by (intro conjI changeRole_keeps_owners)
qed

end
