(* ===== verification/Sessions.thy ===== *)
theory Sessions
  imports Accounts
begin

text \<open>
  Bearer sessions: \<open>auth/session.service.ts\<close>, the coarse device labels of
  \<open>auth/session-device-metadata.ts\<close> and the request guard \<open>common/guards/auth.guard.ts\<close>.

  \<open>sha256\<close> is an argument of the operations that hash.  \<open>generateToken\<close> takes the two
  random strings it draws.  \<open>dead_token\<close> is the safety notion of the component: every
  session row with a given token hash is revoked; a dead token is refused, and stays dead
  under every operation that does not create a session with that very hash.
\<close>

subsection \<open>Device labels\<close>

definition SESSION_DEVICE_LABEL_MAX_LENGTH :: nat where
  "SESSION_DEVICE_LABEL_MAX_LENGTH = 80"

record device_headers =
  h_user_agent :: "string option"
  h_platform :: "string option"
  h_mobile :: "string option"

fun replace_all :: "char \<Rightarrow> string \<Rightarrow> string \<Rightarrow> string" where
  "replace_all c r [] = []"
| "replace_all c r (x # xs) = (if x = c then r @ replace_all c r xs else x # replace_all c r xs)"

definition escapeLabel :: "string \<Rightarrow> string" where
  "escapeLabel v =
     take SESSION_DEVICE_LABEL_MAX_LENGTH
       (replace_all CHR 0x27 ''&#39;''
         (replace_all CHR 0x22 ''&quot;''
           (replace_all CHR ''>'' ''&gt;''
             (replace_all CHR ''<'' ''&lt;''
               (replace_all CHR ''&'' ''&amp;'' (trim v))))))"

definition boundedHeader :: "string option \<Rightarrow> string" where
  "boundedHeader v = (case v of Some s \<Rightarrow> if length s \<le> 512 then s else [] | None \<Rightarrow> [])"

fun contains :: "string \<Rightarrow> string \<Rightarrow> bool" where
  "contains p [] = (p = [])"
| "contains p (x # xs) = (take (length p) (x # xs) = p \<or> contains p xs)"

definition contains_ci :: "string \<Rightarrow> string \<Rightarrow> bool" where
  "contains_ci p s = contains p (toLowerCase s)"

definition identifyBrowser :: "string \<Rightarrow> string" where
  "identifyBrowser ua =
     (if contains_ci ''edg/'' ua then ''Edge''
      else if contains_ci ''firefox/'' ua then ''Firefox''
      else if contains_ci ''chrome/'' ua \<or> contains_ci ''crios/'' ua then ''Chrome''
      else if contains_ci ''safari/'' ua \<and> \<not> (contains_ci ''chrome'' ua \<or> contains_ci ''crios'' ua) then ''Safari''
      else if contains_ci ''electron/'' ua then ''Electron''
      else ''Browser'')"

definition identifyPlatform :: "string \<Rightarrow> string \<Rightarrow> string" where
  "identifyPlatform ph ua =
     (let v = ph @ '' '' @ ua in
      if contains_ci ''android'' v then ''Android''
      else if contains_ci ''iphone'' v \<or> contains_ci ''ipad'' v \<or> contains_ci ''ios'' v then ''iOS''
      else if contains_ci ''macintosh'' v \<or> contains_ci ''mac os'' v \<or> contains_ci ''macos'' v then ''macOS''
      else if contains_ci ''windows'' v then ''Windows''
      else if contains_ci ''linux'' v then ''Linux''
      else ''Unknown platform'')"

definition deriveDeviceLabel :: "device_headers option \<Rightarrow> string" where
  "deriveDeviceLabel hs =
     (let ua = boundedHeader (Option.bind hs h_user_agent);
          ph = boundedHeader (Option.bind hs h_platform);
          mh = boundedHeader (Option.bind hs h_mobile);
          browser = identifyBrowser ua;
          platform = identifyPlatform ph ua;
          form = (if mh = ''?1'' \<or> contains_ci ''mobile'' ua then ''Mobile'' else ''Desktop'');
          label = join '' / '' (filter (\<lambda>s. s \<noteq> []) [browser, platform, form])
      in escapeLabel (if label = [] then ''Unknown device'' else label))"

subsection \<open>Tokens\<close>

definition base64url_chars :: string where
  "base64url_chars = ''ABCDEFGHIJKLMNOPQRSTUVWXYZabcdefghijklmnopqrstuvwxyz0123456789_-''"

definition hex_chars :: string where
  "hex_chars = ''abcdef0123456789''"

definition token_format :: "string \<Rightarrow> bool" where
  "token_format tok \<longleftrightarrow>
     length tok = 81 \<and> list_all (\<lambda>c. c \<in> set base64url_chars) (take 16 tok) \<and>
     tok ! 16 = CHR ''.'' \<and> list_all (\<lambda>c. c \<in> set hex_chars) (drop 17 tok)"

definition hashToken :: "(string \<Rightarrow> string) \<Rightarrow> string \<Rightarrow> string option" where
  "hashToken sha256 tok = (if token_format tok then Some (sha256 tok) else None)"

text \<open>\<open>generateToken\<close> on the drawn id and secret: token, hash, session id.\<close>

definition generateToken :: "(string \<Rightarrow> string) \<Rightarrow> string \<Rightarrow> string \<Rightarrow> string \<times> string \<times> ident" where
  "generateToken sha256 sid secret = (let tok = sid @ ''.'' @ secret in (tok, sha256 tok, sid))"

definition DEFAULT_TTL_SECONDS :: int where
  "DEFAULT_TTL_SECONDS = 60 * 60 * 12"

subsection \<open>Operations\<close>

text \<open>The insert of a session row: the id and the token hash are unique columns.\<close>

definition insert_session :: "session_row \<Rightarrow> auth_db \<Rightarrow> (http_error, unit) result \<times> auth_db" where
  "insert_session row db =
     (if \<exists>s\<in>set (sessions db). s_id s = s_id row \<or> s_tokenHash s = s_tokenHash row
      then (Inl UniqueViolation, db)
      else (Inr (), db\<lparr>sessions := insert_row row (sessions db)\<rparr>))"

definition new_session_row ::
  "authenticated_user \<Rightarrow> device_headers option \<Rightarrow> time_ms \<Rightarrow> time_ms \<Rightarrow> ident \<Rightarrow> string \<Rightarrow> session_row" where
  "new_session_row user hs now expires sid hash =
     \<lparr>s_id = sid, s_tokenHash = hash, s_userId = a_id user, s_walletHash = Some (a_walletHash user),
      s_deviceLabel = Some (deriveDeviceLabel hs), s_firstSeenAt = now, s_lastSeenAt = now,
      s_createdAt = now, s_expiresAt = expires, s_lastUsedAt = None, s_revokedAt = None,
      s_revocationReason = None, s_rotatedToId = None\<rparr>"

definition create_session ::
  "(string \<Rightarrow> string) \<Rightarrow> authenticated_user \<Rightarrow> int \<Rightarrow> device_headers option \<Rightarrow> time_ms \<Rightarrow> string \<Rightarrow> string
   \<Rightarrow> auth_db \<Rightarrow> (http_error, string \<times> ident \<times> time_ms) result \<times> auth_db" where
  "create_session sha256 user ttl hs now rid secret db =
     (let (tok, hash, sid) = generateToken sha256 rid secret;
          expires = now + ttl * 1000
      in case insert_session (new_session_row user hs now expires sid hash) db of
           (Inl e, db') \<Rightarrow> (Inl e, db')
         | (Inr _, db') \<Rightarrow> (Inr (tok, sid, expires), db'))"

definition findSessionByHash :: "string \<Rightarrow> auth_db \<Rightarrow> session_row option" where
  "findSessionByHash hash db = find_row (\<lambda>s. s_tokenHash s = hash) (sessions db)"

definition touch_session :: "ident \<Rightarrow> time_ms \<Rightarrow> auth_db \<Rightarrow> auth_db" where
  "touch_session sid now db =
     db\<lparr>sessions := upd_rows (\<lambda>s. s_id s = sid) (\<lambda>s. s\<lparr>s_lastUsedAt := Some now, s_lastSeenAt := now\<rparr>) (sessions db)\<rparr>"

definition validate ::
  "(string \<Rightarrow> string) \<Rightarrow> string \<Rightarrow> time_ms \<Rightarrow> auth_db
   \<Rightarrow> (http_error, ident \<times> ident \<times> string option) result \<times> auth_db" where
  "validate sha256 tok now db =
     (case hashToken sha256 tok of
        None \<Rightarrow> (Inl (Unauthorized ''Malformed session token''), db)
      | Some hash \<Rightarrow>
          (case findSessionByHash hash db of
             None \<Rightarrow> (Inl (Unauthorized ''Session not found''), db)
           | Some s \<Rightarrow>
               if s_revokedAt s \<noteq> None then (Inl (Unauthorized ''Session has been revoked''), db)
               else if s_expiresAt s \<le> now then (Inl (Unauthorized ''Session has expired''), db)
               else (Inr (s_id s, s_userId s, s_walletHash s), touch_session (s_id s) now db)))"

definition tryIdentify :: "(string \<Rightarrow> string) \<Rightarrow> string \<Rightarrow> time_ms \<Rightarrow> auth_db \<Rightarrow> (ident \<times> ident) option" where
  "tryIdentify sha256 tok now db =
     (case hashToken sha256 tok of
        None \<Rightarrow> None
      | Some hash \<Rightarrow>
          (case findSessionByHash hash db of
             None \<Rightarrow> None
           | Some s \<Rightarrow>
               if s_revokedAt s \<noteq> None then None
               else if s_expiresAt s \<le> now then None
               else Some (s_id s, s_userId s)))"

definition revoke :: "ident \<Rightarrow> time_ms \<Rightarrow> auth_db \<Rightarrow> auth_db" where
  "revoke sid now db =
     db\<lparr>sessions := upd_rows (\<lambda>s. s_id s = sid \<and> s_revokedAt s = None)
                       (\<lambda>s. s\<lparr>s_revokedAt := Some now\<rparr>) (sessions db)\<rparr>"

text \<open>The conditional revocation inside \<open>rotate\<close>, the step two racing rotations meet at.\<close>

definition rotate_claim :: "ident \<Rightarrow> ident \<Rightarrow> session_row \<Rightarrow> bool" where
  "rotate_claim sid uid s \<longleftrightarrow> s_id s = sid \<and> s_userId s = uid \<and> s_revokedAt s = None"

definition rotate_mark :: "time_ms \<times> ident \<Rightarrow> session_row \<Rightarrow> session_row" where
  "rotate_mark a s = s\<lparr>s_revokedAt := Some (fst a), s_rotatedToId := Some (snd a)\<rparr>"

definition rotate_session ::
  "(string \<Rightarrow> string) \<Rightarrow> ident \<Rightarrow> authenticated_user \<Rightarrow> int \<Rightarrow> device_headers option \<Rightarrow> time_ms \<Rightarrow> string \<Rightarrow> string
   \<Rightarrow> auth_db \<Rightarrow> (http_error, string \<times> ident \<times> time_ms) result \<times> auth_db" where
  "rotate_session sha256 sid user ttl hs now rid secret db =
     (let (tok, hash, nsid) = generateToken sha256 rid secret;
          expires = now + ttl * 1000
      in case find_row (\<lambda>s. s_id s = sid) (sessions db) of
           None \<Rightarrow> (Inl (Unauthorized ''Session not found''), db)
         | Some ex \<Rightarrow>
             if s_userId ex \<noteq> a_id user then (Inl (Unauthorized ''Session not found''), db)
             else if s_revokedAt ex \<noteq> None
             then (Inl (Unauthorized ''Cannot rotate an already-revoked session''), db)
             else if s_expiresAt ex \<le> now then (Inl (Unauthorized ''Session has expired''), db)
             else case insert_session (new_session_row user hs now expires nsid hash) db of
                    (Inl e, _) \<Rightarrow> (Inl e, db)
                  | (Inr _, db1) \<Rightarrow>
                      let (ss, n) = update_many (rotate_claim sid (a_id user)) (rotate_mark (now, nsid)) (sessions db1)
                      in if n \<noteq> 1
                         then (Inl (Unauthorized ''Cannot rotate an already-revoked session''), db)
                         else (Inr (tok, nsid, expires), db1\<lparr>sessions := ss\<rparr>))"

definition revokeAll :: "ident \<Rightarrow> time_ms \<Rightarrow> auth_db \<Rightarrow> auth_db" where
  "revokeAll uid now db = db\<lparr>sessions := fst (revoke_live_sessions uid now (sessions db))\<rparr>"

definition renameForUser ::
  "ident \<Rightarrow> ident \<Rightarrow> string \<Rightarrow> auth_db \<Rightarrow> (http_error, unit) result \<times> auth_db" where
  "renameForUser uid sid label db =
     (let (ss, n) = update_many (\<lambda>s. s_id s = sid \<and> s_userId s = uid)
                      (\<lambda>s. s\<lparr>s_deviceLabel := Some (escapeLabel label)\<rparr>) (sessions db) in
      (if n \<noteq> 1 then Inl (Unauthorized ''Session does not belong to the current user'') else Inr (),
       db\<lparr>sessions := ss\<rparr>))"

definition deleteExpired :: "time_ms \<Rightarrow> auth_db \<Rightarrow> nat \<times> auth_db" where
  "deleteExpired olderThan db =
     (let (ss, n) = delete_many (\<lambda>s. s_expiresAt s < olderThan) (sessions db) in (n, db\<lparr>sessions := ss\<rparr>))"

text \<open>\<open>listForUser\<close> orders by last use, newest first, then by id; \<open>getSessions\<close> by creation.\<close>

definition listForUser :: "ident \<Rightarrow> auth_db \<Rightarrow> session_row list" where
  "listForUser uid db =
     sort_key (\<lambda>s. - s_lastSeenAt s) (sort_key s_id (find_many (\<lambda>s. s_userId s = uid) (sessions db)))"

definition getSessions :: "ident \<Rightarrow> auth_db \<Rightarrow> session_row list" where
  "getSessions uid db =
     sort_key (\<lambda>s. - s_createdAt s) (find_many (\<lambda>s. s_userId s = uid \<and> s_revokedAt s = None) (sessions db))"

definition revocation_reason :: "string option \<Rightarrow> string" where
  "revocation_reason r = or_else r ''REMOTE_REVOCATION''"

definition revokeOtherSession ::
  "ident \<Rightarrow> ident \<Rightarrow> string option \<Rightarrow> time_ms \<Rightarrow> auth_db \<Rightarrow> (http_error, ident) result \<times> auth_db" where
  "revokeOtherSession sid uid reason now db =
     (case find_row (\<lambda>s. s_id s = sid) (sessions db) of
        None \<Rightarrow> (Inl (Unauthorized ''Session not found''), db)
      | Some s \<Rightarrow>
          if s_userId s \<noteq> uid then (Inl (Unauthorized ''Session does not belong to you''), db)
          else if s_revokedAt s \<noteq> None then (Inl (Unauthorized ''Session is already revoked''), db)
          else (Inr sid,
                db\<lparr>sessions := upd_rows (\<lambda>s. s_id s = sid)
                     (\<lambda>s. s\<lparr>s_revokedAt := Some now, s_revocationReason := Some (revocation_reason reason)\<rparr>)
                     (sessions db)\<rparr>))"

definition revokeAllOtherSessions ::
  "ident \<Rightarrow> ident \<Rightarrow> string option \<Rightarrow> time_ms \<Rightarrow> auth_db \<Rightarrow> (http_error, nat) result \<times> auth_db" where
  "revokeAllOtherSessions uid cur reason now db =
     (case find_row (\<lambda>s. s_id s = cur) (sessions db) of
        None \<Rightarrow> (Inl (Unauthorized ''Current session not found''), db)
      | Some s \<Rightarrow>
          if s_userId s \<noteq> uid then (Inl (Unauthorized ''Current session does not belong to you''), db)
          else if s_revokedAt s \<noteq> None
          then (Inl (Unauthorized ''Cannot use an already-revoked session to revoke others''), db)
          else
            let (ss, n) = update_many (\<lambda>s. s_userId s = uid \<and> s_id s \<noteq> cur \<and> s_revokedAt s = None)
                   (\<lambda>s. s\<lparr>s_revokedAt := Some now, s_revocationReason := Some (revocation_reason reason)\<rparr>)
                   (sessions db)
            in (Inr n, db\<lparr>sessions := ss\<rparr>))"

subsection \<open>The request guard\<close>

definition canActivate ::
  "(string \<Rightarrow> string) \<Rightarrow> string option \<Rightarrow> time_ms \<Rightarrow> auth_db
   \<Rightarrow> (http_error, ident \<times> authenticated_user) result \<times> auth_db" where
  "canActivate sha256 header now db =
     (if header = None \<or> \<not> starts_with (the header) ''Bearer ''
      then (Inl (Unauthorized ''Missing bearer token''), db)
      else case validate sha256 (drop (length ''Bearer '') (the header)) now db of
        (Inl e, db1) \<Rightarrow> (Inl e, db1)
      | (Inr (sid, uid, wh), db1) \<Rightarrow>
          (case find_row (\<lambda>u. u_id u = uid) (users db1) of
             None \<Rightarrow> (Inl (Unauthorized ''User not found''), db1)
           | Some u \<Rightarrow>
               if \<not> canAuthenticate (u_status u) then (Inl (Unauthorized ''Account is not active''), db1)
               else if truthy wh \<and> wh \<noteq> Some (u_walletHash u)
               then (Inl (Unauthorized ''Session is no longer valid''), db1)
               else (Inr (sid, \<lparr>a_id = u_id u, a_walletAddress = u_walletAddress u,
                                a_walletHash = u_walletHash u, a_role = u_role u\<rparr>), db1)))"

subsection \<open>Facts\<close>

definition sessions_inv :: "session_row table \<Rightarrow> bool" where
  "sessions_inv t \<longleftrightarrow> unique_on s_id t \<and> unique_on s_tokenHash t"

definition dead_token :: "string \<Rightarrow> session_row table \<Rightarrow> bool" where
  "dead_token h t \<longleftrightarrow> (\<forall>s\<in>set t. s_tokenHash s = h \<longrightarrow> s_revokedAt s \<noteq> None)"

text \<open>What every update of a session row keeps: its identity and a revocation once made.\<close>

definition keeps_session :: "(session_row \<Rightarrow> session_row) \<Rightarrow> bool" where
  "keeps_session f \<longleftrightarrow>
     (\<forall>s. s_id (f s) = s_id s \<and> s_tokenHash (f s) = s_tokenHash s \<and> s_userId (f s) = s_userId s \<and>
          (s_revokedAt s \<noteq> None \<longrightarrow> s_revokedAt (f s) \<noteq> None))"

named_theorems session_keep \<open>updates that keep a session's identity and revocation\<close>

lemma keeps_session_simps [session_keep]:
  "keeps_session (\<lambda>s. s\<lparr>s_revokedAt := Some now\<rparr>)"
  "keeps_session (\<lambda>s. s\<lparr>s_lastUsedAt := a, s_lastSeenAt := b\<rparr>)"
  "keeps_session (\<lambda>s. s\<lparr>s_deviceLabel := l\<rparr>)"
  "keeps_session (\<lambda>s. s\<lparr>s_revokedAt := Some now, s_revocationReason := r\<rparr>)"
  "keeps_session (rotate_mark a2)"
  by (simp_all add: keeps_session_def rotate_mark_def)

lemma dead_token_upd: "keeps_session f \<Longrightarrow> dead_token h t \<Longrightarrow> dead_token h (upd_rows p f t)"
  by (auto simp: dead_token_def keeps_session_def set_upd_rows)

lemma sessions_inv_upd: "keeps_session f \<Longrightarrow> sessions_inv (upd_rows p f t) = sessions_inv t"
  by (simp add: sessions_inv_def keeps_session_def unique_on_upd_rows)

lemma dead_token_insert:
  "s_tokenHash row \<noteq> h \<Longrightarrow> dead_token h t \<Longrightarrow> dead_token h (insert_row row t)"
  by (auto simp: dead_token_def)

lemma sessions_inv_insert:
  "sessions_inv t \<Longrightarrow> \<not> (\<exists>s\<in>set t. s_id s = s_id row \<or> s_tokenHash s = s_tokenHash row) \<Longrightarrow>
   sessions_inv (insert_row row t)"
  by (auto simp: sessions_inv_def unique_on_insert_row image_iff)

lemma sessions_filter:
  "dead_token h t \<Longrightarrow> dead_token h (filter p t)" "sessions_inv t \<Longrightarrow> sessions_inv (filter p t)"
  by (auto simp: dead_token_def sessions_inv_def unique_on_def distinct_map_filter)

lemma revoke_live_sessions_fst:
  "fst (revoke_live_sessions uid now t) =
   upd_rows (\<lambda>s. s_userId s = uid \<and> s_revokedAt s = None) (\<lambda>s. s\<lparr>s_revokedAt := Some now\<rparr>) t"
  by (simp add: revoke_live_sessions_def update_many_def)

lemma dead_token_revoke_live [session_keep]:
  "dead_token h t \<Longrightarrow> dead_token h (fst (revoke_live_sessions uid now t))"
  unfolding revoke_live_sessions_fst by (rule dead_token_upd) (simp add: session_keep)

lemma sessions_inv_revoke_live [session_keep]:
  "sessions_inv t \<Longrightarrow> sessions_inv (fst (revoke_live_sessions uid now t))"
  unfolding revoke_live_sessions_fst by (simp add: sessions_inv_upd session_keep)

lemma insert_session_cases:
  assumes "insert_session row db = (r, db')"
  obtains "r = Inl UniqueViolation" "db' = db"
  | "r = Inr ()" "\<not> (\<exists>s\<in>set (sessions db). s_id s = s_id row \<or> s_tokenHash s = s_tokenHash row)"
    "db' = db\<lparr>sessions := insert_row row (sessions db)\<rparr>"
  using assms unfolding insert_session_def by (metis Pair_inject)

lemma create_session_cases:
  assumes "create_session sha user ttl hs now rid secret db = (r, db')"
  obtains (taken) "r = Inl UniqueViolation" "db' = db"
  | (created) "r = Inr (rid @ ''.'' @ secret, rid, now + ttl * 1000)"
    "\<not> (\<exists>s\<in>set (sessions db). s_id s = rid \<or> s_tokenHash s = sha (rid @ ''.'' @ secret))"
    "db' = db\<lparr>sessions := insert_row (new_session_row user hs now (now + ttl * 1000) rid
                (sha (rid @ ''.'' @ secret))) (sessions db)\<rparr>"
  using assms
  by (auto simp: create_session_def generateToken_def Let_def new_session_row_def
      split: prod.splits sum.splits elim!: insert_session_cases)

lemma validate_dead:
  assumes "dead_token (sha tok) (sessions db)"
  shows "\<exists>e. validate sha tok now db = (Inl e, db)"
proof (cases "findSessionByHash (sha tok) db")
  case None
  then show ?thesis by (simp add: validate_def hashToken_def)
next
  case (Some s)
  then have "s_revokedAt s \<noteq> None"
    using assms by (auto simp: findSessionByHash_def dead_token_def dest: find_row_Some)
  with Some show ?thesis by (simp add: validate_def hashToken_def)
qed

lemma validate_live:
  assumes "sessions_inv (sessions db)" "s \<in> set (sessions db)" "s_tokenHash s = sha tok"
    "token_format tok" "s_revokedAt s = None" "now < s_expiresAt s"
  shows "fst (validate sha tok now db) = Inr (s_id s, s_userId s, s_walletHash s)"
proof -
  have "findSessionByHash (sha tok) db = Some s"
    using assms(1-3) find_row_unique [of s_tokenHash "sessions db" s]
    by (simp add: findSessionByHash_def sessions_inv_def)
  with assms(4-) show ?thesis by (simp add: validate_def hashToken_def)
qed

lemma validate_InrD:
  assumes "validate sha tok now db = (Inr (sid, uid, wh), db1)"
  obtains s where "s \<in> set (sessions db)" "s_tokenHash s = sha tok" "token_format tok"
    "s_id s = sid" "s_userId s = uid" "s_walletHash s = wh"
    "s_revokedAt s = None" "now < s_expiresAt s" "db1 = touch_session sid now db"
  using assms that
  by (auto simp: validate_def hashToken_def findSessionByHash_def split: option.splits if_splits dest!: find_row_Some)

lemma touch_session_frame [simp]: "users (touch_session sid now db) = users db"
  by (simp add: touch_session_def)

interpretation rot: one_shot "rotate_claim sid uid" rotate_mark
  by unfold_locales (simp add: rotate_claim_def rotate_mark_def)

lemma rotate_InrD:
  assumes "rotate_session sha sid user ttl hs now rid secret db = (Inr (tok, nsid, ex), db')"
  shows "tok = rid @ ''.'' @ secret \<and> nsid = rid \<and> ex = now + ttl * 1000 \<and>
    \<not> (\<exists>s\<in>set (sessions db). s_id s = rid \<or> s_tokenHash s = sha tok) \<and>
    count_rows (rotate_claim sid (a_id user)) (insert_row (new_session_row user hs now ex rid (sha tok)) (sessions db)) = 1 \<and>
    db' = db\<lparr>sessions := upd_rows (rotate_claim sid (a_id user)) (rotate_mark (now, rid))
              (insert_row (new_session_row user hs now ex rid (sha tok)) (sessions db))\<rparr>"
  using assms
  by (auto simp: rotate_session_def generateToken_def Let_def update_many_def new_session_row_def
      split: option.splits if_splits prod.splits sum.splits elim!: insert_session_cases)

lemma rotate_InlD: "rotate_session sha sid user ttl hs now rid secret db = (Inl e, db') \<Longrightarrow> db' = db"
  by (auto simp: rotate_session_def generateToken_def Let_def update_many_def
      split: option.splits if_splits prod.splits sum.splits)

lemma rotate_revokes_old:
  assumes "sessions_inv (sessions db)" "old \<in> set (sessions db)" "s_id old = sid"
    "rotate_session sha sid user ttl hs now rid secret db = (Inr (tok, nsid, ex), db')"
  shows "dead_token (s_tokenHash old) (sessions db')" "sessions_inv (sessions db')"
    "rotate_mark (now, nsid) old \<in> set (sessions db')"
    "new_session_row user hs now ex nsid (sha tok) \<in> set (sessions db')"
proof -
  let ?new = "new_session_row user hs now ex rid (sha tok)"
  let ?t = "insert_row ?new (sessions db)"
  note r = rotate_InrD [OF assms(4)]
  have inv: "sessions_inv ?t"
    using assms(1) r by (intro sessions_inv_insert) (auto simp: new_session_row_def)
  have ne: "s_id old \<noteq> rid" using assms(2) r by auto
  have "count_rows (rotate_claim sid (a_id user)) ?t = 1" using r by blast
  then have "0 < count_rows (rotate_claim sid (a_id user)) ?t" by simp
  then obtain x where x: "x \<in> set ?t" "rotate_claim sid (a_id user) x"
    by (auto simp: count_rows_pos)
  then have "x = old"
    using inv assms(2,3) by (auto simp: sessions_inv_def rotate_claim_def intro: unique_on_eqD [of s_id ?t])
  with x have claimed: "rotate_claim sid (a_id user) old" by simp
  have e: "sessions db' = upd_rows (rotate_claim sid (a_id user)) (rotate_mark (now, rid)) ?t"
    using r by simp
  show "sessions_inv (sessions db')"
    unfolding e using inv by (simp add: sessions_inv_upd session_keep)
  show "rotate_mark (now, nsid) old \<in> set (sessions db')"
    unfolding e using claimed assms(2) r by (auto simp: set_upd_rows intro!: rev_image_eqI)
  show "new_session_row user hs now ex nsid (sha tok) \<in> set (sessions db')"
    unfolding e using ne assms(3) r
    by (auto simp: set_upd_rows rotate_claim_def new_session_row_def intro!: rev_image_eqI)
  have "y = old" if "y \<in> set ?t" "s_tokenHash y = s_tokenHash old" for y
    using inv assms(2) that by (auto simp: sessions_inv_def intro: unique_on_eqD [of s_tokenHash ?t])
  with claimed show "dead_token (s_tokenHash old) (sessions db')"
    unfolding e dead_token_def set_upd_rows by (fastforce simp: rotate_mark_def)
qed

text \<open>L. Rotation replaces a session: after a successful \<open>rotate\<close> the old token is refused at
  every instant, and the new one is accepted until it expires, for the same user and wallet.\<close>

theorem rotate_replaces_session:
  assumes "sessions_inv (sessions db)" "old \<in> set (sessions db)" "s_id old = sid"
    "rotate_session sha sid user ttl hs now rid secret db = (Inr (tok, nsid, ex), db')"
    "sha oldtok = s_tokenHash old" "token_format tok" "t' < ex"
  shows "(\<exists>e. validate sha oldtok t db' = (Inl e, db')) \<and>
         fst (validate sha tok t' db') = Inr (nsid, a_id user, Some (a_walletHash user))"
proof
  note r = rotate_revokes_old [OF assms(1-4)]
  show "\<exists>e. validate sha oldtok t db' = (Inl e, db')"
    using r(1) assms(5) by (intro validate_dead) simp
  show "fst (validate sha tok t' db') = Inr (nsid, a_id user, Some (a_walletHash user))"
    using validate_live [OF r(2,4), of sha tok t'] assms(6,7) by (simp add: new_session_row_def)
qed

definition sample_secret :: string where
  "sample_secret = replicate 64 CHR ''0''"

definition sample_user :: authenticated_user where
  "sample_user = \<lparr>a_id = ''u1'', a_walletAddress = ''G1'', a_walletHash = ''h1'', a_role = DEVELOPER\<rparr>"

definition sample_session :: session_row where
  "sample_session = hd (sessions sample_db)"

text \<open>An injective stand-in for the hash on the witness: every token hashes to itself, but one to \<open>t1\<close>.\<close>

definition sample_sha :: "string \<Rightarrow> string" where
  "sample_sha s = (if s = ''old'' then ''t1'' else s)"

lemma sample_token_format: "token_format (replicate 16 CHR ''A'' @ ''.'' @ sample_secret)"
  by (simp add: token_format_def sample_secret_def base64url_chars_def hex_chars_def numeral_eq_Suc)

lemma sample_sessions: "sessions sample_db = [sample_session]" "s_id sample_session = ''s1''"
  "s_userId sample_session = ''u1''" "s_revokedAt sample_session = None" "s_expiresAt sample_session = 1000"
  "s_tokenHash sample_session = ''t1''" "s_walletHash sample_session = Some ''h1''"
  by (simp_all add: sample_session_def sample_db_def)

theorem rotate_replaces_session_witness:
  "\<exists>tok nsid ex db'.
     rotate_session sample_sha ''s1'' sample_user 60 None 10 (replicate 16 CHR ''A'') sample_secret sample_db
       = (Inr (tok, nsid, ex), db') \<and>
     (\<exists>e. validate sample_sha ''old'' 20 db' = (Inl e, db')) \<and>
     fst (validate sample_sha tok 20 db') = Inr (nsid, ''u1'', Some ''h1'')"
proof -
  let ?rid = "replicate 16 CHR ''A''"
  obtain db' where r: "rotate_session sample_sha ''s1'' sample_user 60 None 10 ?rid sample_secret sample_db
      = (Inr (?rid @ ''.'' @ sample_secret, ?rid, 60010), db')"
    by (auto simp: rotate_session_def generateToken_def Let_def insert_session_def find_row_def update_many_def
        count_rows_def rotate_claim_def sample_sessions sample_user_def new_session_row_def sample_sha_def
        numeral_eq_Suc insert_row_def)
  show ?thesis
    using rotate_replaces_session [OF _ _ _ r, of sample_session "''old''" 20 20] r sample_token_format
    by (auto simp: sample_sessions sessions_inv_def unique_on_def sample_sha_def sample_user_def)
qed

lemma canActivate_InrD:
  assumes "canActivate sha header now db = (Inr (sid, au), db')"
  obtains tok s u where "header = Some (''Bearer '' @ tok)" "s \<in> set (sessions db)" "s_tokenHash s = sha tok"
    "token_format tok" "s_id s = sid" "s_revokedAt s = None" "now < s_expiresAt s"
    "u \<in> set (users db)" "u_id u = s_userId s" "canAuthenticate (u_status u)"
    "truthy (s_walletHash s) \<longrightarrow> s_walletHash s = Some (u_walletHash u)"
    "au = \<lparr>a_id = u_id u, a_walletAddress = u_walletAddress u, a_walletHash = u_walletHash u, a_role = u_role u\<rparr>"
    "db' = touch_session sid now db"
proof -
  from assms obtain h where h: "header = Some h" "starts_with h ''Bearer ''"
    by (auto simp: canActivate_def split: if_splits)
  define tok where "tok = drop (length ''Bearer '') h"
  have hd: "header = Some (''Bearer '' @ tok)"
    using h unfolding tok_def starts_with_def by (metis append_take_drop_id)
  from assms h obtain uid wh db1 u where v: "validate sha tok now db = (Inr (sid, uid, wh), db1)"
    "find_row (\<lambda>u. u_id u = uid) (users db1) = Some u" "canAuthenticate (u_status u)"
    "truthy wh \<longrightarrow> wh = Some (u_walletHash u)" "db' = db1"
    "au = \<lparr>a_id = u_id u, a_walletAddress = u_walletAddress u, a_walletHash = u_walletHash u, a_role = u_role u\<rparr>"
    by (auto simp: canActivate_def tok_def split: if_splits prod.splits sum.splits option.splits)
  from v(1) obtain s where s: "s \<in> set (sessions db)" "s_tokenHash s = sha tok" "token_format tok"
    "s_id s = sid" "s_userId s = uid" "s_walletHash s = wh"
    "s_revokedAt s = None" "now < s_expiresAt s" "db1 = touch_session sid now db"
    by (rule validate_InrD)
  from v(2) s(9) have "u \<in> set (users db)" "u_id u = uid" by (auto dest: find_row_Some)
  with hd v s show ?thesis by (intro that) auto
qed

lemma canActivate_live:
  assumes "sessions_inv (sessions db)" "unique_on u_id (users db)"
    "token_format tok" "s \<in> set (sessions db)" "s_tokenHash s = sha tok" "s_revokedAt s = None"
    "now < s_expiresAt s" "u \<in> set (users db)" "u_id u = s_userId s" "canAuthenticate (u_status u)"
    "\<not> truthy (s_walletHash s) \<or> s_walletHash s = Some (u_walletHash u)"
  shows "fst (canActivate sha (Some (''Bearer '' @ tok)) now db) =
    Inr (s_id s, \<lparr>a_id = u_id u, a_walletAddress = u_walletAddress u, a_walletHash = u_walletHash u, a_role = u_role u\<rparr>)"
proof -
  have "fst (validate sha tok now db) = Inr (s_id s, s_userId s, s_walletHash s)"
    using validate_live [OF assms(1,4), of sha tok now] assms by simp
  then obtain db1 where db1: "validate sha tok now db = (Inr (s_id s, s_userId s, s_walletHash s), db1)"
    by (metis prod.collapse)
  then have "users db1 = users db" by (auto elim!: validate_InrD)
  moreover have "find_row (\<lambda>x. u_id x = s_userId s) (users db) = Some u"
    using find_row_unique [OF assms(2,8)] assms(9) by simp
  ultimately show ?thesis
    using assms db1 by (auto simp: canActivate_def starts_with_def)
qed

text \<open>C14. The guard admits a request exactly when its bearer token names a live session (not
  revoked, not expired) of an existing account that may authenticate and still holds the wallet the
  session was issued to; the identity it attaches is that account's current one.\<close>

theorem canActivate_iff:
  assumes "sessions_inv (sessions db)" "unique_on u_id (users db)"
  shows "fst (canActivate sha header now db) = Inr (sid, au) \<longleftrightarrow>
    (\<exists>tok s u. header = Some (''Bearer '' @ tok) \<and> token_format tok \<and> s \<in> set (sessions db) \<and>
       s_tokenHash s = sha tok \<and> s_id s = sid \<and> s_revokedAt s = None \<and> now < s_expiresAt s \<and>
       u \<in> set (users db) \<and> u_id u = s_userId s \<and> canAuthenticate (u_status u) \<and>
       (\<not> truthy (s_walletHash s) \<or> s_walletHash s = Some (u_walletHash u)) \<and>
       au = \<lparr>a_id = u_id u, a_walletAddress = u_walletAddress u, a_walletHash = u_walletHash u, a_role = u_role u\<rparr>)"
    (is "?L = ?R")
proof
  assume ?L
  then have "canActivate sha header now db = (Inr (sid, au), snd (canActivate sha header now db))"
    by (metis prod.collapse)
  then show ?R by (rule canActivate_InrD) blast
next
  assume ?R
  then show ?L using canActivate_live [OF assms] by blast
qed

theorem canActivate_iff_witness:
  "sessions_inv (sessions sample_db) \<and> unique_on u_id (users sample_db) \<and>
   fst (canActivate (\<lambda>_. ''t1'') (Some (''Bearer '' @ replicate 16 CHR ''A'' @ ''.'' @ sample_secret)) 10 sample_db)
     = Inr (''s1'', sample_user)"
proof (intro conjI)
  show i: "sessions_inv (sessions sample_db)"
    by (simp add: sessions_inv_def unique_on_def sample_sessions)
  show u: "unique_on u_id (users sample_db)" by (simp add: unique_on_def sample_db_def)
  show "fst (canActivate (\<lambda>_. ''t1'') (Some (''Bearer '' @ replicate 16 CHR ''A'' @ ''.'' @ sample_secret)) 10 sample_db)
     = Inr (''s1'', sample_user)"
    unfolding canActivate_iff [OF i u]
    using sample_token_format
    by (intro exI [of _ "replicate 16 CHR ''A'' @ ''.'' @ sample_secret"] exI [of _ sample_session]
        exI [of _ "hd (users sample_db)"])
      (simp add: sample_sessions sample_user_def, simp add: sample_db_def)
qed

lemma replace_all_set: "set (replace_all c r s) \<subseteq> (set s - {c}) \<union> set r"
  by (induction s) auto

lemma escaped_chars:
  "set (escapeLabel v) \<inter> {CHR ''<'', CHR ''>'', CHR 0x22, CHR 0x27} = {}"
proof -
  let ?a = "replace_all CHR ''&'' ''&amp;'' (trim v)"
  let ?b = "replace_all CHR ''<'' ''&lt;'' ?a"
  let ?c = "replace_all CHR ''>'' ''&gt;'' ?b"
  let ?d = "replace_all CHR 0x22 ''&quot;'' ?c"
  let ?e = "replace_all CHR 0x27 ''&#39;'' ?d"
  have b: "CHR ''<'' \<notin> set ?b" using replace_all_set [of "CHR ''<''" "''&lt;''" ?a] by auto
  have c: "set ?c \<inter> {CHR ''<'', CHR ''>''} = {}"
    using b replace_all_set [of "CHR ''>''" "''&gt;''" ?b] by auto
  have d: "set ?d \<inter> {CHR ''<'', CHR ''>'', CHR 0x22} = {}"
    using c replace_all_set [of "CHR 0x22" "''&quot;''" ?c] by auto
  have "set ?e \<inter> {CHR ''<'', CHR ''>'', CHR 0x22, CHR 0x27} = {}"
    using d replace_all_set [of "CHR 0x27" "''&#39;''" ?d] by auto
  then show ?thesis unfolding escapeLabel_def by (auto dest: in_set_takeD)
qed

text \<open>L. A stored device label holds no raw angle bracket or quote and at most 80 characters,
  whatever the request headers.\<close>

theorem deriveDeviceLabel_safe:
  "set (deriveDeviceLabel hs) \<inter> {CHR ''<'', CHR ''>'', CHR 0x22, CHR 0x27} = {} \<and>
   length (deriveDeviceLabel hs) \<le> 80"
  unfolding deriveDeviceLabel_def Let_def
  using escaped_chars by (simp add: escapeLabel_def SESSION_DEVICE_LABEL_MAX_LENGTH_def)

end
