(* ===== verification/Login.thy ===== *)
theory Login
  imports Sessions Calendar
begin

text \<open>
  Sign-in with a wallet signature: \<open>auth/auth.service.ts\<close> with the origin check of
  \<open>auth/originNormalizer.ts\<close>, the audit trail of \<open>auth/auth-audit.service.ts\<close> and the
  limiter of \<open>auth/auth-rate-limiter.service.ts\<close>.

  \<open>auth_service\<close> gathers what the service is constructed with: its configuration and the
  code outside the repository it calls (SHA-256, the Stellar key check, Ed25519
  verification, the URL parser).  A call draws its random strings and row ids from its
  arguments.
\<close>

record url =
  url_username :: string
  url_password :: string
  url_protocol :: string
  url_hostname :: string
  url_port :: string

record rate_limit_config =
  maxChallengeCreations :: int
  challengeCreationWindowMs :: int
  maxVerifications :: int
  verificationWindowMs :: int

record auth_service =
  sha256 :: "string \<Rightarrow> string"
  isValidWalletAddress :: "string \<Rightarrow> bool"
  verifyWalletSignature :: "string \<Rightarrow> string \<Rightarrow> string \<Rightarrow> bool"
  parse_url :: "string \<Rightarrow> url option"
  appUrl :: string
  networkPassphrase :: string
  limits :: rate_limit_config

subsection \<open>Origins\<close>

datatype origin_rejection =
  Opaque | Wildcard | CredentialBearing | UnsupportedScheme | Malformed | Empty

fun rejection_name :: "origin_rejection \<Rightarrow> string" where
  "rejection_name Opaque = ''opaque_origin''"
| "rejection_name Wildcard = ''wildcard_origin''"
| "rejection_name CredentialBearing = ''credential_bearing_url''"
| "rejection_name UnsupportedScheme = ''unsupported_scheme''"
| "rejection_name Malformed = ''malformed_url''"
| "rejection_name Empty = ''empty_origin''"

definition normalizeOrigin :: "(string \<Rightarrow> url option) \<Rightarrow> string \<Rightarrow> (origin_rejection, string) result" where
  "normalizeOrigin parse raw =
     (if raw = [] \<or> trim raw = [] then Inl Empty
      else if raw = ''null'' then Inl Opaque
      else if raw = ''*'' then Inl Wildcard
      else case parse raw of
        None \<Rightarrow> Inl Malformed
      | Some p \<Rightarrow>
          if url_username p \<noteq> [] \<or> url_password p \<noteq> [] then Inl CredentialBearing
          else
            let https = (url_protocol p = ''https:'');
                local = (url_protocol p = ''http:'' \<and>
                         (url_hostname p = ''localhost'' \<or> url_hostname p = ''127.0.0.1''))
            in if \<not> https \<and> \<not> local then Inl UnsupportedScheme
               else Inr (url_protocol p @ ''//'' @ toLowerCase (url_hostname p)
                         @ (if url_port p \<noteq> [] then '':'' @ url_port p else [])))"

subsection \<open>Audit events and rate limits\<close>

definition hashed :: "auth_service \<Rightarrow> string \<Rightarrow> string" where
  "hashed sv s = ''sha256:'' @ sha256 sv s"

definition recordEvent ::
  "auth_service \<Rightarrow> auth_event_type \<Rightarrow> string \<Rightarrow> ident option \<Rightarrow> bool \<Rightarrow> string option \<Rightarrow> string option
   \<Rightarrow> time_ms \<Rightarrow> auth_db \<Rightarrow> auth_db" where
  "recordEvent sv ty wallet cid ok why meta now db =
     db\<lparr>auth_events := insert_row
          \<lparr>e_eventType = ty, e_walletHash = hashed sv wallet,
           e_clientMetadataHash = (if truthy meta then Some (hashed sv (the meta)) else None),
           e_challengeId = cid, e_success = ok, e_failureReason = why, e_createdAt = now\<rparr> (auth_events db)\<rparr>"

definition getEventCount :: "auth_service \<Rightarrow> string \<Rightarrow> auth_event_type \<Rightarrow> int \<Rightarrow> time_ms \<Rightarrow> auth_db \<Rightarrow> nat" where
  "getEventCount sv wallet ty window now db =
     count_rows (\<lambda>e. e_walletHash e = hashed sv wallet \<and> e_eventType e = ty \<and> now - window \<le> e_createdAt e)
       (auth_events db)"

definition getClientEventCount :: "auth_service \<Rightarrow> string \<Rightarrow> auth_event_type \<Rightarrow> int \<Rightarrow> time_ms \<Rightarrow> auth_db \<Rightarrow> nat" where
  "getClientEventCount sv meta ty window now db =
     count_rows (\<lambda>e. e_clientMetadataHash e = Some (hashed sv meta) \<and> e_eventType e = ty \<and>
                     now - window \<le> e_createdAt e) (auth_events db)"

definition cleanupOldEvents :: "int \<Rightarrow> time_ms \<Rightarrow> auth_db \<Rightarrow> nat \<times> auth_db" where
  "cleanupOldEvents days now db =
     (let (es, n) = delete_many (\<lambda>e. e_createdAt e < now - days * DAY_MS) (auth_events db)
      in (n, db\<lparr>auth_events := es\<rparr>))"

text \<open>\<open>Math.ceil(window / 1000)\<close>.\<close>

definition retry_after :: "int \<Rightarrow> int" where
  "retry_after window = - ((- window) div 1000)"

definition checkChallengeCreationLimit ::
  "auth_service \<Rightarrow> string \<Rightarrow> string option \<Rightarrow> time_ms \<Rightarrow> auth_db \<Rightarrow> (http_error, unit) result \<times> auth_db" where
  "checkChallengeCreationLimit sv wallet meta now db =
     (let l = limits sv;
          w = challengeCreationWindowMs l;
          tooMany = Inl (TooManyRequests ''Too many challenge requests. Please try again later.'' (retry_after w))
      in if maxChallengeCreations l \<le> int (getEventCount sv wallet CHALLENGE_CREATED w now db)
         then (tooMany, recordEvent sv RATE_LIMITED wallet None False
                          (Some ''Challenge creation rate limit exceeded'') meta now db)
         else if truthy meta \<and>
                 maxChallengeCreations l \<le> int (getClientEventCount sv (the meta) CHALLENGE_CREATED w now db)
         then (tooMany, recordEvent sv RATE_LIMITED wallet None False
                          (Some ''Client challenge creation rate limit exceeded'') meta now db)
         else (Inr (), db))"

definition checkVerificationLimit ::
  "auth_service \<Rightarrow> string \<Rightarrow> string option \<Rightarrow> time_ms \<Rightarrow> auth_db \<Rightarrow> (http_error, unit) result \<times> auth_db" where
  "checkVerificationLimit sv wallet meta now db =
     (let l = limits sv;
          w = verificationWindowMs l;
          tooMany = Inl (TooManyRequests ''Too many verification attempts. Please try again later.'' (retry_after w))
      in if maxVerifications l \<le> int (getEventCount sv wallet CHALLENGE_VERIFIED w now db)
         then (tooMany, recordEvent sv RATE_LIMITED wallet None False
                          (Some ''Verification rate limit exceeded'') meta now db)
         else if truthy meta \<and>
                 maxVerifications l \<le> int (getClientEventCount sv (the meta) CHALLENGE_VERIFIED w now db)
         then (tooMany, recordEvent sv RATE_LIMITED wallet None False
                          (Some ''Client verification rate limit exceeded'') meta now db)
         else (Inr (), db))"

subsection \<open>Challenges\<close>

definition challenge_message :: "auth_service \<Rightarrow> string \<Rightarrow> string \<Rightarrow> time_ms \<Rightarrow> string" where
  "challenge_message sv wallet nonce expires =
     join newline
       [''EarnProof wallet authentication'',
        ''Domain: '' @ appUrl sv,
        ''Network: '' @ networkPassphrase sv,
        ''Wallet: '' @ wallet,
        ''Nonce: '' @ nonce,
        ''Expires At: '' @ toISOString expires]"

text \<open>The challenge row id is the database's default (\<open>cid\<close>); id and nonce hash are unique columns.\<close>

definition createChallenge ::
  "auth_service \<Rightarrow> string \<Rightarrow> string option \<Rightarrow> string option \<Rightarrow> string \<Rightarrow> ident \<Rightarrow> time_ms \<Rightarrow> auth_db
   \<Rightarrow> (http_error, ident \<times> string \<times> time_ms) result \<times> auth_db" where
  "createChallenge sv wallet meta reqOrigin nonce cid now db =
     (if \<not> isValidWalletAddress sv wallet then (Inl (BadRequest ''Invalid Stellar public key''), db)
      else case checkChallengeCreationLimit sv wallet meta now db of
        (Inl e, db1) \<Rightarrow> (Inl e, db1)
      | (Inr _, db1) \<Rightarrow>
          (case normalizeOrigin (parse_url sv) (or_else reqOrigin (appUrl sv)) of
             Inl r \<Rightarrow> (Inl (BadRequest (''Invalid origin: '' @ rejection_name r)), db1)
           | Inr origin \<Rightarrow>
               let expires = now + 5 * 60 * 1000;
                   msg = challenge_message sv wallet nonce expires;
                   row = \<lparr>c_id = cid, c_walletAddress = wallet, c_nonceHash = sha256 sv nonce, c_message = msg,
                          c_expiresAt = expires, c_usedAt = None,
                          c_networkPassphrase = Some (networkPassphrase sv), c_origin = Some origin\<rparr>
               in if \<exists>c\<in>set (challenges db1). c_id c = cid \<or> c_nonceHash c = sha256 sv nonce
                  then (Inl UniqueViolation, db1)
                  else (Inr (cid, msg, expires),
                        recordEvent sv CHALLENGE_CREATED wallet (Some cid) True None meta now
                          (db1\<lparr>challenges := insert_row row (challenges db1)\<rparr>))))"

record verify_input =
  v_challengeId :: ident
  v_walletAddress :: string
  v_signature :: string
  v_clientMetadata :: "string option"
  v_requestOrigin :: "string option"

text \<open>The atomic consumption: the \<open>where\<close> clause and what it writes.\<close>

definition challenge_open :: "ident \<Rightarrow> string \<Rightarrow> time_ms \<Rightarrow> challenge_row \<Rightarrow> bool" where
  "challenge_open cid wallet now c \<longleftrightarrow>
     c_id c = cid \<and> c_walletAddress c = wallet \<and> c_usedAt c = None \<and> now < c_expiresAt c"

definition challenge_use :: "time_ms \<Rightarrow> challenge_row \<Rightarrow> challenge_row" where
  "challenge_use now c = c\<lparr>c_usedAt := Some now\<rparr>"

text \<open>The user upsert of a successful sign-in; \<open>uid\<close> is the id the database gives a new row.\<close>

definition upsert_user ::
  "auth_service \<Rightarrow> string \<Rightarrow> ident \<Rightarrow> time_ms \<Rightarrow> auth_db \<Rightarrow> (http_error, user_row) result \<times> auth_db" where
  "upsert_user sv wallet uid now db =
     (let wh = hashed sv wallet in
      if \<exists>u\<in>set (users db). u_walletAddress u \<noteq> wallet \<and> u_walletHash u = wh then (Inl UniqueViolation, db)
      else case find_row (\<lambda>u. u_walletAddress u = wallet) (users db) of
        Some u \<Rightarrow>
          (Inr (u\<lparr>u_walletHash := wh, u_lastLoginAt := Some now\<rparr>),
           db\<lparr>users := upd_rows (\<lambda>u. u_walletAddress u = wallet)
                         (\<lambda>u. u\<lparr>u_walletHash := wh, u_lastLoginAt := Some now\<rparr>) (users db)\<rparr>)
      | None \<Rightarrow>
          let u = \<lparr>u_id = uid, u_walletAddress = wallet, u_walletHash = wh, u_role = WORKER,
                   u_status = RS_ACTIVE, u_displayName = None, u_lastLoginAt = Some now\<rparr>
          in if \<exists>x\<in>set (users db). u_id x = uid then (Inl UniqueViolation, db)
             else (Inr u, db\<lparr>users := insert_row u (users db)\<rparr>))"

definition auth_user :: "user_row \<Rightarrow> authenticated_user" where
  "auth_user u = \<lparr>a_id = u_id u, a_walletAddress = u_walletAddress u,
                  a_walletHash = u_walletHash u, a_role = u_role u\<rparr>"

text \<open>The checks on a consumed challenge, in the order of the code, up to the signature.\<close>

definition check_binding ::
  "auth_service \<Rightarrow> verify_input \<Rightarrow> challenge_row \<Rightarrow> (http_error, unit) result" where
  "check_binding sv i c =
     (if \<not> truthy (c_networkPassphrase c) \<or> \<not> truthy (c_origin c)
      then Inl (Unauthorized ''Challenge context is not bound to network and origin'')
      else if c_networkPassphrase c \<noteq> Some (networkPassphrase sv)
      then Inl (Unauthorized ''Challenge network mismatch'')
      else case normalizeOrigin (parse_url sv) (or_else (v_requestOrigin i) (appUrl sv)) of
        Inl _ \<Rightarrow> Inl (Unauthorized ''Invalid request origin'')
      | Inr origin \<Rightarrow>
          if c_origin c \<noteq> Some origin then Inl (Unauthorized ''Challenge origin mismatch'') else Inr ())"

text \<open>Everything \<open>verifyChallenge\<close> does after it has consumed the challenge.\<close>

definition finish_verify ::
  "auth_service \<Rightarrow> verify_input \<Rightarrow> device_headers option \<Rightarrow> ident \<Rightarrow> string \<Rightarrow> string \<Rightarrow> time_ms \<Rightarrow> auth_db
   \<Rightarrow> (http_error, user_row \<times> string \<times> ident \<times> time_ms) result \<times> auth_db" where
  "finish_verify sv i hs uid rid secret now db =
     (let wallet = v_walletAddress i;
          event = (\<lambda>ty ok why. recordEvent sv ty wallet (Some (v_challengeId i)) ok why (v_clientMetadata i) now)
      in case find_row (\<lambda>c. c_id c = v_challengeId i) (challenges db) of
           None \<Rightarrow> (Inl (Unauthorized ''Challenge is expired or unavailable''), db)
         | Some c \<Rightarrow>
             (case check_binding sv i c of
                Inl e \<Rightarrow> (Inl e, db)
              | Inr _ \<Rightarrow>
                  if \<not> verifyWalletSignature sv wallet (c_message c) (v_signature i)
                  then (Inl (Unauthorized ''Invalid wallet signature''),
                        event SIGNATURE_INVALID False (Some ''Invalid signature'') db)
                  else
                    let existing = find_row (\<lambda>u. u_walletAddress u = wallet) (users db) in
                    if existing \<noteq> None \<and> \<not> canAuthenticate (u_status (the existing))
                    then (Inl (Unauthorized ''Account is not active''),
                          event ACCOUNT_INACTIVE False (Some ''Account is not active'') db)
                    else
                      case upsert_user sv wallet uid now db of
                        (Inl e, db1) \<Rightarrow> (Inl e, db1)
                      | (Inr user, db1) \<Rightarrow>
                          (case create_session (sha256 sv) (auth_user user) DEFAULT_TTL_SECONDS hs now rid secret db1 of
                             (Inl e, db2) \<Rightarrow> (Inl e, db2)
                           | (Inr (tok, sid, expires), db2) \<Rightarrow>
                               (Inr (user, tok, sid, expires), event CHALLENGE_VERIFIED True None db2))))"

definition verifyChallenge ::
  "auth_service \<Rightarrow> verify_input \<Rightarrow> device_headers option \<Rightarrow> ident \<Rightarrow> string \<Rightarrow> string \<Rightarrow> time_ms \<Rightarrow> auth_db
   \<Rightarrow> (http_error, user_row \<times> string \<times> ident \<times> time_ms) result \<times> auth_db" where
  "verifyChallenge sv i hs uid rid secret now db =
     (let wallet = v_walletAddress i; cid = v_challengeId i in
      if \<not> isValidWalletAddress sv wallet then (Inl (BadRequest ''Invalid Stellar public key''), db)
      else case checkVerificationLimit sv wallet (v_clientMetadata i) now db of
        (Inl e, db1) \<Rightarrow> (Inl e, db1)
      | (Inr _, db1) \<Rightarrow>
          let (cs, n) = update_many (challenge_open cid wallet now) (challenge_use now) (challenges db1);
              db2 = db1\<lparr>challenges := cs\<rparr>
          in if n = 0
             then
               (Inl (Unauthorized ''Challenge is expired or unavailable''),
                if find_row (\<lambda>c. c_id c = cid \<and> c_walletAddress c = wallet \<and> c_usedAt c \<noteq> None) (challenges db2) \<noteq> None
                then recordEvent sv CHALLENGE_REPLAYED wallet (Some cid) False (Some ''Challenge already used'')
                       (v_clientMetadata i) now db2
                else recordEvent sv CHALLENGE_EXPIRED wallet (Some cid) False (Some ''Challenge expired or not found'')
                       (v_clientMetadata i) now db2)
             else finish_verify sv i hs uid rid secret now db2)"

definition getSession :: "ident \<Rightarrow> auth_db \<Rightarrow> (http_error, user_row) result" where
  "getSession uid db =
     (case find_row (\<lambda>u. u_id u = uid) (users db) of
        None \<Rightarrow> Inl (Unauthorized ''User session is no longer valid'') | Some u \<Rightarrow> Inr u)"

definition logout :: "ident \<Rightarrow> time_ms \<Rightarrow> auth_db \<Rightarrow> auth_db" where
  "logout sid now db = revoke sid now db"

subsection \<open>Facts\<close>

lemma recordEvent_frame [simp]:
  "users (recordEvent sv ty w cid ok why meta now db) = users db"
  "sessions (recordEvent sv ty w cid ok why meta now db) = sessions db"
  "challenges (recordEvent sv ty w cid ok why meta now db) = challenges db"
  "rotations (recordEvent sv ty w cid ok why meta now db) = rotations db"
  by (simp_all add: recordEvent_def)

lemma checkVerificationLimit_frame:
  assumes "checkVerificationLimit sv w meta now db = (r, db1)"
  shows "users db1 = users db" "sessions db1 = sessions db" "challenges db1 = challenges db"
    "rotations db1 = rotations db" "r = Inr () \<Longrightarrow> db1 = db"
  using assms by (auto simp: checkVerificationLimit_def Let_def split: if_splits)

lemma checkChallengeCreationLimit_frame:
  assumes "checkChallengeCreationLimit sv w meta now db = (r, db1)"
  shows "users db1 = users db" "sessions db1 = sessions db" "challenges db1 = challenges db"
    "rotations db1 = rotations db"
  using assms by (auto simp: checkChallengeCreationLimit_def Let_def split: if_splits)

lemma upsert_user_frame:
  assumes "upsert_user sv w uid now db = (r, db1)"
  shows "sessions db1 = sessions db \<and> challenges db1 = challenges db \<and> rotations db1 = rotations db \<and>
    auth_events db1 = auth_events db"
  using assms by (auto simp: upsert_user_def Let_def split: if_splits option.splits)

lemma create_session_frame:
  assumes "create_session sha user ttl hs now rid secret db = (r, db1)"
  shows "users db1 = users db \<and> challenges db1 = challenges db \<and> rotations db1 = rotations db \<and>
    auth_events db1 = auth_events db"
  using assms by (auto elim: create_session_cases)

lemma upsert_user_Inr:
  assumes "upsert_user sv w uid now db = (Inr u, db1)" "unique_on u_id (users db)"
    "unique_on u_walletAddress (users db)"
  shows "u \<in> set (users db1)" "u_walletAddress u = w" "u_walletHash u = hashed sv w"
    "find_row (\<lambda>x. u_walletAddress x = w) (users db) = Some x \<Longrightarrow> u_status u = u_status x \<and> u_id u = u_id x"
    "find_row (\<lambda>x. u_walletAddress x = w) (users db) = None \<Longrightarrow> u_status u = RS_ACTIVE"
    "unique_on u_id (users db1)" "unique_on u_walletAddress (users db1)"
  using assms
  by (auto simp: upsert_user_def Let_def set_upd_rows unique_on_upd_rows unique_on_insert_row find_row_None
      split: if_splits option.splits dest!: find_row_Some intro!: rev_image_eqI)

interpretation challenge: one_shot "challenge_open cid wallet now" challenge_use
  by unfold_locales (simp add: challenge_open_def challenge_use_def)

lemma finish_verify_Inr:
  assumes "finish_verify sv i hs uid rid secret now db = (Inr (user, tok, sid, ex), db')"
  obtains c db1 db2 where "find_row (\<lambda>c. c_id c = v_challengeId i) (challenges db) = Some c"
    "check_binding sv i c = Inr ()" "verifyWalletSignature sv (v_walletAddress i) (c_message c) (v_signature i)"
    "find_row (\<lambda>u. u_walletAddress u = v_walletAddress i) (users db) = None \<or>
     canAuthenticate (u_status (the (find_row (\<lambda>u. u_walletAddress u = v_walletAddress i) (users db))))"
    "upsert_user sv (v_walletAddress i) uid now db = (Inr user, db1)"
    "create_session (sha256 sv) (auth_user user) DEFAULT_TTL_SECONDS hs now rid secret db1 = (Inr (tok, sid, ex), db2)"
    "db' = recordEvent sv CHALLENGE_VERIFIED (v_walletAddress i) (Some (v_challengeId i)) True None (v_clientMetadata i) now db2"
  using assms that
  by (auto simp: finish_verify_def Let_def split: option.split_asm sum.splits if_splits prod.splits)

lemma finish_verify_frame:
  assumes "finish_verify sv i hs uid rid secret now db = (r, db')"
  shows "challenges db' = challenges db \<and> rotations db' = rotations db"
  using assms
  by (auto simp: finish_verify_def Let_def
      split: option.splits sum.splits if_splits prod.splits dest!: upsert_user_frame create_session_frame)

lemma verifyChallenge_Inr:
  assumes "verifyChallenge sv i hs uid rid secret now db = (Inr x, db')"
  shows "isValidWalletAddress sv (v_walletAddress i)"
    "0 < count_rows (challenge_open (v_challengeId i) (v_walletAddress i) now) (challenges db)"
    "finish_verify sv i hs uid rid secret now
       (db\<lparr>challenges := upd_rows (challenge_open (v_challengeId i) (v_walletAddress i) now) (challenge_use now) (challenges db)\<rparr>)
     = (Inr x, db')"
  using assms
  by (auto simp: verifyChallenge_def Let_def update_many_def split: if_splits prod.splits sum.splits
      dest!: checkVerificationLimit_frame(5))

lemma check_binding_Inr:
  "check_binding sv i c = Inr () \<Longrightarrow> c_networkPassphrase c = Some (networkPassphrase sv) \<and>
     (\<exists>origin. c_origin c = Some origin \<and>
        normalizeOrigin (parse_url sv) (or_else (v_requestOrigin i) (appUrl sv)) = Inr origin)"
  by (auto simp: check_binding_def split: if_splits sum.splits)

lemma used_challenge_from_open:
  assumes "unique_on c_id cs" "0 < count_rows (challenge_open cid w now) cs"
    "find_row (\<lambda>c. c_id c = cid) (upd_rows (challenge_open cid w now) (challenge_use now) cs) = Some c"
  obtains c0 where "c0 \<in> set cs" "challenge_open cid w now c0" "c = challenge_use now c0"
proof -
  from assms(2) obtain c0 where c0: "c0 \<in> set cs" "challenge_open cid w now c0"
    by (auto simp: count_rows_pos)
  then have "find_row (\<lambda>c. c_id c = cid) cs = Some c0"
    using find_row_unique [OF assms(1) c0(1)] by (simp add: challenge_open_def)
  then have "c = challenge_use now c0"
    using assms(3) c0 by (simp add: find_row_upd_rows_keyed challenge_use_def)
  with c0 that show thesis by blast
qed

text \<open>What a sign-in leaves behind: the account and a live session for it.\<close>

lemma finish_verify_live:
  assumes "finish_verify sv i hs uid rid secret now db = (Inr (user, tok, sid, ex), db')"
    "unique_on u_id (users db)" "unique_on u_walletAddress (users db)" "sessions_inv (sessions db)"
  obtains s where "s \<in> set (sessions db')" "s_tokenHash s = sha256 sv tok" "s_id s = sid" "s_userId s = u_id user"
    "s_revokedAt s = None" "s_expiresAt s = ex" "s_walletHash s = Some (u_walletHash user)"
    "sessions_inv (sessions db')" "unique_on u_id (users db')" "user \<in> set (users db')"
    "canAuthenticate (u_status user)" "u_walletAddress user = v_walletAddress i"
    "ex = now + DEFAULT_TTL_SECONDS * 1000"
proof -
  from assms(1) obtain c db1 db2 where
    ok: "find_row (\<lambda>u. u_walletAddress u = v_walletAddress i) (users db) = None \<or>
     canAuthenticate (u_status (the (find_row (\<lambda>u. u_walletAddress u = v_walletAddress i) (users db))))"
    and up: "upsert_user sv (v_walletAddress i) uid now db = (Inr user, db1)"
    and cr: "create_session (sha256 sv) (auth_user user) DEFAULT_TTL_SECONDS hs now rid secret db1 = (Inr (tok, sid, ex), db2)"
    and db': "db' = recordEvent sv CHALLENGE_VERIFIED (v_walletAddress i) (Some (v_challengeId i)) True None (v_clientMetadata i) now db2"
    by (rule finish_verify_Inr)
  note u = upsert_user_Inr [OF up assms(2,3)]
  have auth: "canAuthenticate (u_status user)" using ok u(4,5) by fastforce
  have s1: "sessions db1 = sessions db" using upsert_user_frame [OF up] by simp
  have inv1: "sessions_inv (sessions db1)" using assms(4) s1 by simp
  show thesis
    using cr
  proof (cases rule: create_session_cases)
    case created
    let ?row = "new_session_row (auth_user user) hs now ex rid (sha256 sv tok)"
    have tok: "tok = rid @ ''.'' @ secret" "sid = rid" "ex = now + DEFAULT_TTL_SECONDS * 1000"
      using created(1) by auto
    have e: "db2 = db1\<lparr>sessions := insert_row ?row (sessions db1)\<rparr>" using created(3) tok by simp
    have inv: "sessions_inv (sessions db')"
      unfolding db' e using inv1 created(2) tok
      by (auto intro!: sessions_inv_insert simp: new_session_row_def)
    show thesis
      by (rule that [of ?row])
        (use inv auth u tok in \<open>auto simp: db' e new_session_row_def auth_user_def\<close>)
  qed simp
qed

text \<open>C10. A sign-in succeeds only for an unexpired, unused challenge of that wallet, bound to this
  network, carrying a valid signature of the stored message by the wallet's key; the token it returns
  is admitted by the guard until it expires, as the account holding the wallet.\<close>

theorem login_sound:
  assumes "verifyChallenge sv i hs uid rid secret now db = (Inr (user, tok, sid, ex), db')"
    "unique_on c_id (challenges db)" "unique_on u_id (users db)" "unique_on u_walletAddress (users db)"
    "sessions_inv (sessions db)" "token_format tok" "t < ex"
  shows "(\<exists>c\<in>set (challenges db). c_id c = v_challengeId i \<and> c_walletAddress c = v_walletAddress i \<and>
            c_usedAt c = None \<and> now < c_expiresAt c \<and> c_networkPassphrase c = Some (networkPassphrase sv) \<and>
            verifyWalletSignature sv (v_walletAddress i) (c_message c) (v_signature i)) \<and>
         fst (canActivate (sha256 sv) (Some (''Bearer '' @ tok)) t db') = Inr (sid, auth_user user) \<and>
         u_walletAddress user = v_walletAddress i"
proof (intro conjI)
  note v = verifyChallenge_Inr [OF assms(1)]
  let ?db = "db\<lparr>challenges := upd_rows (challenge_open (v_challengeId i) (v_walletAddress i) now)
               (challenge_use now) (challenges db)\<rparr>"
  from v(3) obtain c where c: "find_row (\<lambda>c. c_id c = v_challengeId i) (challenges ?db) = Some c"
    "check_binding sv i c = Inr ()" "verifyWalletSignature sv (v_walletAddress i) (c_message c) (v_signature i)"
    by (rule finish_verify_Inr)
  then obtain c0 where "c0 \<in> set (challenges db)" "challenge_open (v_challengeId i) (v_walletAddress i) now c0"
    "c = challenge_use now c0"
    using used_challenge_from_open [OF assms(2) v(2)] by auto
  then show "\<exists>c\<in>set (challenges db). c_id c = v_challengeId i \<and> c_walletAddress c = v_walletAddress i \<and>
            c_usedAt c = None \<and> now < c_expiresAt c \<and> c_networkPassphrase c = Some (networkPassphrase sv) \<and>
            verifyWalletSignature sv (v_walletAddress i) (c_message c) (v_signature i)"
    using c check_binding_Inr [OF c(2)]
    by (intro bexI [of _ c0]) (auto simp: challenge_open_def challenge_use_def)
  have frame: "users ?db = users db" "sessions ?db = sessions db" by simp_all
  from v(3) obtain s where s: "s \<in> set (sessions db')" "s_tokenHash s = sha256 sv tok" "s_id s = sid" "s_userId s = u_id user"
    "s_revokedAt s = None" "s_expiresAt s = ex" "s_walletHash s = Some (u_walletHash user)"
    "sessions_inv (sessions db')" "unique_on u_id (users db')" "user \<in> set (users db')"
    "canAuthenticate (u_status user)" "u_walletAddress user = v_walletAddress i"
    by (rule finish_verify_live) (use assms(3-5) frame in auto)
  then show "u_walletAddress user = v_walletAddress i" by simp
  show "fst (canActivate (sha256 sv) (Some (''Bearer '' @ tok)) t db') = Inr (sid, auth_user user)"
    using canActivate_live [OF s(8,9), of tok s "sha256 sv" t user] s assms(6,7) by (simp add: auth_user_def)
qed

definition sample_url :: url where
  "sample_url = \<lparr>url_username = [], url_password = [], url_protocol = ''https:'',
                 url_hostname = ''app'', url_port = []\<rparr>"

definition sample_service :: auth_service where
  "sample_service =
     \<lparr>sha256 = (\<lambda>s. s), isValidWalletAddress = (\<lambda>w. w \<noteq> []),
      verifyWalletSignature = (\<lambda>w m g. g = w @ m), parse_url = (\<lambda>_. Some sample_url),
      appUrl = ''https://app'', networkPassphrase = ''net'',
      limits = \<lparr>maxChallengeCreations = 10, challengeCreationWindowMs = 900000,
                maxVerifications = 5, verificationWindowMs = 900000\<rparr>\<rparr>"

definition sample_challenge :: challenge_row where
  "sample_challenge =
     \<lparr>c_id = ''c1'', c_walletAddress = ''G1'', c_nonceHash = ''n'', c_message = ''m'', c_expiresAt = 300000,
      c_usedAt = None, c_networkPassphrase = Some ''net'', c_origin = Some ''https://app''\<rparr>"

definition sample_input :: verify_input where
  "sample_input = \<lparr>v_challengeId = ''c1'', v_walletAddress = ''G1'', v_signature = ''G1m'',
                   v_clientMetadata = None, v_requestOrigin = None\<rparr>"

definition sample_login_db :: auth_db where
  "sample_login_db = sample_db\<lparr>challenges := [sample_challenge]\<rparr>"

lemma sample_normalizeOrigin:
  "normalizeOrigin (parse_url sample_service) (or_else None (appUrl sample_service)) = Inr ''https://app''"
  by (simp add: normalizeOrigin_def sample_service_def or_else_def sample_url_def trim_def is_space_def
      toLowerCase_def lower_char_def Let_def)

lemma sample_finish_verify:
  "\<exists>db'. finish_verify sample_service sample_input None ''new'' (replicate 16 CHR ''A'') sample_secret 10
     (sample_login_db\<lparr>challenges := [sample_challenge\<lparr>c_usedAt := Some 10\<rparr>]\<rparr>)
   = (Inr ((hd (users sample_db))\<lparr>u_walletHash := ''sha256:G1'', u_lastLoginAt := Some 10\<rparr>,
           replicate 16 CHR ''A'' @ ''.'' @ sample_secret, replicate 16 CHR ''A'', 43200010), db')"
  using sample_normalizeOrigin
  by (simp add: finish_verify_def Let_def sample_input_def find_row_def check_binding_def sample_challenge_def
      upsert_user_def create_session_def generateToken_def insert_session_def sample_login_db_def
      sample_db_def hashed_def DEFAULT_TTL_SECONDS_def auth_user_def new_session_row_def numeral_eq_Suc
      sample_service_def)

lemma sample_verifyChallenge:
  "\<exists>db'. verifyChallenge sample_service sample_input None ''new'' (replicate 16 CHR ''A'') sample_secret 10 sample_login_db
   = (Inr ((hd (users sample_db))\<lparr>u_walletHash := ''sha256:G1'', u_lastLoginAt := Some 10\<rparr>,
           replicate 16 CHR ''A'' @ ''.'' @ sample_secret, replicate 16 CHR ''A'', 43200010), db')"
proof -
  have "checkVerificationLimit sample_service ''G1'' None 10 sample_login_db = (Inr (), sample_login_db)"
    by (simp add: checkVerificationLimit_def getEventCount_def count_rows_def sample_login_db_def
        sample_db_def sample_service_def)
  moreover have "update_many (challenge_open ''c1'' ''G1'' 10) (challenge_use 10) (challenges sample_login_db)
      = ([sample_challenge\<lparr>c_usedAt := Some 10\<rparr>], 1)"
    by (simp add: update_many_def upd_rows_def count_rows_def challenge_open_def challenge_use_def
        sample_login_db_def sample_challenge_def)
  moreover have "isValidWalletAddress sample_service ''G1''" by (simp add: sample_service_def)
  ultimately show ?thesis
    using sample_finish_verify by (simp add: verifyChallenge_def sample_input_def)
qed

theorem login_sound_witness:
  "\<exists>user tok sid ex db'.
     verifyChallenge sample_service sample_input None ''new'' (replicate 16 CHR ''A'') sample_secret 10 sample_login_db
       = (Inr (user, tok, sid, ex), db') \<and>
     fst (canActivate (sha256 sample_service) (Some (''Bearer '' @ tok)) 20 db') = Inr (sid, auth_user user)"
proof -
  obtain db' where v: "verifyChallenge sample_service sample_input None ''new'' (replicate 16 CHR ''A'')
      sample_secret 10 sample_login_db
    = (Inr ((hd (users sample_db))\<lparr>u_walletHash := ''sha256:G1'', u_lastLoginAt := Some 10\<rparr>,
           replicate 16 CHR ''A'' @ ''.'' @ sample_secret, replicate 16 CHR ''A'', 43200010), db')"
    using sample_verifyChallenge by blast
  have "unique_on c_id (challenges sample_login_db)" "unique_on u_id (users sample_login_db)"
    "unique_on u_walletAddress (users sample_login_db)" "sessions_inv (sessions sample_login_db)"
    by (simp_all add: unique_on_def sessions_inv_def sample_login_db_def sample_db_def)
  from login_sound [OF v this sample_token_format, of 20] v show ?thesis by auto
qed

lemma finish_verify_failed_events:
  assumes "finish_verify sv i hs uid rid secret now db = (Inl e, db')"
  shows "filter (\<lambda>e. e_eventType e = CHALLENGE_VERIFIED) (auth_events db') =
         filter (\<lambda>e. e_eventType e = CHALLENGE_VERIFIED) (auth_events db)"
  using assms
  by (auto simp: finish_verify_def Let_def recordEvent_def insert_row_def
      split: option.splits sum.splits if_splits prod.splits
      dest!: upsert_user_frame create_session_frame)

lemma count_rows_filter_cong:
  "filter q t = filter q t' \<Longrightarrow> (\<And>r. p r \<Longrightarrow> q r) \<Longrightarrow> count_rows p t = count_rows p t'"
proof -
  assume *: "filter q t = filter q t'" "\<And>r. p r \<Longrightarrow> q r"
  have "filter p (filter q xs) = filter p xs" for xs
    using *(2) by (simp add: conj_absorb filter_filter) (metis (mono_tags, lifting) filter_cong *(2))
  then show ?thesis unfolding count_rows_def by (metis *(1))
qed

lemma verifyChallenge_failed_events:
  assumes "verifyChallenge sv i hs uid rid secret now db = (Inl e, db')"
  shows "filter (\<lambda>e. e_eventType e = CHALLENGE_VERIFIED) (auth_events db') =
         filter (\<lambda>e. e_eventType e = CHALLENGE_VERIFIED) (auth_events db)"
  using assms
  by (auto simp: verifyChallenge_def checkVerificationLimit_def Let_def recordEvent_def insert_row_def update_many_def
      split: if_splits prod.splits sum.splits dest!: finish_verify_failed_events)

text \<open>C39. A failed verification is never counted: after any attempt that throws (a wrong signature,
  an expired, replayed or unknown challenge, a mismatched origin), the verification limiter decides for
  every wallet, client and instant exactly as before it.\<close>

theorem failed_verification_uncounted:
  assumes "verifyChallenge sv i hs uid rid secret now db = (Inl e, db')"
  shows "fst (checkVerificationLimit sv w meta t db') = fst (checkVerificationLimit sv w meta t db)"
proof -
  note f = count_rows_filter_cong [OF verifyChallenge_failed_events [OF assms]]
  have "getEventCount sv w CHALLENGE_VERIFIED win t db' = getEventCount sv w CHALLENGE_VERIFIED win t db" for win
    unfolding getEventCount_def by (rule f) simp
  moreover have "getClientEventCount sv m CHALLENGE_VERIFIED win t db' =
      getClientEventCount sv m CHALLENGE_VERIFIED win t db" for m win
    unfolding getClientEventCount_def by (rule f) simp
  ultimately show ?thesis by (simp add: checkVerificationLimit_def Let_def)
qed

theorem failed_verification_uncounted_witness:
  "\<exists>e db'. verifyChallenge sample_service (sample_input\<lparr>v_walletAddress := ''G2''\<rparr>) None ''new'' [] [] 10 sample_login_db
            = (Inl e, db') \<and>
      fst (checkVerificationLimit sample_service ''G2'' None 11 db')
        = fst (checkVerificationLimit sample_service ''G2'' None 11 sample_login_db)"
proof -
  let ?v = "verifyChallenge sample_service (sample_input\<lparr>v_walletAddress := ''G2''\<rparr>) None ''new'' [] [] 10 sample_login_db"
  have "\<exists>e. fst ?v = Inl e"
    by (simp add: verifyChallenge_def checkVerificationLimit_def getEventCount_def count_rows_def update_many_def
        upd_rows_def challenge_open_def sample_login_db_def sample_db_def sample_service_def sample_input_def
        sample_challenge_def Let_def)
  then obtain e db' where v: "?v = (Inl e, db')" by (metis prod.collapse)
  with failed_verification_uncounted [OF v] show ?thesis by blast
qed

text \<open>L. An accepted origin is served over TLS or is the local host: the canonical string starts with
  \<open>https://\<close>, \<open>http://localhost\<close> or \<open>http://127.0.0.1\<close>, and carries no credentials of the input.\<close>

theorem normalizeOrigin_scheme:
  assumes "normalizeOrigin parse raw = Inr origin"
  shows "starts_with origin ''https://'' \<or> starts_with origin ''http://localhost'' \<or>
         starts_with origin ''http://127.0.0.1''"
  using assms
  by (auto simp: normalizeOrigin_def starts_with_def Let_def toLowerCase_def lower_char_def
      split: if_splits option.splits)

theorem normalizeOrigin_scheme_witness:
  "normalizeOrigin (parse_url sample_service) ''https://app'' = Inr ''https://app'' \<and>
   (starts_with ''https://app'' ''https://'' \<or> starts_with ''https://app'' ''http://localhost'' \<or>
    starts_with ''https://app'' ''http://127.0.0.1'')"
proof -
  have "normalizeOrigin (parse_url sample_service) ''https://app'' = Inr ''https://app''"
    using sample_normalizeOrigin by (simp add: or_else_def sample_service_def)
  with normalizeOrigin_scheme [OF this] show ?thesis by blast
qed

end
