(* ===== verification/WalletRotation.thy ===== *)
theory WalletRotation
  imports Login
begin

text \<open>
  Wallet rotation, \<open>auth/wallet-rotation.service.ts\<close>: the two-step protocol that moves an
  account to a replacement wallet with signatures of both keys, and \<open>auth_step\<close>, one
  atomic request against the account store, over which the session and challenge
  guarantees are proved.
\<close>

definition WALLET_ROTATION_TTL_MS :: int where
  "WALLET_ROTATION_TTL_MS = 5 * 60 * 1000"

definition WALLET_ROTATED_ACTION :: string where
  "WALLET_ROTATED_ACTION = ''user.wallet_rotated''"

datatype rotation_signer = SignerCurrent | SignerReplacement

record rotation_binding =
  b_rotationId :: ident
  b_nonce :: string
  b_origin :: string
  b_userId :: ident
  b_currentWalletAddress :: string
  b_newWalletAddress :: string
  b_expiresAt :: time_ms

definition buildMessage :: "auth_service \<Rightarrow> rotation_binding \<Rightarrow> rotation_signer \<Rightarrow> string" where
  "buildMessage sv b sg =
     join newline
       [''EarnProof wallet rotation'',
        ''Signer: '' @ (if sg = SignerCurrent then ''current wallet'' else ''replacement wallet''),
        ''Domain: '' @ appUrl sv,
        ''Origin: '' @ b_origin b,
        ''Network: '' @ networkPassphrase sv,
        ''Account: '' @ b_userId b,
        ''Current Wallet: '' @ b_currentWalletAddress b,
        ''Replacement Wallet: '' @ b_newWalletAddress b,
        ''Rotation: '' @ b_rotationId b,
        ''Nonce: '' @ b_nonce b,
        ''Expires At: '' @ toISOString (b_expiresAt b)]"

definition resolveOrigin ::
  "auth_service \<Rightarrow> string option \<Rightarrow> (string \<Rightarrow> http_error) \<Rightarrow> (http_error, string) result" where
  "resolveOrigin sv req onInvalid =
     (case normalizeOrigin (parse_url sv) (or_else req (appUrl sv)) of
        Inl r \<Rightarrow> Inl (onInvalid (''Invalid origin: '' @ rejection_name r))
      | Inr origin \<Rightarrow> Inr origin)"

definition supersede :: "rotation_row \<Rightarrow> rotation_row" where
  "supersede r = r\<lparr>r_status := ROT_CANCELLED, r_failureReason := Some SUPERSEDED\<rparr>"

definition initiate ::
  "auth_service \<Rightarrow> authenticated_user \<Rightarrow> string \<Rightarrow> string option \<Rightarrow> ident \<Rightarrow> string \<Rightarrow> time_ms \<Rightarrow> auth_db
   \<Rightarrow> (http_error, ident \<times> string \<times> string \<times> time_ms) result \<times> auth_db" where
  "initiate sv user newWallet reqOrigin rid nonce now db =
     (if \<not> isValidWalletAddress sv newWallet then (Inl (BadRequest ''Invalid Stellar public key''), db)
      else if newWallet = a_walletAddress user
      then (Inl (BadRequest ''Replacement wallet must differ from the current wallet''), db)
      else case resolveOrigin sv reqOrigin BadRequest of
        Inl e \<Rightarrow> (Inl e, db)
      | Inr origin \<Rightarrow>
          let expires = now + WALLET_ROTATION_TTL_MS;
              b = \<lparr>b_rotationId = rid, b_nonce = nonce, b_origin = origin, b_userId = a_id user,
                   b_currentWalletAddress = a_walletAddress user, b_newWalletAddress = newWallet,
                   b_expiresAt = expires\<rparr>;
              cur = buildMessage sv b SignerCurrent;
              new = buildMessage sv b SignerReplacement;
              row = \<lparr>r_id = rid, r_userId = a_id user, r_currentWalletAddress = a_walletAddress user,
                     r_newWalletAddress = newWallet, r_nonceHash = sha256 sv nonce, r_currentMessage = cur,
                     r_newMessage = new, r_networkPassphrase = networkPassphrase sv, r_origin = origin,
                     r_status = ROT_PENDING, r_failureReason = None, r_expiresAt = expires,
                     r_consumedAt = None, r_completedAt = None\<rparr>;
              rs = upd_rows (\<lambda>r. r_userId r = a_id user \<and> r_status r = ROT_PENDING) supersede (rotations db)
          in if \<exists>r\<in>set (rotations db). r_id r = rid \<or> r_nonceHash r = sha256 sv nonce
             then (Inl UniqueViolation, db)
             else (Inr (rid, cur, new, expires), db\<lparr>rotations := insert_row row rs\<rparr>))"

definition rotation_open :: "ident \<Rightarrow> ident \<Rightarrow> time_ms \<Rightarrow> rotation_row \<Rightarrow> bool" where
  "rotation_open rid uid now r \<longleftrightarrow>
     r_id r = rid \<and> r_userId r = uid \<and> r_status r = ROT_PENDING \<and> r_consumedAt r = None \<and> now < r_expiresAt r"

definition rotation_consume :: "time_ms \<Rightarrow> rotation_row \<Rightarrow> rotation_row" where
  "rotation_consume now r = r\<lparr>r_consumedAt := Some now\<rparr>"

text \<open>\<open>fail\<close>: marks a consumed rotation as failed.\<close>

definition fail_rotation :: "ident \<Rightarrow> rotation_failure \<Rightarrow> auth_db \<Rightarrow> auth_db" where
  "fail_rotation rid why db =
     db\<lparr>rotations := upd_rows (\<lambda>r. r_id r = rid \<and> r_status r = ROT_PENDING)
                        (\<lambda>r. r\<lparr>r_status := ROT_FAILED, r_failureReason := Some why\<rparr>) (rotations db)\<rparr>"

datatype rotation_commit = CommitUnavailable | CommitIdentityChanged | Committed nat auth_db

text \<open>
  The transaction.  A unique-key violation inside it, of the user columns or of the audit row, is
  reported as an unavailable replacement.
\<close>

definition commit_rotation ::
  "auth_service \<Rightarrow> ident \<Rightarrow> ident \<Rightarrow> rotation_row \<Rightarrow> ident \<Rightarrow> time_ms \<Rightarrow> auth_db \<Rightarrow> rotation_commit" where
  "commit_rotation sv uid rid r aid now db =
     (let prevHash = hashed sv (r_currentWalletAddress r);
          newHash = hashed sv (r_newWalletAddress r)
      in if find_row (\<lambda>u. u_walletAddress u = r_newWalletAddress r) (users db) \<noteq> None then CommitUnavailable
         else
           let (us, n) = update_many (\<lambda>u. u_id u = uid \<and> u_walletAddress u = r_currentWalletAddress r)
                 (\<lambda>u. u\<lparr>u_walletAddress := r_newWalletAddress r, u_walletHash := newHash\<rparr>) (users db)
           in if 0 < n \<and> (\<exists>u\<in>set (users db). u_id u \<noteq> uid \<and> u_walletHash u = newHash) then CommitUnavailable
              else if n \<noteq> 1 then CommitIdentityChanged
              else
                let (ss, revoked) = revoke_live_sessions uid now (sessions db);
                    rs1 = upd_rows (\<lambda>x. r_id x = rid)
                            (\<lambda>x. x\<lparr>r_status := ROT_COMPLETED, r_completedAt := Some now\<rparr>) (rotations db);
                    rs2 = upd_rows (\<lambda>x. r_userId x = uid \<and> r_status x = ROT_PENDING \<and> r_id x \<noteq> rid) supersede rs1
                in case tx_audit_create aid (user_audit uid WALLET_ROTATED_ACTION uid
                       [(''rotationId'', JStr rid), (''previousWalletHash'', JStr prevHash),
                        (''newWalletHash'', JStr newHash), (''sessionsRevoked'', JInt (int revoked))]) now (audit_logs db) of
                     Inl _ \<Rightarrow> CommitUnavailable
                   | Inr logs \<Rightarrow>
                       Committed revoked (db\<lparr>users := us, sessions := ss, rotations := rs2, audit_logs := logs\<rparr>))"

definition complete ::
  "auth_service \<Rightarrow> authenticated_user \<Rightarrow> ident \<Rightarrow> string \<Rightarrow> string \<Rightarrow> string option \<Rightarrow> ident \<Rightarrow> time_ms \<Rightarrow> auth_db
   \<Rightarrow> (http_error, string \<times> nat) result \<times> auth_db" where
  "complete sv user rid curSig newSig reqOrigin aid now db =
     (let (rs, n) = update_many (rotation_open rid (a_id user) now) (rotation_consume now) (rotations db);
          db1 = db\<lparr>rotations := rs\<rparr>
      in if n \<noteq> 1 then (Inl (Unauthorized ''Rotation is expired or unavailable''), db1)
         else case find_row (\<lambda>r. r_id r = rid) (rotations db1) of
           None \<Rightarrow> (Inl (Unauthorized ''Rotation is expired or unavailable''), db1)
         | Some r \<Rightarrow>
             if r_networkPassphrase r \<noteq> networkPassphrase sv
             then (Inl (Unauthorized ''Rotation network mismatch''), fail_rotation rid NETWORK_MISMATCH db1)
             else case resolveOrigin sv reqOrigin Unauthorized of
               Inl e \<Rightarrow> (Inl e, fail_rotation rid ORIGIN_MISMATCH db1)
             | Inr origin \<Rightarrow>
                 if r_origin r \<noteq> origin
                 then (Inl (Unauthorized ''Rotation origin mismatch''), fail_rotation rid ORIGIN_MISMATCH db1)
                 else if r_currentWalletAddress r \<noteq> a_walletAddress user
                 then (Inl (Conflict ''Account wallet changed since the rotation began''),
                       fail_rotation rid IDENTITY_CHANGED db1)
                 else if \<not> verifyWalletSignature sv (r_currentWalletAddress r) (r_currentMessage r) curSig
                 then (Inl (Unauthorized ''Invalid signature for the current wallet''),
                       fail_rotation rid CURRENT_SIGNATURE_INVALID db1)
                 else if \<not> verifyWalletSignature sv (r_newWalletAddress r) (r_newMessage r) newSig
                 then (Inl (Unauthorized ''Invalid signature for the replacement wallet''),
                       fail_rotation rid REPLACEMENT_SIGNATURE_INVALID db1)
                 else case commit_rotation sv (a_id user) rid r aid now db1 of
                   CommitUnavailable \<Rightarrow>
                     (Inl (Conflict ''Replacement wallet is already bound to an account''),
                      fail_rotation rid REPLACEMENT_UNAVAILABLE db1)
                 | CommitIdentityChanged \<Rightarrow>
                     (Inl (Conflict ''Account wallet changed since the rotation began''),
                      fail_rotation rid IDENTITY_CHANGED db1)
                 | Committed revoked db2 \<Rightarrow> (Inr (r_newWalletAddress r, revoked), db2))"

subsection \<open>Requests as steps\<close>

text \<open>
  One atomic request.  \<open>verifyChallenge\<close> is also split at its two database steps, the
  consumption of the challenge and what follows it, so that other requests may run in
  between.  \<open>spent\<close> is a set of token hashes that no newly drawn token has.
\<close>

inductive auth_step :: "auth_service \<Rightarrow> string set \<Rightarrow> auth_db \<Rightarrow> auth_db \<Rightarrow> bool"
  for sv :: auth_service and spent :: "string set" where
  step_challenge: "auth_step sv spent db (snd (createChallenge sv w meta org nonce cid now db))"
| step_consume: "auth_step sv spent db
     (db\<lparr>challenges := upd_rows (challenge_open cid w now) (challenge_use now) (challenges db)\<rparr>)"
| step_finish: "sha256 sv (rid @ ''.'' @ secret) \<notin> spent \<Longrightarrow>
     auth_step sv spent db (snd (finish_verify sv i hs uid rid secret now db))"
| step_verify: "sha256 sv (rid @ ''.'' @ secret) \<notin> spent \<Longrightarrow>
     auth_step sv spent db (snd (verifyChallenge sv i hs uid rid secret now db))"
| step_guard: "auth_step sv spent db (snd (canActivate (sha256 sv) hdr now db))"
| step_logout: "auth_step sv spent db (logout sid now db)"
| step_rotate: "sha256 sv (rid @ ''.'' @ secret) \<notin> spent \<Longrightarrow>
     auth_step sv spent db (snd (rotate_session (sha256 sv) sid user ttl hs now rid secret db))"
| step_revoke_all: "auth_step sv spent db (revokeAll uid now db)"
| step_revoke_other: "auth_step sv spent db (snd (revokeOtherSession sid uid why now db))"
| step_revoke_others: "auth_step sv spent db (snd (revokeAllOtherSessions uid cur why now db))"
| step_rename: "auth_step sv spent db (snd (renameForUser uid sid label db))"
| step_delete_expired: "auth_step sv spent db (snd (deleteExpired older db))"
| step_status: "auth_step sv spent db (snd (changeStatus actor uid st why aid now db))"
| step_role: "auth_step sv spent db (snd (changeRole actor uid role aid now db))"
| step_profile: "auth_step sv spent db (snd (updateProfile uid name db))"
| step_initiate: "auth_step sv spent db (snd (initiate sv user wallet org rid nonce now db))"
| step_complete: "auth_step sv spent db (snd (complete sv user rid s1 s2 org aid now db))"
| step_cleanup: "auth_step sv spent db (snd (cleanupOldEvents days now db))"

subsection \<open>Facts\<close>

interpretation wrot: one_shot "rotation_open rid uid now" rotation_consume
  by unfold_locales (simp add: rotation_open_def rotation_consume_def)

text \<open>How a step may change the session table: rows are touched, revoked, deleted or added with a
  token hash outside \<open>spent\<close>.\<close>

inductive table_step :: "string set \<Rightarrow> session_row table \<Rightarrow> session_row table \<Rightarrow> bool" for spent where
  same: "table_step spent t t"
| upd: "keeps_session f \<Longrightarrow> table_step spent t (upd_rows p f t)"
| del: "table_step spent t (filter p t)"
| ins: "s_tokenHash row \<notin> spent \<Longrightarrow> table_step spent t (insert_row row t)"
| ins_upd: "s_tokenHash row \<notin> spent \<Longrightarrow> keeps_session f \<Longrightarrow>
     table_step spent t (upd_rows p f (insert_row row t))"

lemma table_step_dead:
  assumes "table_step spent t t'" "h \<in> spent" "dead_token h t"
  shows "dead_token h t'"
  using assms
  by induction (auto intro: dead_token_upd dead_token_insert sessions_filter)

lemma create_session_step:
  assumes "create_session sha user ttl hs now rid secret db = (r, db')" "sha (rid @ ''.'' @ secret) \<notin> spent"
  shows "table_step spent (sessions db) (sessions db')"
  using assms by (auto elim!: create_session_cases intro!: table_step.intros simp: new_session_row_def)

lemma finish_verify_step:
  assumes "sha256 sv (rid @ ''.'' @ secret) \<notin> spent"
  shows "table_step spent (sessions db) (sessions (snd (finish_verify sv i hs uid rid secret now db)))"
  using assms
  by (auto simp: finish_verify_def Let_def split: option.splits sum.splits if_splits prod.splits
      intro: table_step.same dest!: upsert_user_frame dest: create_session_step)

lemma verifyChallenge_step:
  assumes "sha256 sv (rid @ ''.'' @ secret) \<notin> spent"
  shows "table_step spent (sessions db) (sessions (snd (verifyChallenge sv i hs uid rid secret now db)))"
proof (cases "checkVerificationLimit sv (v_walletAddress i) (v_clientMetadata i) now db")
  case (Pair r db1)
  then have "sessions db1 = sessions db" by (rule checkVerificationLimit_frame)
  with Pair finish_verify_step [OF assms, of "db1\<lparr>challenges := c\<rparr>" i hs uid now for c] show ?thesis
    by (auto simp: verifyChallenge_def Let_def update_many_def table_step.same split: sum.splits)
qed

lemma rotate_step:
  assumes "sha256 sv (rid @ ''.'' @ secret) \<notin> spent"
  shows "table_step spent (sessions db) (sessions (snd (rotate_session (sha256 sv) sid user ttl hs now rid secret db)))"
proof (cases "rotate_session (sha256 sv) sid user ttl hs now rid secret db")
  case (Pair r db')
  show ?thesis
  proof (cases r)
    case (Inl e)
    with Pair show ?thesis by (auto simp: table_step.same dest: rotate_InlD)
  next
    case (Inr p)
    obtain tok nsid ex where p: "p = (tok, nsid, ex)" by (cases p)
    show ?thesis
      using rotate_InrD [OF Pair [unfolded Inr p]] assms Pair
      by (auto intro!: table_step.ins_upd simp: session_keep new_session_row_def)
  qed
qed

lemma commit_rotation_step:
  "commit_rotation sv uid rid r aid now db = Committed n db' \<Longrightarrow> table_step spent (sessions db) (sessions db')"
  by (auto simp: commit_rotation_def Let_def update_many_def revoke_live_sessions_def
      intro!: table_step.upd split: if_splits sum.splits) (simp add: session_keep)

lemma fail_rotation_frame [simp]:
  "sessions (fail_rotation rid why db) = sessions db" "users (fail_rotation rid why db) = users db"
  "challenges (fail_rotation rid why db) = challenges db"
  by (simp_all add: fail_rotation_def)

lemma complete_step: "table_step spent (sessions db) (sessions (snd (complete sv user rid s1 s2 org aid now db)))"
  by (auto simp: complete_def update_many_def Let_def table_step.same dest: commit_rotation_step
      split: option.splits sum.splits rotation_commit.splits)

lemma canActivate_snd: "\<exists>sid. snd (canActivate sha hdr now db) = db \<or> snd (canActivate sha hdr now db) = touch_session sid now db"
  by (auto simp: canActivate_def validate_def split: option.splits sum.splits prod.splits if_splits)

lemma touch_step: "table_step spent (sessions db) (sessions (touch_session sid now db))"
  by (auto simp: touch_session_def intro!: table_step.upd) (simp add: session_keep)

lemma changeStatus_step:
  "table_step spent (sessions db) (sessions (snd (changeStatus actor uid st why aid now db)))"
proof (cases "changeStatus actor uid st why aid now db")
  case (Pair r db')
  show ?thesis
  proof (cases r)
    case (Inl e)
    with Pair show ?thesis by (auto simp: table_step.same dest: changeStatus_Inl)
  next
    case (Inr p)
    obtain u prev n where p: "p = (u, prev, n)" by (cases p)
    show ?thesis
      using changeStatus_Inr [OF Pair [unfolded Inr p]] Pair
      by (auto simp: revoke_live_sessions_fst table_step.same intro!: table_step.upd) (simp add: session_keep)
  qed
qed

lemma changeRole_step: "sessions (snd (changeRole actor uid role aid now db)) = sessions db"
  by (simp add: changeRole_def Let_def update_many_def split: option.splits sum.splits)

lemma createChallenge_sessions: "sessions (snd (createChallenge sv w meta org nonce cid now db)) = sessions db"
  by (auto simp: createChallenge_def Let_def split: prod.splits sum.splits if_splits
      dest: checkChallengeCreationLimit_frame)

lemma updateProfile_sessions: "sessions (snd (updateProfile uid name db)) = sessions db"
  by (cases name) (simp_all split: option.splits)

lemma auth_step_table: "auth_step sv spent db db' \<Longrightarrow> table_step spent (sessions db) (sessions db')"
proof (induction rule: auth_step.induct)
  case (step_guard db hdr now)
  then show ?case
    using canActivate_snd [of "sha256 sv" hdr now db] touch_step by (metis table_step.same)
next
  case (step_revoke_other db sid uid why now)
  then show ?case
    by (auto simp: revokeOtherSession_def table_step.same session_keep split: option.splits intro!: table_step.upd)
next
  case (step_revoke_others db uid cur why now)
  then show ?case
    by (auto simp: revokeAllOtherSessions_def update_many_def table_step.same session_keep
        split: option.splits intro!: table_step.upd)
next
  case (step_initiate db user wallet org rid nonce now)
  then show ?case
    by (auto simp: initiate_def Let_def table_step.same split: sum.splits)
qed (auto simp: createChallenge_sessions changeRole_step updateProfile_sessions logout_def revoke_def revokeAll_def
      revoke_live_sessions_fst renameForUser_def update_many_def deleteExpired_def delete_many_def cleanupOldEvents_def
      Let_def session_keep
      intro: table_step.intros finish_verify_step verifyChallenge_step rotate_step complete_step changeStatus_step)

lemma steps_dead:
  assumes "(auth_step sv spent)\<^sup>*\<^sup>* db db'" "h \<in> spent" "dead_token h (sessions db)"
  shows "dead_token h (sessions db')"
  using assms(1,3)
  by (induction rule: rtranclp_induct) (auto dest: auth_step_table intro: table_step_dead [OF _ assms(2)])

lemma canActivate_dead:
  assumes "dead_token (sha tok) (sessions db)"
  shows "\<exists>e. canActivate sha (Some (''Bearer '' @ tok)) now db = (Inl e, db)"
  using validate_dead [of sha tok db now] assms by (auto simp: canActivate_def starts_with_def)

text \<open>C12. A revoked session never comes back: once every session row of a token is revoked, the guard
  refuses the token at every instant, after any sequence of requests (logins, rotations, status
  changes, wallet rotations, clean-ups, ...) that does not draw that very token again.\<close>

theorem revoked_session_never_returns:
  assumes "dead_token (sha256 sv tok) (sessions db)" "(auth_step sv {sha256 sv tok})\<^sup>*\<^sup>* db db'"
  shows "\<exists>e. canActivate (sha256 sv) (Some (''Bearer '' @ tok)) now db' = (Inl e, db')"
  by (rule canActivate_dead) (rule steps_dead [OF assms(2) _ assms(1)], simp)

theorem revoked_session_never_returns_witness:
  "\<exists>e. canActivate (sha256 sample_service) (Some (''Bearer '' @ ''t1'')) 99 (logout ''s1'' 5 sample_db)
        = (Inl e, logout ''s1'' 5 sample_db)"
  by (rule revoked_session_never_returns [of _ _ "logout ''s1'' 5 sample_db"])
    (simp_all add: dead_token_def logout_def revoke_def upd_rows_def sample_db_def)

text \<open>C11. A status change that leaves the account suspended, revoked or reinstated ends every session
  the account had: no token issued before it is admitted in any later state, in particular not after
  a reinstatement.\<close>

theorem status_change_ends_sessions:
  assumes "changeStatus actor uid new why aid now db = (Inr (user, prev, n), db1)"
    "prev \<noteq> RS_PENDING \<or> new \<noteq> RS_ACTIVE"
    "sessions_inv (sessions db)" "s \<in> set (sessions db)" "s_userId s = uid" "s_tokenHash s = sha256 sv tok"
    "(auth_step sv {sha256 sv tok})\<^sup>*\<^sup>* db1 db2"
  shows "\<exists>e. canActivate (sha256 sv) (Some (''Bearer '' @ tok)) t db2 = (Inl e, db2)"
proof -
  note c = changeStatus_Inr [OF assms(1)]
  then have ss: "sessions db1 = fst (revoke_live_sessions uid now (sessions db))"
    using allowed_reaches_revoking [of prev new] assms(2) by auto
  have own: "x = s" if "x \<in> set (sessions db)" "s_tokenHash x = s_tokenHash s" for x
    using assms(3,4) that by (auto simp: sessions_inv_def intro: unique_on_eqD [of s_tokenHash "sessions db"])
  have "dead_token (sha256 sv tok) (sessions db1)"
    unfolding dead_token_def
  proof (intro ballI impI)
    fix x assume x: "x \<in> set (sessions db1)" "s_tokenHash x = sha256 sv tok"
    from x(1) obtain y where y: "y \<in> set (sessions db)" "s_tokenHash y = s_tokenHash x" "s_userId y = s_userId x"
      unfolding ss revoke_live_sessions_fst by (elim upd_rowsE) auto
    with x own [of y] assms(5,6) have "s_userId x = uid" by simp
    with x show "s_revokedAt x \<noteq> None" unfolding ss by (intro revoke_live_sessions_revoked)
  qed
  then have "dead_token (sha256 sv tok) (sessions db2)" by (intro steps_dead [OF assms(7)]) simp_all
  then show ?thesis by (rule canActivate_dead)
qed

theorem status_change_ends_sessions_witness:
  "\<exists>e. canActivate (sha256 sample_service) (Some (''Bearer '' @ ''t1'')) 50
        (snd (changeStatus sample_admin ''u1'' RS_SUSPENDED None ''a1'' 7 sample_db))
      = (Inl e, snd (changeStatus sample_admin ''u1'' RS_SUSPENDED None ''a1'' 7 sample_db))"
proof -
  obtain user n db1 where c: "changeStatus sample_admin ''u1'' RS_SUSPENDED None ''a1'' 7 sample_db = (Inr (user, RS_ACTIVE, n), db1)"
    by (simp add: changeStatus_def sample_admin_def sample_db_def find_row_def update_many_def upd_rows_def
        count_rows_def isAllowedStatusTransition_def Let_def tx_audit_create_def insert_audit_def seq_taken_def)
  show ?thesis
    unfolding c snd_conv
    by (rule status_change_ends_sessions [OF c, of sample_session])
      (simp_all add: sample_sessions sessions_inv_def unique_on_def sample_service_def)
qed

subsection \<open>Challenges are used once\<close>

definition challenge_spent :: "ident \<Rightarrow> challenge_row table \<Rightarrow> bool" where
  "challenge_spent cid t \<longleftrightarrow>
     (\<exists>c\<in>set t. c_id c = cid) \<and> (\<forall>c\<in>set t. c_id c = cid \<longrightarrow> c_usedAt c \<noteq> None)"

lemma challenge_spent_use:
  "challenge_spent cid t \<Longrightarrow> challenge_spent cid (upd_rows (challenge_open k w now) (challenge_use now) t)"
  by (fastforce simp: challenge_spent_def set_upd_rows challenge_use_def challenge_open_def)

lemma challenge_spent_after_use:
  assumes "unique_on c_id t" "0 < count_rows (challenge_open cid w now) t"
  shows "challenge_spent cid (upd_rows (challenge_open cid w now) (challenge_use now) t)"
proof -
  from assms(2) obtain c where c: "c \<in> set t" "challenge_open cid w now c" by (auto simp: count_rows_pos)
  have only: "x = c" if "x \<in> set t" "c_id x = cid" for x
    using assms(1) c that by (auto simp: challenge_open_def intro: unique_on_eqD [of c_id t])
  let ?t = "upd_rows (challenge_open cid w now) (challenge_use now) t"
  have "challenge_use now c \<in> set ?t" using c by (auto simp: set_upd_rows intro: rev_image_eqI)
  moreover have "c_id (challenge_use now c) = cid" using c by (simp add: challenge_use_def challenge_open_def)
  moreover have "c_usedAt x \<noteq> None" if "x \<in> set ?t" "c_id x = cid" for x
    using that(1)
  proof (rule upd_rowsE)
    fix r assume "x = challenge_use now r"
    then show ?thesis by (simp add: challenge_use_def)
  next
    assume "x \<in> set t" "\<not> challenge_open cid w now x"
    with only that(2) c show ?thesis by auto
  qed
  ultimately show ?thesis unfolding challenge_spent_def by blast
qed

lemma createChallenge_challenges:
  assumes "challenge_spent k (challenges db)"
  shows "challenge_spent k (challenges (snd (createChallenge sv w meta org nonce cid now db)))"
proof (cases "checkChallengeCreationLimit sv w meta now db")
  case (Pair r db1)
  then have "challenges db1 = challenges db" by (rule checkChallengeCreationLimit_frame)
  with Pair assms show ?thesis
    by (auto simp: createChallenge_def Let_def challenge_spent_def split: sum.splits)
qed

lemma verifyChallenge_challenges:
  "challenges (snd (verifyChallenge sv i hs uid rid secret now db)) = challenges db \<or>
   challenges (snd (verifyChallenge sv i hs uid rid secret now db)) =
     upd_rows (challenge_open (v_challengeId i) (v_walletAddress i) now) (challenge_use now) (challenges db)"
proof (cases "checkVerificationLimit sv (v_walletAddress i) (v_clientMetadata i) now db")
  case (Pair r db1)
  then have "challenges db1 = challenges db" by (rule checkVerificationLimit_frame)
  moreover have "challenges (snd (finish_verify sv i hs uid rid secret now (db1\<lparr>challenges := c\<rparr>))) = c" for c
    using finish_verify_frame [OF prod.collapse [symmetric]] by simp
  ultimately show ?thesis using Pair
    by (auto simp: verifyChallenge_def Let_def update_many_def split: sum.splits)
qed

lemma other_ops_challenges:
  "challenges (snd (canActivate sha hdr now db)) = challenges db"
  "challenges (snd (rotate_session sha sid user ttl hs now rid secret db)) = challenges db"
  "challenges (snd (revokeOtherSession sid uid why now db)) = challenges db"
  "challenges (snd (revokeAllOtherSessions uid cur why now db)) = challenges db"
  "challenges (snd (renameForUser uid sid label db)) = challenges db"
  "challenges (snd (deleteExpired older db)) = challenges db"
  "challenges (snd (changeStatus actor uid st reason aid now db)) = challenges db"
  "challenges (snd (changeRole actor uid role aid now db)) = challenges db"
  "challenges (snd (updateProfile uid name db)) = challenges db"
  "challenges (snd (initiate sv user wallet org rid nonce now db)) = challenges db"
  "challenges (snd (cleanupOldEvents days now db)) = challenges db"
proof -
  show "challenges (snd (canActivate sha hdr now db)) = challenges db"
    using canActivate_snd [of sha hdr now db] by (auto simp: touch_session_def)
  show "challenges (snd (rotate_session sha sid user ttl hs now rid secret db)) = challenges db"
    by (auto simp: rotate_session_def generateToken_def Let_def update_many_def
        split: option.splits sum.splits prod.splits elim!: insert_session_cases)
  show "challenges (snd (changeStatus actor uid st reason aid now db)) = challenges db"
    by (simp add: changeStatus_def Let_def update_many_def split: option.splits sum.splits)
  show "challenges (snd (changeRole actor uid role aid now db)) = challenges db"
    by (simp add: changeRole_def Let_def update_many_def split: option.splits sum.splits)
  show "challenges (snd (updateProfile uid name db)) = challenges db"
    by (cases name) (simp_all split: option.splits)
qed (simp_all add: revokeOtherSession_def revokeAllOtherSessions_def renameForUser_def deleteExpired_def
      update_many_def delete_many_def initiate_def cleanupOldEvents_def Let_def split: option.splits sum.splits)

lemma commit_rotation_frame: "commit_rotation sv uid rid r aid now db = Committed n db' \<Longrightarrow> challenges db' = challenges db"
  by (auto simp: commit_rotation_def Let_def update_many_def revoke_live_sessions_def split: if_splits sum.splits)

lemma complete_challenges: "challenges (snd (complete sv user rid s1 s2 org aid now db)) = challenges db"
  by (auto simp: complete_def update_many_def Let_def dest: commit_rotation_frame
      split: option.splits sum.splits rotation_commit.splits)

lemma auth_step_challenge_spent:
  assumes "auth_step sv spent db db'" "challenge_spent cid (challenges db)"
  shows "challenge_spent cid (challenges db')"
  using assms
proof (induction rule: auth_step.induct)
  case (step_finish rid secret db i hs uid now)
  then show ?case using finish_verify_frame [OF prod.collapse [symmetric]] by metis
next
  case (step_verify rid secret db i hs uid now)
  then show ?case
    using verifyChallenge_challenges [of sv i hs uid rid secret now db] challenge_spent_use by metis
qed (auto simp: createChallenge_challenges challenge_spent_use other_ops_challenges complete_challenges
      logout_def revoke_def revokeAll_def)

lemma steps_challenge_spent:
  assumes "(auth_step sv spent)\<^sup>*\<^sup>* db db'" "challenge_spent cid (challenges db)"
  shows "challenge_spent cid (challenges db')"
  using assms by (induction rule: rtranclp_induct) (auto intro: auth_step_challenge_spent)

lemma verifyChallenge_spent:
  assumes "challenge_spent (v_challengeId i) (challenges db)"
  shows "\<exists>e. fst (verifyChallenge sv i hs uid rid secret now db) = Inl e"
proof (cases "verifyChallenge sv i hs uid rid secret now db")
  case (Pair r db')
  show ?thesis
  proof (cases r)
    case (Inr x)
    with Pair have "0 < count_rows (challenge_open (v_challengeId i) (v_walletAddress i) now) (challenges db)"
      by (auto dest: verifyChallenge_Inr(2))
    with assms show ?thesis by (auto simp: count_rows_pos challenge_spent_def challenge_open_def)
  qed (simp add: Pair)
qed

text \<open>C9. A challenge authenticates at most once, under any interleaving: from the moment one request has
  consumed it, whatever that request goes on to do and whatever other requests run in between, every
  other attempt to verify it fails, for any wallet, signature and instant.\<close>

theorem challenge_single_use:
  assumes "unique_on c_id (challenges db)"
    "0 < count_rows (challenge_open (v_challengeId i) w now) (challenges db)"
    "db1 = db\<lparr>challenges := upd_rows (challenge_open (v_challengeId i) w now) (challenge_use now) (challenges db)\<rparr>"
    "(auth_step sv spent)\<^sup>*\<^sup>* db1 db2"
  shows "\<exists>e. fst (verifyChallenge sv i hs uid rid secret t db2) = Inl e"
proof (rule verifyChallenge_spent)
  have "challenge_spent (v_challengeId i) (challenges db1)"
    using challenge_spent_after_use [OF assms(1,2)] assms(3) by simp
  then show "challenge_spent (v_challengeId i) (challenges db2)" by (rule steps_challenge_spent [OF assms(4)])
qed

theorem challenge_single_use_witness:
  "let db1 = sample_login_db\<lparr>challenges := upd_rows (challenge_open ''c1'' ''G1'' 10) (challenge_use 10)
               (challenges sample_login_db)\<rparr>;
       db2 = snd (finish_verify sample_service sample_input None ''n1'' ''r1'' ''x1'' 10 db1)
   in \<exists>e. fst (verifyChallenge sample_service sample_input None ''n2'' ''r2'' ''x2'' 11 db2) = Inl e"
  unfolding Let_def
proof (rule challenge_single_use [where db = sample_login_db and w = "''G1''" and now = 10])
  show "(auth_step sample_service {})\<^sup>*\<^sup>*
      (sample_login_db\<lparr>challenges := upd_rows (challenge_open ''c1'' ''G1'' 10) (challenge_use 10)
                         (challenges sample_login_db)\<rparr>)
      (snd (finish_verify sample_service sample_input None ''n1'' ''r1'' ''x1'' 10
        (sample_login_db\<lparr>challenges := upd_rows (challenge_open ''c1'' ''G1'' 10) (challenge_use 10)
                           (challenges sample_login_db)\<rparr>)))"
    by (rule r_into_rtranclp) (rule auth_step.step_finish, simp)
qed (simp_all add: unique_on_def count_rows_def sample_input_def sample_login_db_def sample_challenge_def challenge_open_def)

subsection \<open>Rotation needs both keys\<close>

lemma complete_Inr:
  assumes "complete sv user rid s1 s2 org aid now db = (Inr (w, n), db')"
  obtains r where "count_rows (rotation_open rid (a_id user) now) (rotations db) = 1"
    "find_row (\<lambda>r. r_id r = rid)
       (upd_rows (rotation_open rid (a_id user) now) (rotation_consume now) (rotations db)) = Some r"
    "w = r_newWalletAddress r" "r_currentWalletAddress r = a_walletAddress user"
    "verifyWalletSignature sv (r_currentWalletAddress r) (r_currentMessage r) s1"
    "verifyWalletSignature sv (r_newWalletAddress r) (r_newMessage r) s2"
    "commit_rotation sv (a_id user) rid r aid now
       (db\<lparr>rotations := upd_rows (rotation_open rid (a_id user) now) (rotation_consume now) (rotations db)\<rparr>)
     = Committed n db'"
  using assms that
  by (auto simp: complete_def update_many_def Let_def
      split: option.split_asm sum.splits if_splits rotation_commit.splits)

lemma complete_Inl:
  assumes "complete sv user rid s1 s2 org aid now db = (Inl e, db')"
  shows "users db' = users db \<and> sessions db' = sessions db \<and> audit_logs db' = audit_logs db"
  using assms
  by (auto simp: complete_def update_many_def Let_def fail_rotation_def
      split: option.splits sum.splits if_splits rotation_commit.splits)

lemma commit_rotation_Committed:
  assumes "commit_rotation sv uid rid r aid now db = Committed n db'"
  shows "\<forall>u\<in>set (users db). u_walletAddress u \<noteq> r_newWalletAddress r"
    "users db' = upd_rows (\<lambda>u. u_id u = uid \<and> u_walletAddress u = r_currentWalletAddress r)
       (\<lambda>u. u\<lparr>u_walletAddress := r_newWalletAddress r, u_walletHash := hashed sv (r_newWalletAddress r)\<rparr>) (users db)"
    "count_rows (\<lambda>u. u_id u = uid \<and> u_walletAddress u = r_currentWalletAddress r) (users db) = 1"
    "sessions db' = fst (revoke_live_sessions uid now (sessions db))"
  using assms
  by (auto simp: commit_rotation_def Let_def update_many_def find_row_None revoke_live_sessions_fst
      revoke_live_sessions_def split: if_splits sum.splits)

text \<open>C13. A rotation that completes was proved by both keys: the account's row moves to the replacement
  wallet only with a signature of the current wallet over the stored current-key message and one of the
  replacement wallet over the stored replacement-key message, of a pending, unconsumed, unexpired
  rotation of that user; every session of the account is then revoked.  A rotation that fails changes
  no account, session or audit record.\<close>

theorem rotation_needs_both_keys:
  assumes "unique_on r_id (rotations db)"
    "complete sv user rid s1 s2 org aid now db = (res, db')"
  shows "case res of
      Inl e \<Rightarrow> users db' = users db \<and> sessions db' = sessions db \<and> audit_logs db' = audit_logs db
    | Inr (w, n) \<Rightarrow>
        (\<exists>r\<in>set (rotations db). rotation_open rid (a_id user) now r \<and> r_newWalletAddress r = w \<and>
           verifyWalletSignature sv (a_walletAddress user) (r_currentMessage r) s1 \<and>
           verifyWalletSignature sv w (r_newMessage r) s2) \<and>
        (\<exists>u\<in>set (users db'). u_id u = a_id user \<and> u_walletAddress u = w) \<and>
        (\<forall>s\<in>set (sessions db'). s_userId s = a_id user \<longrightarrow> s_revokedAt s \<noteq> None)"
proof (cases res)
  case (Inl e)
  with assms complete_Inl show ?thesis by auto
next
  case (Inr p)
  obtain w n where p: "p = (w, n)" by (cases p)
  from assms(2) [unfolded Inr p] obtain r where r:
    "count_rows (rotation_open rid (a_id user) now) (rotations db) = 1"
    "find_row (\<lambda>r. r_id r = rid)
       (upd_rows (rotation_open rid (a_id user) now) (rotation_consume now) (rotations db)) = Some r"
    "w = r_newWalletAddress r" "r_currentWalletAddress r = a_walletAddress user"
    "verifyWalletSignature sv (r_currentWalletAddress r) (r_currentMessage r) s1"
    "verifyWalletSignature sv (r_newWalletAddress r) (r_newMessage r) s2"
    "commit_rotation sv (a_id user) rid r aid now
       (db\<lparr>rotations := upd_rows (rotation_open rid (a_id user) now) (rotation_consume now) (rotations db)\<rparr>)
     = Committed n db'"
    by (rule complete_Inr)
  have "0 < count_rows (rotation_open rid (a_id user) now) (rotations db)" using r(1) by simp
  then obtain r0 where r0: "r0 \<in> set (rotations db)" "rotation_open rid (a_id user) now r0"
    by (auto simp: count_rows_pos)
  then have "find_row (\<lambda>x. r_id x = rid) (rotations db) = Some r0"
    using find_row_unique [OF assms(1) r0(1)] by (simp add: rotation_open_def)
  then have rc: "r = rotation_consume now r0"
    using r(2) r0(2) by (simp add: find_row_upd_rows_keyed rotation_consume_def)
  note c = commit_rotation_Committed [OF r(7)]
  have "0 < count_rows (\<lambda>u. u_id u = a_id user \<and> u_walletAddress u = r_currentWalletAddress r) (users db)"
    using c(3) by simp
  then obtain u where "u \<in> set (users db)" "u_id u = a_id user" "u_walletAddress u = r_currentWalletAddress r"
    by (auto simp: count_rows_pos)
  then have "\<exists>u\<in>set (users db'). u_id u = a_id user \<and> u_walletAddress u = w"
    unfolding c(2) set_upd_rows r(3)
    by (intro bexI [of _ "u\<lparr>u_walletAddress := r_newWalletAddress r, u_walletHash := hashed sv (r_newWalletAddress r)\<rparr>"])
      (auto intro: rev_image_eqI)
  moreover have "\<forall>s\<in>set (sessions db'). s_userId s = a_id user \<longrightarrow> s_revokedAt s \<noteq> None"
    unfolding c(4) by (auto dest: revoke_live_sessions_revoked)
  moreover have "\<exists>r\<in>set (rotations db). rotation_open rid (a_id user) now r \<and> r_newWalletAddress r = w \<and>
           verifyWalletSignature sv (a_walletAddress user) (r_currentMessage r) s1 \<and>
           verifyWalletSignature sv w (r_newMessage r) s2"
    using r0 r rc by (intro bexI [of _ r0]) (auto simp: rotation_consume_def)
  ultimately show ?thesis by (simp add: Inr p)
qed

definition sample_rotation :: rotation_row where
  "sample_rotation =
     \<lparr>r_id = ''r1'', r_userId = ''u1'', r_currentWalletAddress = ''G1'', r_newWalletAddress = ''G2'',
      r_nonceHash = ''n'', r_currentMessage = ''a'', r_newMessage = ''b'', r_networkPassphrase = ''net'',
      r_origin = ''https://app'', r_status = ROT_PENDING, r_failureReason = None, r_expiresAt = 300000,
      r_consumedAt = None, r_completedAt = None\<rparr>"

definition sample_rotation_db :: auth_db where
  "sample_rotation_db = sample_db\<lparr>rotations := [sample_rotation]\<rparr>"

lemma sample_complete:
  "\<exists>db'. complete sample_service sample_user ''r1'' ''G1a'' ''G2b'' None ''a1'' 10 sample_rotation_db = (Inr (''G2'', 1), db')"
  using sample_normalizeOrigin
  by (simp add: complete_def update_many_def upd_rows_def count_rows_def rotation_open_def rotation_consume_def
      find_row_def resolveOrigin_def commit_rotation_def revoke_live_sessions_def sample_rotation_db_def
      sample_rotation_def sample_db_def sample_user_def Let_def hashed_def sample_service_def
      tx_audit_create_def insert_audit_def seq_taken_def)

theorem rotation_needs_both_keys_witness:
  "\<exists>db'. complete sample_service sample_user ''r1'' ''G1a'' ''G2b'' None ''a1'' 10 sample_rotation_db = (Inr (''G2'', 1), db') \<and>
     (\<exists>u\<in>set (users db'). u_id u = ''u1'' \<and> u_walletAddress u = ''G2'')"
proof -
  obtain db' where c: "complete sample_service sample_user ''r1'' ''G1a'' ''G2b'' None ''a1'' 10 sample_rotation_db
    = (Inr (''G2'', 1), db')"
    using sample_complete by blast
  have "unique_on r_id (rotations sample_rotation_db)"
    by (simp add: unique_on_def sample_rotation_db_def)
  from rotation_needs_both_keys [OF this c] c show ?thesis by (simp add: sample_user_def)
qed

text \<open>C31. Domain separation of the signed messages: no message the current wallet signs is ever one the
  replacement wallet signs, and no rotation message is a sign-in message, for any bindings; a
  signature collected for one purpose never verifies for another.\<close>

theorem signed_messages_separated:
  "buildMessage sv b SignerCurrent \<noteq> buildMessage sv' b' SignerReplacement \<and>
   buildMessage sv b sg \<noteq> challenge_message sv' w nonce t"
  by (simp add: buildMessage_def challenge_message_def)

subsection \<open>The audit record of an administrative change\<close>

abbreviation audit_slot_taken :: "auth_db \<Rightarrow> bool" where
  "audit_slot_taken db \<equiv> seq_taken SYSTEM_CHAIN_KEY 0 (audit_logs db)"

lemma audit_frame:
  "audit_logs (snd (createChallenge sv w meta org nonce cid now db)) = audit_logs db"
  "audit_logs (snd (finish_verify sv i hs uid rid secret now db)) = audit_logs db"
  "audit_logs (snd (verifyChallenge sv i hs uid rid secret now db)) = audit_logs db"
  "audit_logs (snd (canActivate sha hdr now db)) = audit_logs db"
  "audit_logs (snd (rotate_session sha sid user ttl hs now rid secret db)) = audit_logs db"
proof -
  have ev: "audit_logs (recordEvent sv ty w cid ok why meta now d) = audit_logs d"
    for ty w cid ok why meta now and d :: auth_db
    by (simp add: recordEvent_def)
  show "audit_logs (snd (createChallenge sv w meta org nonce cid now db)) = audit_logs db"
    by (auto simp: createChallenge_def checkChallengeCreationLimit_def ev Let_def split: sum.splits)
  have up: "audit_logs (snd (upsert_user sv w uid now d)) = audit_logs d" for w uid now and d :: auth_db
    by (simp add: upsert_user_def Let_def split: option.splits)
  have cr: "audit_logs (snd (create_session sha u ttl hs now rid secret d)) = audit_logs d"
    for sha u ttl hs now rid secret and d :: auth_db
    by (auto simp: create_session_def generateToken_def insert_session_def Let_def)
  show fin: "audit_logs (snd (finish_verify sv i hs uid rid secret now db)) = audit_logs db" for db
    using up [of "v_walletAddress i" uid now db] cr
    by (auto simp: finish_verify_def Let_def ev split: option.splits sum.splits prod.splits) (metis snd_conv)+
  have lim: "audit_logs (snd (checkVerificationLimit sv w meta now db)) = audit_logs db" for w meta
    by (simp add: checkVerificationLimit_def Let_def ev)
  show "audit_logs (snd (verifyChallenge sv i hs uid rid secret now db)) = audit_logs db"
    using lim [of "v_walletAddress i" "v_clientMetadata i"]
    by (auto simp: verifyChallenge_def Let_def update_many_def ev fin split: sum.splits prod.splits)
  show "audit_logs (snd (canActivate sha hdr now db)) = audit_logs db"
    using canActivate_snd [of sha hdr now db] by (auto simp: touch_session_def)
  show "audit_logs (snd (rotate_session sha sid user ttl hs now rid secret db)) = audit_logs db"
    by (auto simp: rotate_session_def generateToken_def Let_def update_many_def insert_session_def
        split: option.splits sum.splits prod.splits if_splits)
qed

lemma slot_changes:
  assumes "audit_slot_taken db"
  shows "\<exists>e. changeStatus actor uid st why aid now db = (Inl e, db)"
    "\<exists>e. changeRole actor uid role aid now db = (Inl e, db)"
    "\<exists>e. fst (complete sv user rid s1 s2 org aid now db) = Inl e"
    "audit_logs (snd (complete sv user rid s1 s2 org aid now db)) = audit_logs db"
proof -
  note t = tx_audit_create_taken [OF assms]
  show "\<exists>e. changeStatus actor uid st why aid now db = (Inl e, db)"
    by (auto simp: changeStatus_def Let_def update_many_def t split: option.splits)
  show "\<exists>e. changeRole actor uid role aid now db = (Inl e, db)"
    by (auto simp: changeRole_def Let_def update_many_def t split: option.splits)
  have c: "commit_rotation sv uid rid r aid now (db\<lparr>rotations := rs\<rparr>) \<noteq> Committed n db'" for uid r rs n db'
    by (simp add: commit_rotation_def Let_def update_many_def revoke_live_sessions_def t)
  show "\<exists>e. fst (complete sv user rid s1 s2 org aid now db) = Inl e"
    "audit_logs (snd (complete sv user rid s1 s2 org aid now db)) = audit_logs db"
    using c by (auto simp: complete_def Let_def update_many_def fail_rotation_def
        split: option.splits sum.splits rotation_commit.splits)
qed

lemma auth_step_slot: "auth_step sv spent db db' \<Longrightarrow> audit_slot_taken db \<Longrightarrow> audit_slot_taken db'"
proof (induction rule: auth_step.induct)
  case (step_status db actor uid st why aid now)
  then show ?case using slot_changes(1) by (metis snd_conv)
next
  case (step_role db actor uid role aid now)
  then show ?case using slot_changes(2) by (metis snd_conv)
next
  case (step_profile db uid name)
  then show ?case by (cases name) (simp_all split: option.splits)
qed (simp_all add: audit_frame slot_changes(4) logout_def revoke_def revokeAll_def revokeOtherSession_def
      revokeAllOtherSessions_def renameForUser_def deleteExpired_def update_many_def delete_many_def initiate_def
      cleanupOldEvents_def Let_def split: option.splits sum.splits)

lemma steps_slot:
  "(auth_step sv spent)\<^sup>*\<^sup>* db db' \<Longrightarrow> audit_slot_taken db \<Longrightarrow> audit_slot_taken db'"
  by (induction rule: rtranclp_induct) (auto dest: auth_step_slot)



end
