(* ===== verification/Approvals.thy ===== *)
theory Approvals
  imports Accounts
begin

text \<open>
  Four-eyes approval of privileged operations, \<open>approvals/approvals.service.ts\<close>.

  The request rows and the audit store are the state.  Each public operation is a function
  on it; \<open>decide\<close> reads the request, checks it, and only then makes its conditional write,
  so \<open>approval_step\<close> splits it in two: a decision in flight is a caller that has passed the
  checks, and any other operation may run before its write.  \<open>sha256\<close> is a parameter.
\<close>

datatype approval_status = AP_PENDING | AP_APPROVED | AP_REJECTED | AP_CANCELLED | AP_EXPIRED | AP_EXECUTED

record approval_request =
  p_id :: ident
  p_operationType :: string
  p_payloadHash :: string
  p_payload :: json
  p_requestedById :: ident
  p_status :: approval_status
  p_decidedById :: "ident option"
  p_decidedAt :: "time_ms option"
  p_decisionReason :: "string option"
  p_executionLeaseToken :: "string option"
  p_executionLeasedAt :: "time_ms option"
  p_executedAt :: "time_ms option"
  p_expiresAt :: time_ms

record approvals_db =
  requests :: "approval_request table"
  approval_audit :: audit_store

record create_approval_dto =
  q_operationType :: string
  q_payload :: json
  q_ttlMinutes :: "int option"

record decide_dto =
  q_expectedPayloadHash :: string
  q_reason :: "string option"

datatype decision = DecideApprove | DecideReject

fun outcome_status :: "decision \<Rightarrow> approval_status" where
  "outcome_status DecideApprove = AP_APPROVED"
| "outcome_status DecideReject = AP_REJECTED"

fun outcome_action :: "decision \<Rightarrow> string" where
  "outcome_action DecideApprove = ''approval.approved''"
| "outcome_action DecideReject = ''approval.rejected''"

fun approval_status_name :: "approval_status \<Rightarrow> string" where
  "approval_status_name AP_PENDING = ''PENDING''"
| "approval_status_name AP_APPROVED = ''APPROVED''"
| "approval_status_name AP_REJECTED = ''REJECTED''"
| "approval_status_name AP_CANCELLED = ''CANCELLED''"
| "approval_status_name AP_EXPIRED = ''EXPIRED''"
| "approval_status_name AP_EXECUTED = ''EXECUTED''"

definition DEFAULT_TTL_MINUTES :: int where
  "DEFAULT_TTL_MINUTES = 1440"

text \<open>\<open>audit\<close>: the record goes through the chained writer.\<close>

definition approval_audit_append ::
  "(string \<Rightarrow> string) \<Rightarrow> authenticated_user \<Rightarrow> string \<Rightarrow> ident \<Rightarrow> (string \<times> json) list \<Rightarrow> ident \<Rightarrow> time_ms
   \<Rightarrow> approvals_db \<Rightarrow> (http_error, unit) result \<times> approvals_db" where
  "approval_audit_append sha256 user action rid meta aid now db =
     (case appendAuditLog sha256 aid
             \<lparr>d_actorType = ''User'', d_actorId = Some (a_id user), d_action = action,
              d_resourceType = ''ApprovalRequest'', d_resourceId = Some rid, d_metadata = Some (JObj meta),
              d_organizationId = None\<rparr> now (approval_audit db) of
        (Inl e, _) \<Rightarrow> (Inl e, db)
      | (Inr _, st) \<Rightarrow> (Inr (), db\<lparr>approval_audit := st\<rparr>))"

text \<open>Follow a state change with its audit record; a failing record leaves the change in place.\<close>

definition with_audit :: "'a \<Rightarrow> (http_error, unit) result \<times> approvals_db \<Rightarrow> (http_error, 'a) result \<times> approvals_db" where
  "with_audit x p = (case p of (Inl e, db) \<Rightarrow> (Inl e, db) | (Inr _, db) \<Rightarrow> (Inr x, db))"

definition new_request :: "authenticated_user \<Rightarrow> create_approval_dto \<Rightarrow> string \<Rightarrow> time_ms \<Rightarrow> ident \<Rightarrow> approval_request" where
  "new_request user dto hash expires rid =
     \<lparr>p_id = rid, p_operationType = q_operationType dto, p_payloadHash = hash,
      p_payload = q_payload dto, p_requestedById = a_id user, p_status = AP_PENDING,
      p_decidedById = None, p_decidedAt = None, p_decisionReason = None,
      p_executionLeaseToken = None, p_executionLeasedAt = None, p_executedAt = None,
      p_expiresAt = expires\<rparr>"

definition create_approval ::
  "(string \<Rightarrow> string) \<Rightarrow> authenticated_user \<Rightarrow> create_approval_dto \<Rightarrow> ident \<Rightarrow> ident \<Rightarrow> time_ms \<Rightarrow> approvals_db
   \<Rightarrow> (http_error, approval_request) result \<times> approvals_db" where
  "create_approval sha256 user dto rid aid now db =
     (case canonicalize (q_payload dto) of
        None \<Rightarrow> (Inl (Internal ''Cannot canonicalize non-finite number''), db)
      | Some text \<Rightarrow>
          let hash = sha256 text;
              expires = now + nullish (q_ttlMinutes dto) DEFAULT_TTL_MINUTES * 60000;
              row = new_request user dto hash expires rid
          in if \<exists>r\<in>set (requests db). p_id r = rid then (Inl UniqueViolation, db)
             else with_audit row
               (approval_audit_append sha256 user ''approval.requested'' rid
                  [(''operationType'', JStr (q_operationType dto)), (''payloadHash'', JStr hash),
                   (''expiresAt'', JStr (toISOString expires))] aid now
                  (db\<lparr>requests := insert_row row (requests db)\<rparr>)))"

definition get_approval :: "ident \<Rightarrow> approvals_db \<Rightarrow> (http_error, approval_request) result" where
  "get_approval rid db =
     (case find_row (\<lambda>r. p_id r = rid) (requests db) of
        None \<Rightarrow> Inl (NotFound (''Approval request '' @ rid @ '' not found'')) | Some r \<Rightarrow> Inr r)"

text \<open>The checks of \<open>decide\<close> before its write.\<close>

definition decide_checks ::
  "authenticated_user \<Rightarrow> ident \<Rightarrow> decide_dto \<Rightarrow> approvals_db \<Rightarrow> (http_error, unit) result" where
  "decide_checks user rid dto db =
     (case get_approval rid db of
        Inl e \<Rightarrow> Inl e
      | Inr existing \<Rightarrow>
          if p_requestedById existing = a_id user
          then Inl (Forbidden ''The requester of a privileged operation cannot decide on it'')
          else if p_payloadHash existing \<noteq> q_expectedPayloadHash dto
          then Inl (Conflict ''expectedPayloadHash does not match the request's current payload'')
          else Inr ())"

definition decidable :: "ident \<Rightarrow> time_ms \<Rightarrow> approval_request \<Rightarrow> bool" where
  "decidable rid now r \<longleftrightarrow> p_id r = rid \<and> p_status r = AP_PENDING \<and> now < p_expiresAt r"

definition decide_mark :: "approval_status \<times> ident \<times> time_ms \<times> string option \<Rightarrow> approval_request \<Rightarrow> approval_request" where
  "decide_mark a r =
     (case a of (st, uid, now, why) \<Rightarrow>
        r\<lparr>p_status := st, p_decidedById := Some uid, p_decidedAt := Some now, p_decisionReason := why\<rparr>)"

text \<open>The conditional write of \<open>decide\<close> and what follows it.\<close>

definition decide_write ::
  "(string \<Rightarrow> string) \<Rightarrow> authenticated_user \<Rightarrow> ident \<Rightarrow> decide_dto \<Rightarrow> decision \<Rightarrow> ident \<Rightarrow> time_ms \<Rightarrow> approvals_db
   \<Rightarrow> (http_error, approval_request) result \<times> approvals_db" where
  "decide_write sha256 user rid dto d aid now db =
     (let (rs, n) = update_many (decidable rid now)
                      (decide_mark (outcome_status d, a_id user, now, q_reason dto)) (requests db);
          db1 = db\<lparr>requests := rs\<rparr>
      in if n = 0
         then (case get_approval rid db1 of
                 Inl e \<Rightarrow> (Inl e, db1)
               | Inr current \<Rightarrow>
                   if p_status current \<noteq> AP_PENDING
                   then (Inl (Conflict (''Request already has a terminal decision: '' @
                                        approval_status_name (p_status current))), db1)
                   else (Inl (Conflict ''Request has expired and can no longer be decided''), db1))
         else (case get_approval rid db1 of
                 Inl e \<Rightarrow> (Inl e, db1)
               | Inr updated \<Rightarrow>
                   with_audit updated
                     (approval_audit_append sha256 user (outcome_action d) rid
                        [(''reason'', json_opt (q_reason dto))] aid now db1)))"

definition decide ::
  "(string \<Rightarrow> string) \<Rightarrow> authenticated_user \<Rightarrow> ident \<Rightarrow> decide_dto \<Rightarrow> decision \<Rightarrow> ident \<Rightarrow> time_ms \<Rightarrow> approvals_db
   \<Rightarrow> (http_error, approval_request) result \<times> approvals_db" where
  "decide sha256 user rid dto d aid now db =
     (case decide_checks user rid dto db of
        Inl e \<Rightarrow> (Inl e, db)
      | Inr _ \<Rightarrow> decide_write sha256 user rid dto d aid now db)"

definition approve ::
  "(string \<Rightarrow> string) \<Rightarrow> authenticated_user \<Rightarrow> ident \<Rightarrow> decide_dto \<Rightarrow> ident \<Rightarrow> time_ms \<Rightarrow> approvals_db
   \<Rightarrow> (http_error, approval_request) result \<times> approvals_db" where
  "approve sha256 user rid dto aid now db = decide sha256 user rid dto DecideApprove aid now db"

definition reject ::
  "(string \<Rightarrow> string) \<Rightarrow> authenticated_user \<Rightarrow> ident \<Rightarrow> decide_dto \<Rightarrow> ident \<Rightarrow> time_ms \<Rightarrow> approvals_db
   \<Rightarrow> (http_error, approval_request) result \<times> approvals_db" where
  "reject sha256 user rid dto aid now db = decide sha256 user rid dto DecideReject aid now db"

definition cancel ::
  "(string \<Rightarrow> string) \<Rightarrow> authenticated_user \<Rightarrow> ident \<Rightarrow> ident \<Rightarrow> time_ms \<Rightarrow> approvals_db
   \<Rightarrow> (http_error, approval_request) result \<times> approvals_db" where
  "cancel sha256 user rid aid now db =
     (case get_approval rid db of
        Inl e \<Rightarrow> (Inl e, db)
      | Inr existing \<Rightarrow>
          if p_requestedById existing \<noteq> a_id user \<and> a_role user \<noteq> ADMIN
          then (Inl (Forbidden ''Only the requester or an admin may cancel this request''), db)
          else
            let (rs, n) = update_many (\<lambda>r. p_id r = rid \<and> p_status r = AP_PENDING)
                  (\<lambda>r. r\<lparr>p_status := AP_CANCELLED, p_decidedById := Some (a_id user), p_decidedAt := Some now\<rparr>)
                  (requests db);
                db1 = db\<lparr>requests := rs\<rparr>
            in case get_approval rid db1 of
                 Inl e \<Rightarrow> (Inl e, db1)
               | Inr current \<Rightarrow>
                   if n = 0
                   then (Inl (Conflict (''Request already has a terminal decision: '' @
                                        approval_status_name (p_status current))), db1)
                   else with_audit current
                          (approval_audit_append sha256 user ''approval.cancelled'' rid [] aid now db1))"

datatype lease_claim = Claimed string | NotClaimed approval_request

definition claimable :: "ident \<Rightarrow> approval_request \<Rightarrow> bool" where
  "claimable rid r \<longleftrightarrow> p_id r = rid \<and> p_status r = AP_APPROVED \<and> p_executionLeaseToken r = None"

definition claim_mark :: "string \<times> time_ms \<Rightarrow> approval_request \<Rightarrow> approval_request" where
  "claim_mark a r = r\<lparr>p_executionLeaseToken := Some (fst a), p_executionLeasedAt := Some (snd a)\<rparr>"

definition claimForExecution ::
  "ident \<Rightarrow> string \<Rightarrow> time_ms \<Rightarrow> approvals_db \<Rightarrow> (http_error, lease_claim) result \<times> approvals_db" where
  "claimForExecution rid token now db =
     (let (rs, n) = update_many (claimable rid) (claim_mark (token, now)) (requests db);
          db1 = db\<lparr>requests := rs\<rparr>
      in if n = 1 then (Inr (Claimed token), db1)
         else case get_approval rid db1 of
                Inl e \<Rightarrow> (Inl e, db1) | Inr r \<Rightarrow> (Inr (NotClaimed r), db1))"

definition completeExecution ::
  "ident \<Rightarrow> string \<Rightarrow> time_ms \<Rightarrow> approvals_db \<Rightarrow> (http_error, approval_request) result \<times> approvals_db" where
  "completeExecution rid token now db =
     (let (rs, n) = update_many
             (\<lambda>r. p_id r = rid \<and> p_executionLeaseToken r = Some token \<and> p_status r = AP_APPROVED)
             (\<lambda>r. r\<lparr>p_status := AP_EXECUTED, p_executedAt := Some now\<rparr>) (requests db);
          db1 = db\<lparr>requests := rs\<rparr>
      in case get_approval rid db1 of
           Inl e \<Rightarrow> (Inl e, db1)
         | Inr current \<Rightarrow>
             if n = 0 \<and> \<not> (p_status current = AP_EXECUTED \<and> p_executionLeaseToken current = Some token)
             then (Inl (Conflict ''Execution lease mismatch''), db1)
             else (Inr current, db1))"

definition expireStale :: "time_ms \<Rightarrow> approvals_db \<Rightarrow> nat \<times> approvals_db" where
  "expireStale now db =
     (let (rs, n) = update_many (\<lambda>r. p_status r = AP_PENDING \<and> p_expiresAt r < now)
                      (\<lambda>r. r\<lparr>p_status := AP_EXPIRED\<rparr>) (requests db)
      in (n, db\<lparr>requests := rs\<rparr>))"

subsection \<open>Interleaved operations\<close>

text \<open>A decision whose caller has passed the checks and has not written yet.\<close>

record inflight =
  f_user :: authenticated_user
  f_id :: ident
  f_dto :: decide_dto
  f_decision :: decision

inductive approval_step ::
  "(string \<Rightarrow> string) \<Rightarrow> approvals_db \<times> inflight list \<Rightarrow> approvals_db \<times> inflight list \<Rightarrow> bool"
  for sha where
  ap_create: "approval_step sha (db, fl) (snd (create_approval sha user dto rid aid now db), fl)"
| ap_check: "decide_checks user rid dto db = Inr () \<Longrightarrow>
     approval_step sha (db, fl) (db, \<lparr>f_user = user, f_id = rid, f_dto = dto, f_decision = d\<rparr> # fl)"
| ap_write: "f \<in> set fl \<Longrightarrow>
     approval_step sha (db, fl)
       (snd (decide_write sha (f_user f) (f_id f) (f_dto f) (f_decision f) aid now db), remove1 f fl)"
| ap_cancel: "approval_step sha (db, fl) (snd (cancel sha user rid aid now db), fl)"
| ap_claim: "approval_step sha (db, fl) (snd (claimForExecution rid token now db), fl)"
| ap_complete: "approval_step sha (db, fl) (snd (completeExecution rid token now db), fl)"
| ap_expire: "approval_step sha (db, fl) (snd (expireStale now db), fl)"

subsection \<open>Facts\<close>

definition approval_moves :: "approval_status \<Rightarrow> approval_status \<Rightarrow> bool" where
  "approval_moves a b \<longleftrightarrow>
     (a = AP_PENDING \<and> b \<in> {AP_APPROVED, AP_REJECTED, AP_CANCELLED, AP_EXPIRED}) \<or>
     (a = AP_APPROVED \<and> b = AP_EXECUTED)"

interpretation appr: status_machine approval_moves
  "\<lambda>s. s \<in> {AP_REJECTED, AP_CANCELLED, AP_EXPIRED, AP_EXECUTED}"
  by unfold_locales (auto simp: approval_moves_def)

interpretation decision_race: one_shot "decidable rid now" "\<lambda>(d, uid, t, why). decide_mark (outcome_status d, uid, t, why)"
proof unfold_locales
  fix r :: approval_request and a :: "decision \<times> ident \<times> time_ms \<times> string option"
  obtain d uid t why where a: "a = (d, uid, t, why)" by (cases a)
  show "\<not> decidable rid now ((\<lambda>(d, uid, t, why). decide_mark (outcome_status d, uid, t, why)) a r)"
    by (cases d) (simp_all add: a decidable_def decide_mark_def)
qed

interpretation claim_race: one_shot "claimable rid" claim_mark
  by unfold_locales (simp add: claimable_def claim_mark_def)

text \<open>What one operation may do to a request: the lifecycle move, and what is frozen.\<close>

definition row_step :: "approval_request \<Rightarrow> approval_request \<Rightarrow> bool" where
  "row_step r r' \<longleftrightarrow>
     p_id r' = p_id r \<and> p_requestedById r' = p_requestedById r \<and> p_payloadHash r' = p_payloadHash r \<and>
     (p_status r' = p_status r \<or> approval_moves (p_status r) (p_status r')) \<and>
     (p_status r \<noteq> AP_PENDING \<longrightarrow> p_decidedById r' = p_decidedById r \<and> p_decidedAt r' = p_decidedAt r) \<and>
     (p_executionLeaseToken r \<noteq> None \<longrightarrow> p_executionLeaseToken r' = p_executionLeaseToken r)"

lemma row_step_refl [simp]: "row_step r r"
  by (simp add: row_step_def)

lemma approval_audit_requests:
  "requests (snd (approval_audit_append sha user act rid meta aid now db)) = requests db"
  by (auto simp: approval_audit_append_def split: prod.splits sum.splits)

lemma with_audit_snd [simp]: "snd (with_audit x p) = snd p"
  by (auto simp: with_audit_def split: prod.splits sum.splits)

lemma write_requests:
  "requests (snd (decide_write sha user rid dto d aid now db)) =
     upd_rows (decidable rid now) (decide_mark (outcome_status d, a_id user, now, q_reason dto)) (requests db)"
  by (auto simp: decide_write_def update_many_def Let_def approval_audit_requests split: sum.splits)

lemma claim_requests:
  "requests (snd (claimForExecution rid token now db)) = upd_rows (claimable rid) (claim_mark (token, now)) (requests db)"
  by (auto simp: claimForExecution_def update_many_def Let_def split: sum.splits)

lemma complete_requests:
  "requests (snd (completeExecution rid token now db)) =
     upd_rows (\<lambda>r. p_id r = rid \<and> p_executionLeaseToken r = Some token \<and> p_status r = AP_APPROVED)
       (\<lambda>r. r\<lparr>p_status := AP_EXECUTED, p_executedAt := Some now\<rparr>) (requests db)"
  by (auto simp: completeExecution_def update_many_def Let_def split: sum.splits)

lemma expire_requests:
  "requests (snd (expireStale now db)) =
     upd_rows (\<lambda>r. p_status r = AP_PENDING \<and> p_expiresAt r < now) (\<lambda>r. r\<lparr>p_status := AP_EXPIRED\<rparr>) (requests db)"
  by (simp add: expireStale_def update_many_def)

lemma cancel_requests:
  "requests (snd (cancel sha user rid aid now db)) = requests db \<or>
   requests (snd (cancel sha user rid aid now db)) =
     upd_rows (\<lambda>r. p_id r = rid \<and> p_status r = AP_PENDING)
       (\<lambda>r. r\<lparr>p_status := AP_CANCELLED, p_decidedById := Some (a_id user), p_decidedAt := Some now\<rparr>) (requests db)"
  by (auto simp: cancel_def update_many_def Let_def approval_audit_requests split: sum.splits)

lemma create_requests:
  obtains "requests (snd (create_approval sha user dto rid aid now db)) = requests db"
  | row where "requests (snd (create_approval sha user dto rid aid now db)) = insert_row row (requests db)"
    "p_id row \<notin> p_id ` set (requests db)" "p_status row = AP_PENDING" "p_executionLeaseToken row = None"
proof (cases "canonicalize (q_payload dto)")
  case None
  then show thesis using that(1) by (simp add: create_approval_def)
next
  case (Some body)
  let ?row = "new_request user dto (sha body) (now + nullish (q_ttlMinutes dto) DEFAULT_TTL_MINUTES * 60000) rid"
  show thesis
  proof (cases "\<exists>r\<in>set (requests db). p_id r = rid")
    case True
    with Some show thesis using that(1) by (simp add: create_approval_def Let_def)
  next
    case False
    with Some have "requests (snd (create_approval sha user dto rid aid now db)) = insert_row ?row (requests db)"
      by (auto simp: create_approval_def Let_def approval_audit_requests)
    with False show thesis by (intro that(2) [of ?row]) (auto simp: new_request_def)
  qed
qed

text \<open>Every operation leaves the table as it was, changes rows along \<open>row_step\<close>, or adds a pending row.\<close>

inductive table_move :: "approval_request table \<Rightarrow> approval_request table \<Rightarrow> bool" where
  tm_same: "table_move t t"
| tm_upd: "(\<And>r. p r \<Longrightarrow> row_step r (f r)) \<Longrightarrow> table_move t (upd_rows p f t)"
| tm_new: "p_id row \<notin> p_id ` set t \<Longrightarrow> p_status row = AP_PENDING \<Longrightarrow> p_executionLeaseToken row = None \<Longrightarrow>
     table_move t (insert_row row t)"

lemma decide_mark_step: "decidable rid now r \<Longrightarrow> row_step r (decide_mark (outcome_status d, uid, now, why) r)"
  by (cases d) (simp_all add: row_step_def decidable_def decide_mark_def approval_moves_def)

lemma approval_step_table:
  "approval_step sha s s' \<Longrightarrow> table_move (requests (fst s)) (requests (fst s'))"
proof (induction rule: approval_step.induct)
  case (ap_create db fl user dto rid aid now)
  then show ?case
    by (rule create_requests [of sha user dto rid aid now db]) (auto intro: table_move.intros)
next
  case (ap_write f fl db aid now)
  then show ?case by (auto simp: write_requests intro!: tm_upd decide_mark_step)
next
  case (ap_cancel db fl user rid aid now)
  then show ?case
    using cancel_requests [of sha user rid aid now db]
    by (auto simp: row_step_def approval_moves_def intro: tm_same intro!: tm_upd)
qed (auto simp: claim_requests complete_requests expire_requests row_step_def approval_moves_def claimable_def
      claim_mark_def intro: tm_same intro!: tm_upd)

lemma table_move_row:
  assumes "table_move t t'" "unique_on p_id t" "r \<in> set t" "r' \<in> set t'" "p_id r' = p_id r"
  shows "row_step r r'"
  using assms(1)
proof cases
  case tm_same
  with assms have "r' = r" by (auto intro: unique_on_eqD [of p_id t])
  then show ?thesis by simp
next
  case (tm_upd p f)
  from assms(4) [unfolded tm_upd(1)] show ?thesis
  proof (rule upd_rowsE)
    fix x assume x: "x \<in> set t" "p x" "r' = f x"
    then have "row_step x r'" using tm_upd(2) by simp
    moreover have "x = r"
      using assms(2,3,5) x calculation by (auto simp: row_step_def intro: unique_on_eqD [of p_id t])
    ultimately show ?thesis by simp
  next
    assume "r' \<in> set t"
    with assms have "r' = r" by (auto intro: unique_on_eqD [of p_id t])
    then show ?thesis by simp
  qed
next
  case (tm_new row)
  with assms(3-5) have "r' \<in> set t" by auto
  with assms have "r' = r" by (auto intro: unique_on_eqD [of p_id t])
  then show ?thesis by simp
qed

lemma table_move_unique: "table_move t t' \<Longrightarrow> unique_on p_id t \<Longrightarrow> unique_on p_id t'"
  by (induction rule: table_move.induct)
    (auto simp: unique_on_upd_rows unique_on_insert_row row_step_def)

lemma table_move_keeps:
  assumes "table_move t t'" "r \<in> set t"
  shows "\<exists>r'\<in>set t'. p_id r' = p_id r"
  using assms(1)
proof cases
  case (tm_upd p f)
  have "(if p r then f r else r) \<in> set t'" using assms(2) unfolding tm_upd(1) set_upd_rows by (rule imageI)
  then show ?thesis using tm_upd(2) [of r] by (intro bexI) (auto simp: row_step_def)
qed (use assms(2) in auto)

text \<open>The facts about a decided request that no operation undoes.\<close>

definition settled_as :: "approval_request \<Rightarrow> approval_request \<Rightarrow> bool" where
  "settled_as r r' \<longleftrightarrow>
     p_id r' = p_id r \<and> p_decidedById r' = p_decidedById r \<and> p_decidedAt r' = p_decidedAt r \<and>
     (p_status r' = p_status r \<or> p_status r = AP_APPROVED \<and> p_status r' = AP_EXECUTED) \<and>
     (p_executionLeaseToken r \<noteq> None \<longrightarrow> p_executionLeaseToken r' = p_executionLeaseToken r)"

lemma row_step_settled:
  assumes "row_step r1 r2" "settled_as r r1" "p_status r \<noteq> AP_PENDING"
  shows "settled_as r r2"
  using assms by (auto simp: row_step_def settled_as_def approval_moves_def)

lemma steps_settled:
  assumes "(approval_step sha)\<^sup>*\<^sup>* s s'" "unique_on p_id (requests (fst s))" "r \<in> set (requests (fst s))"
    "p_status r \<noteq> AP_PENDING"
  shows "unique_on p_id (requests (fst s')) \<and> (\<exists>r'\<in>set (requests (fst s')). settled_as r r')"
  using assms(1)
proof (induction rule: rtranclp_induct)
  case base
  with assms show ?case by (auto simp: settled_as_def)
next
  case (step s1 s2)
  note m = approval_step_table [OF step.hyps(2)]
  from step.IH obtain r1 where r1: "r1 \<in> set (requests (fst s1))" "settled_as r r1" by blast
  from table_move_keeps [OF m r1(1)] obtain r2 where r2: "r2 \<in> set (requests (fst s2))" "p_id r2 = p_id r1" by blast
  have "row_step r1 r2" using table_move_row [OF m] step.IH r1 r2 by blast
  with r1(2) r2(1) assms(4) table_move_unique [OF m] step.IH show ?case by (blast intro: row_step_settled)
qed

text \<open>C16. A request is decided once: as soon as it has left \<open>PENDING\<close>, who decided it, when, and the
  outcome never change under any interleaving of operations, except that an approved request may
  become executed; an execution lease, once taken, is never handed to anyone else.\<close>

theorem decided_once:
  assumes "unique_on p_id (requests db)" "r \<in> set (requests db)" "p_status r \<noteq> AP_PENDING"
    "(approval_step sha)\<^sup>*\<^sup>* (db, fl) (db', fl')"
  shows "\<exists>!r'. r' \<in> set (requests db') \<and> p_id r' = p_id r \<and> p_decidedById r' = p_decidedById r \<and>
     p_decidedAt r' = p_decidedAt r \<and>
     (p_status r' = p_status r \<or> p_status r = AP_APPROVED \<and> p_status r' = AP_EXECUTED) \<and>
     (p_executionLeaseToken r \<noteq> None \<longrightarrow> p_executionLeaseToken r' = p_executionLeaseToken r)"
proof -
  note s = steps_settled [OF assms(4), unfolded fst_conv, OF assms(1-3)]
  then obtain r' where "r' \<in> set (requests db')" "settled_as r r'" by blast
  with s show ?thesis
    by (intro ex1I [of _ r']) (auto simp: settled_as_def intro: unique_on_eqD [of p_id "requests db'"])
qed

text \<open>A request that is pending, approved or claimed, for the examples.\<close>

definition sample_request :: "approval_status \<Rightarrow> string option \<Rightarrow> approval_request" where
  "sample_request st lease =
     \<lparr>p_id = ''r1'', p_operationType = ''op'', p_payloadHash = ''h'', p_payload = JNull, p_requestedById = ''u1'',
      p_status = st, p_decidedById = (if st = AP_PENDING then None else Some ''u2''),
      p_decidedAt = (if st = AP_PENDING then None else Some 5), p_decisionReason = None,
      p_executionLeaseToken = lease, p_executionLeasedAt = None, p_executedAt = None, p_expiresAt = 100\<rparr>"

definition sample_approvals :: "approval_status \<Rightarrow> string option \<Rightarrow> approvals_db" where
  "sample_approvals st lease = \<lparr>requests = [sample_request st lease], approval_audit = empty_audit_store\<rparr>"

theorem decided_once_witness:
  "\<exists>!r'. r' \<in> set (requests (snd (expireStale 200 (sample_approvals AP_APPROVED None)))) \<and> p_id r' = ''r1'' \<and>
     p_decidedById r' = Some ''u2'' \<and> p_decidedAt r' = Some 5 \<and>
     (p_status r' = AP_APPROVED \<or> AP_APPROVED = AP_APPROVED \<and> p_status r' = AP_EXECUTED)"
proof -
  have st: "(approval_step id)\<^sup>*\<^sup>* (sample_approvals AP_APPROVED None, [])
      (snd (expireStale 200 (sample_approvals AP_APPROVED None)), [])"
    by (rule r_into_rtranclp) (rule ap_expire)
  show ?thesis
    using decided_once [OF _ _ _ st, of "sample_request AP_APPROVED None"]
    by (simp add: sample_approvals_def sample_request_def unique_on_def)
qed

definition decided_by_other :: "approval_request \<Rightarrow> bool" where
  "decided_by_other r \<longleftrightarrow>
     (p_status r \<in> {AP_APPROVED, AP_REJECTED, AP_EXECUTED} \<longrightarrow>
        (\<exists>d. p_decidedById r = Some d \<and> d \<noteq> p_requestedById r)) \<and>
     (p_status r = AP_EXECUTED \<longrightarrow> p_executionLeaseToken r \<noteq> None)"

definition four_eyes :: "approvals_db \<times> inflight list \<Rightarrow> bool" where
  "four_eyes s \<longleftrightarrow>
     unique_on p_id (requests (fst s)) \<and> (\<forall>r\<in>set (requests (fst s)). decided_by_other r) \<and>
     (\<forall>f\<in>set (snd s). \<exists>r\<in>set (requests (fst s)). p_id r = f_id f \<and> p_requestedById r \<noteq> a_id (f_user f))"

lemma move_decided_by_other:
  assumes "\<And>r. r \<in> set t \<Longrightarrow> p r \<Longrightarrow> decided_by_other r \<Longrightarrow> decided_by_other (f r)" "\<forall>r\<in>set t. decided_by_other r"
  shows "\<forall>r\<in>set (upd_rows p f t). decided_by_other r"
  using assms by (auto elim!: upd_rowsE)

lemma inflight_kept:
  assumes "table_move t t'" "unique_on p_id t" "r \<in> set t"
  shows "\<exists>r'\<in>set t'. p_id r' = p_id r \<and> p_requestedById r' = p_requestedById r"
  using table_move_keeps [OF assms(1,3)] table_move_row [OF assms] by (auto simp: row_step_def)

lemma four_eyes_step:
  assumes "approval_step sha s s'" "four_eyes s"
  shows "four_eyes s'"
proof -
  note m = approval_step_table [OF assms(1)]
  have u: "unique_on p_id (requests (fst s))" using assms(2) by (simp add: four_eyes_def)
  have kept: "\<exists>r\<in>set (requests (fst s')). p_id r = f_id f \<and> p_requestedById r \<noteq> a_id (f_user f)"
    if "f \<in> set (snd s)" for f
    using assms(2) that inflight_kept [OF m u] unfolding four_eyes_def by metis
  have "\<forall>r\<in>set (requests (fst s')). decided_by_other r"
    using assms
  proof (induction rule: approval_step.induct)
    case (ap_create db fl user dto rid aid now)
    show ?case
      by (rule create_requests [of sha user dto rid aid now db])
        (use ap_create in \<open>auto simp: four_eyes_def decided_by_other_def\<close>)
  next
    case (ap_write f fl db aid now)
    then obtain r where r: "r \<in> set (requests db)" "p_id r = f_id f" "p_requestedById r \<noteq> a_id (f_user f)"
      and u: "unique_on p_id (requests db)" and all: "\<forall>r\<in>set (requests db). decided_by_other r"
      by (auto simp: four_eyes_def)
    show ?case
      unfolding fst_conv write_requests
    proof (rule move_decided_by_other [OF _ all])
      fix x assume x: "x \<in> set (requests db)" "decidable (f_id f) now x"
      then have "x = r" using r u by (auto simp: decidable_def intro: unique_on_eqD [of p_id "requests db"])
      with r show "decided_by_other (decide_mark (outcome_status (f_decision f), a_id (f_user f), now, q_reason (f_dto f)) x)"
        by (cases "f_decision f") (simp_all add: decided_by_other_def decide_mark_def)
    qed
  next
    case (ap_cancel db fl user rid aid now)
    then have all: "\<forall>r\<in>set (requests db). decided_by_other r" by (simp add: four_eyes_def)
    show ?case
      using cancel_requests [of sha user rid aid now db] all
      by (elim disjE) (auto elim!: upd_rowsE simp: decided_by_other_def)
  qed (auto simp: four_eyes_def claim_requests complete_requests expire_requests decided_by_other_def claim_mark_def
        claimable_def elim!: upd_rowsE)
  moreover have "\<forall>f\<in>set (snd s'). \<exists>r\<in>set (requests (fst s')). p_id r = f_id f \<and> p_requestedById r \<noteq> a_id (f_user f)"
    using assms(1) kept
  proof (cases rule: approval_step.cases)
    case (ap_check user rid dto db d fl)
    then have "\<exists>r\<in>set (requests db). p_id r = rid \<and> p_requestedById r \<noteq> a_id user"
      by (auto simp: decide_checks_def get_approval_def split: option.splits if_splits dest: find_row_Some)
    with ap_check kept show ?thesis by auto
  next
    case (ap_write f fl db aid now)
    with kept show ?thesis by (auto dest: notin_set_remove1)
  qed auto
  ultimately show ?thesis using table_move_unique [OF m u] by (simp add: four_eyes_def)
qed

text \<open>C15. Four eyes: in every state any interleaving of operations reaches, a request that is approved,
  rejected or executed was decided by someone other than its requester, and an executed one was
  executed under a lease.\<close>

theorem no_self_approval:
  assumes "(approval_step sha)\<^sup>*\<^sup>* (\<lparr>requests = [], approval_audit = st\<rparr>, []) (db, fl)" "r \<in> set (requests db)"
  shows "(p_status r \<in> {AP_APPROVED, AP_REJECTED, AP_EXECUTED} \<longrightarrow>
            (\<exists>d. p_decidedById r = Some d \<and> d \<noteq> p_requestedById r)) \<and>
         (p_status r = AP_EXECUTED \<longrightarrow> p_executionLeaseToken r \<noteq> None)"
proof -
  have "four_eyes (db, fl)"
    using assms(1)
  proof (induction rule: rtranclp_induct)
    case base
    show ?case by (simp add: four_eyes_def unique_on_def)
  qed (rule four_eyes_step)
  with assms(2) show ?thesis by (simp add: four_eyes_def decided_by_other_def)
qed

definition sample_dto :: create_approval_dto where
  "sample_dto = \<lparr>q_operationType = ''op'', q_payload = JNull, q_ttlMinutes = None\<rparr>"

definition sample_second :: authenticated_user where
  "sample_second = sample_admin\<lparr>a_id := ''u2''\<rparr>"

text \<open>The table after one user requests an operation and a second one approves it.\<close>

definition sample_created :: approvals_db where
  "sample_created = snd (create_approval id sample_admin sample_dto ''r1'' ''a1'' 0
     \<lparr>requests = [], approval_audit = empty_audit_store\<rparr>)"

definition sample_decide_dto :: decide_dto where
  "sample_decide_dto = \<lparr>q_expectedPayloadHash = ''null'', q_reason = None\<rparr>"

definition sample_approved :: approvals_db where
  "sample_approved = snd (decide_write id sample_second ''r1'' sample_decide_dto DecideApprove ''a2'' 5 sample_created)"

lemma sample_created_requests:
  "requests sample_created = [new_request sample_admin sample_dto ''null'' 86400000 ''r1'']"
  by (simp add: sample_created_def create_approval_def sample_dto_def canonicalize_def approval_audit_requests
      nullish_def DEFAULT_TTL_MINUTES_def insert_row_def Let_def)

lemma sample_approved_requests:
  "requests sample_approved =
     [decide_mark (AP_APPROVED, ''u2'', 5, None) (new_request sample_admin sample_dto ''null'' 86400000 ''r1'')]"
  by (simp add: sample_approved_def write_requests sample_created_requests upd_rows_def decidable_def new_request_def
      sample_second_def sample_decide_dto_def)

theorem no_self_approval_witness:
  "let r = hd (requests sample_approved) in
   p_status r = AP_APPROVED \<and> p_requestedById r = ''adm'' \<and> (\<exists>d. p_decidedById r = Some d \<and> d \<noteq> p_requestedById r)"
proof -
  let ?f = "\<lparr>f_user = sample_second, f_id = ''r1'', f_dto = sample_decide_dto, f_decision = DecideApprove\<rparr>"
  have 1: "approval_step id (\<lparr>requests = [], approval_audit = empty_audit_store\<rparr>, []) (sample_created, [])"
    unfolding sample_created_def by (rule ap_create)
  have "decide_checks sample_second ''r1'' sample_decide_dto sample_created = Inr ()"
    by (simp add: decide_checks_def get_approval_def sample_created_requests find_row_def new_request_def
        sample_second_def sample_admin_def sample_decide_dto_def)
  then have 2: "approval_step id (sample_created, []) (sample_created, [?f])" by (rule ap_check)
  have "approval_step id (sample_created, [?f])
      (snd (decide_write id (f_user ?f) (f_id ?f) (f_dto ?f) (f_decision ?f) ''a2'' 5 sample_created), remove1 ?f [?f])"
    by (rule ap_write) simp
  then have 3: "approval_step id (sample_created, [?f]) (sample_approved, [])" by (simp add: sample_approved_def)
  have "(approval_step id)\<^sup>*\<^sup>* (\<lparr>requests = [], approval_audit = empty_audit_store\<rparr>, []) (sample_approved, [])"
    using 1 2 3 by (meson converse_rtranclp_into_rtranclp rtranclp.rtrancl_refl)
  from no_self_approval [OF this, of "hd (requests sample_approved)"] show ?thesis
    by (simp add: sample_approved_requests decide_mark_def new_request_def sample_admin_def)
qed

lemma claim_True:
  assumes "claimForExecution rid token now db = (Inr (Claimed tk), db1)"
  shows "tk = token" "count_rows (claimable rid) (requests db) = 1"
    "requests db1 = upd_rows (claimable rid) (claim_mark (token, now)) (requests db)"
  using assms by (auto simp: claimForExecution_def update_many_def Let_def split: if_splits sum.splits)

text \<open>C17. One execution: after a claim that succeeded, every claim of the same request in every later
  state fails, and the lease that is recorded stays the one of the winner.\<close>

theorem execution_claimed_once:
  assumes "unique_on p_id (requests db)" "claimForExecution rid token now db = (Inr (Claimed tk), db1)"
    "(approval_step sha)\<^sup>*\<^sup>* (db1, fl) (db2, fl2)"
  shows "\<nexists>tk'. fst (claimForExecution rid token' now' db2) = Inr (Claimed tk')"
proof
  assume "\<exists>tk'. fst (claimForExecution rid token' now' db2) = Inr (Claimed tk')"
  then obtain tk' db3 where c2: "claimForExecution rid token' now' db2 = (Inr (Claimed tk'), db3)"
    by (metis prod.collapse)
  note c = claim_True [OF assms(2)]
  have "0 < count_rows (claimable rid) (requests db)" using c(2) by simp
  then obtain r where r: "r \<in> set (requests db)" "claimable rid r" by (auto simp: count_rows_pos)
  let ?r = "claim_mark (token, now) r"
  have r1: "?r \<in> set (requests db1)" unfolding c(3) set_upd_rows using r by (auto intro: rev_image_eqI)
  have u1: "unique_on p_id (requests db1)" unfolding c(3) using assms(1) by (simp add: unique_on_upd_rows claim_mark_def)
  have "p_status ?r \<noteq> AP_PENDING" using r(2) by (simp add: claim_mark_def claimable_def)
  from steps_settled [OF assms(3), unfolded fst_conv, OF u1 r1 this]
  obtain r' where r': "r' \<in> set (requests db2)" "settled_as ?r r'" and u2: "unique_on p_id (requests db2)" by blast
  have "0 < count_rows (claimable rid) (requests db2)" using claim_True(2) [OF c2] by simp
  then obtain x where x: "x \<in> set (requests db2)" "claimable rid x" by (auto simp: count_rows_pos)
  have "x = r'"
    using u2 x r' r(2) by (auto simp: settled_as_def claim_mark_def claimable_def intro: unique_on_eqD [of p_id "requests db2"])
  with x r' show False by (auto simp: settled_as_def claim_mark_def claimable_def)
qed

theorem execution_claimed_once_witness:
  "let db1 = snd (claimForExecution ''r1'' ''t1'' 10 (sample_approvals AP_APPROVED None)) in
   fst (claimForExecution ''r1'' ''t1'' 10 (sample_approvals AP_APPROVED None)) = Inr (Claimed ''t1'') \<and>
   (\<nexists>tk'. fst (claimForExecution ''r1'' ''t2'' 20 db1) = Inr (Claimed tk'))"
proof -
  let ?c = "claimForExecution ''r1'' ''t1'' 10 (sample_approvals AP_APPROVED None)"
  have c: "?c = (Inr (Claimed ''t1''), snd ?c)" and u: "unique_on p_id (requests (sample_approvals AP_APPROVED None))"
    by (simp_all add: claimForExecution_def update_many_def count_rows_def claimable_def sample_approvals_def
        sample_request_def unique_on_def)
  show ?thesis
    using execution_claimed_once [OF u c rtranclp.rtrancl_refl, of "''t2''" 20] c by (simp add: Let_def) (metis fst_conv)
qed

text \<open>L. The expiry boundary: at the instant a request expires it can no longer be decided, yet the
  sweep run at that same instant leaves it pending.\<close>

theorem expiry_boundary_gap:
  assumes "unique_on p_id (requests db)" "r \<in> set (requests db)" "p_status r = AP_PENDING" "p_expiresAt r = now"
    "p_requestedById r \<noteq> a_id user" "p_payloadHash r = q_expectedPayloadHash dto"
  shows "fst (decide sha user (p_id r) dto d aid now db) =
           Inl (Conflict ''Request has expired and can no longer be decided'') \<and>
         r \<in> set (requests (snd (expireStale now db)))"
proof
  have f: "find_row (\<lambda>x. p_id x = p_id r) (requests db) = Some r" by (rule find_row_unique [OF assms(1,2)])
  have "\<not> decidable (p_id r) now x" if "x \<in> set (requests db)" for x
    using that assms unique_on_eqD [OF assms(1) that assms(2)] by (auto simp: decidable_def)
  then have z: "count_rows (decidable (p_id r) now) (requests db) = 0" by (simp add: count_rows_zero)
  then show "fst (decide sha user (p_id r) dto d aid now db) =
      Inl (Conflict ''Request has expired and can no longer be decided'')"
    using f assms by (simp add: decide_def decide_checks_def decide_write_def get_approval_def update_many_def
        upd_rows_none Let_def)
  show "r \<in> set (requests (snd (expireStale now db)))"
    unfolding expire_requests set_upd_rows using assms(2,4) by (auto intro: rev_image_eqI)
qed

theorem expiry_boundary_gap_witness:
  "fst (decide id sample_admin ''r1'' \<lparr>q_expectedPayloadHash = ''h'', q_reason = None\<rparr> DecideApprove ''a1'' 100
        (sample_approvals AP_PENDING None)) = Inl (Conflict ''Request has expired and can no longer be decided'') \<and>
   sample_request AP_PENDING None \<in> set (requests (snd (expireStale 100 (sample_approvals AP_PENDING None))))"
  using expiry_boundary_gap [of "sample_approvals AP_PENDING None" "sample_request AP_PENDING None" 100 sample_admin
      "\<lparr>q_expectedPayloadHash = ''h'', q_reason = None\<rparr>" id DecideApprove "''a1''"]
  by (simp add: sample_approvals_def sample_request_def unique_on_def sample_admin_def)

end
