(* ===== verification/Predicates.thy ===== *)
theory Predicates
  imports Json
begin

text \<open>
  Webhook predicates: the expression grammar of \<open>webhooks/predicate.types.ts\<close>, the limits of
  \<open>common/limits/predicate-limits.ts\<close>, the validators of
  \<open>webhooks/validation/predicate.validators.ts\<close> and the evaluator of
  \<open>webhooks/services/predicate-evaluator.service.ts\<close>.

  Validators and evaluator both run on the JSON that was sent or stored, so both are modelled on
  \<open>json\<close>, with the language's treatment of missing members and of values of the wrong type; an
  exception is a left value.  The typed grammar is \<open>pexpr\<close>, its meaning \<open>holds\<close>; \<open>parse\<close> reads
  the one from the other.
\<close>

subsection \<open>Grammar\<close>

datatype predicate_field = F_resource | F_outcome | F_schemaVersion

datatype pexpr =
    PEq predicate_field json
  | PIn predicate_field "json list"
  | PAnd "pexpr list"
  | POr "pexpr list"
  | PNot pexpr

record event_context =
  c_resource :: string
  c_outcome :: string
  c_schemaVersion :: string

record evaluation_result =
  e_match :: bool
  e_reason :: "string option"
  e_visited :: nat

record evaluation_budget =
  b_limit :: nat
  b_visited :: nat

definition PREDICATE_FIELDS :: "string list" where
  "PREDICATE_FIELDS = [''resource'', ''outcome'', ''schemaVersion'']"

definition ATOMIC_OPERATORS :: "string list" where
  "ATOMIC_OPERATORS = [''eq'', ''in'']"

definition LOGICAL_OPERATORS :: "string list" where
  "LOGICAL_OPERATORS = [''and'', ''or'', ''not'']"

definition ALL_OPERATORS :: "string list" where
  "ALL_OPERATORS = ATOMIC_OPERATORS @ LOGICAL_OPERATORS"

definition maxDepth :: nat where "maxDepth = 4"
definition maxNodes :: nat where "maxNodes = 32"
definition maxFieldValueLength :: nat where "maxFieldValueLength = 256"
definition maxInListSize :: nat where "maxInListSize = 16"
definition maxEvaluationBudget :: nat where "maxEvaluationBudget = 256"

subsection \<open>Members of a JSON value\<close>

text \<open>\<open>x.k\<close> for a value that may be undefined: only an object has the members asked for here.\<close>

fun member :: "string \<Rightarrow> json option \<Rightarrow> json option" where
  "member k (Some (JObj es)) = map_of es k"
| "member k _ = None"

fun is_object :: "json \<Rightarrow> bool" where
  "is_object (JObj es) = True"
| "is_object (JArr xs) = True"
| "is_object _ = False"

fun own_keys :: "json \<Rightarrow> string list" where
  "own_keys (JObj es) = map fst es"
| "own_keys (JArr xs) = map show_nat [0..<length xs]"
| "own_keys _ = []"

text \<open>A size that every recursion into sub-expressions decreases.\<close>

fun jsize :: "json \<Rightarrow> nat" where
  "jsize (JStr s) = (if length s \<le> 1 then 1 else 2 * length s + 1)"
| "jsize (JArr xs) = 1 + sum_list (map (\<lambda>x. Suc (jsize x)) xs)"
| "jsize (JObj es) = 3 + sum_list (map (\<lambda>(k, v). jsize v) es)"
| "jsize _ = 1"

definition osize :: "json option \<Rightarrow> nat" where
  "osize x = (case x of None \<Rightarrow> 1 | Some j \<Rightarrow> jsize j)"

definition lsize :: "json list \<Rightarrow> nat" where
  "lsize xs = sum_list (map (\<lambda>x. Suc (jsize x)) xs)"

lemma jsize_pos [simp]: "0 < jsize j"
  by (cases j) auto

lemma member_size: "member k (Some j) = Some v \<Longrightarrow> jsize v + 3 \<le> jsize j"
proof (cases j)
  case (JObj es)
  assume "member k (Some j) = Some v"
  with JObj have "(k, v) \<in> set es" by (auto dest: map_of_SomeD)
  then have "jsize v \<le> sum_list (map (\<lambda>(k, v). jsize v) es)"
    by (intro member_le_sum_list) (force, simp)
  with JObj show ?thesis by simp
qed auto

lemma member_is_object: "member k (Some j) = Some v \<Longrightarrow> is_object j"
  by (cases j) auto

lemma member_osize: "member k x = Some v \<Longrightarrow> jsize v + 3 \<le> osize x"
  by (cases x) (auto simp: osize_def dest: member_size)

subsection \<open>Validation\<close>

definition valid_value :: "json \<Rightarrow> bool" where
  "valid_value v \<longleftrightarrow>
     (case v of
        JNull \<Rightarrow> True | JInt _ \<Rightarrow> True | JNonFinite \<Rightarrow> True | JBool _ \<Rightarrow> True
      | JStr s \<Rightarrow> utf8_length s \<le> maxFieldValueLength
      | _ \<Rightarrow> False)"

definition only_keys :: "string list \<Rightarrow> json \<Rightarrow> bool" where
  "only_keys allowed j \<longleftrightarrow> list_all (\<lambda>k. k \<in> set allowed) (own_keys j)"

definition known_field :: "json option \<Rightarrow> bool" where
  "known_field f \<longleftrightarrow> (case f of Some (JStr s) \<Rightarrow> s \<in> set PREDICATE_FIELDS | _ \<Rightarrow> False)"

definition valid_list :: "json list \<Rightarrow> bool" where
  "valid_list vs \<longleftrightarrow> vs \<noteq> [] \<and> length vs \<le> maxInListSize \<and> list_all valid_value vs"

definition isValidAtomicExpression :: "json \<Rightarrow> bool" where
  "isValidAtomicExpression expr \<longleftrightarrow>
     (if member ''op'' (Some expr) = Some (JStr ''eq'') then
        (case member ''value'' (Some expr) of
           None \<Rightarrow> False
         | Some v \<Rightarrow> known_field (member ''field'' (Some expr)) \<and> valid_value v \<and>
                     only_keys [''op'', ''field'', ''value''] expr)
      else if member ''op'' (Some expr) = Some (JStr ''in'') then
        (case member ''values'' (Some expr) of
           Some (JArr vs) \<Rightarrow> known_field (member ''field'' (Some expr)) \<and> valid_list vs \<and>
                             only_keys [''op'', ''field'', ''values''] expr
         | _ \<Rightarrow> False)
      else False)"

function isValidExpression :: "json \<Rightarrow> bool"
  and isValidLogicalExpression :: "string \<Rightarrow> json \<Rightarrow> bool" where
  "isValidExpression expr =
     (if \<not> is_object expr then False
      else case member ''op'' (Some expr) of
             Some (JStr op) \<Rightarrow>
               if op \<notin> set ALL_OPERATORS then False
               else if op \<in> set ATOMIC_OPERATORS then isValidAtomicExpression expr
               else if op \<in> set LOGICAL_OPERATORS then isValidLogicalExpression op expr
               else False
           | _ \<Rightarrow> False)"
| "isValidLogicalExpression op expr =
     (case member ''expressions'' (Some expr) of
        Some (JArr xs) \<Rightarrow>
          (if op = ''not'' then length xs = 1 else if op = ''and'' \<or> op = ''or'' then \<not> length xs < 2 else True) \<and>
          list_all (\<lambda>x. isValidExpression x) xs \<and> only_keys [''op'', ''expressions''] expr
      | _ \<Rightarrow> False)"
  by pat_completeness auto
termination
proof (relation "measure (\<lambda>x. case x of Inl e \<Rightarrow> Suc (jsize e) | Inr (op, e) \<Rightarrow> jsize e)", goal_cases)
  case (3 op expr v xs x)
  then have "Suc (jsize x) \<le> sum_list (map (\<lambda>x. Suc (jsize x)) xs)"
    by (intro member_le_sum_list) auto
  moreover have "jsize (JArr xs) + 3 \<le> jsize expr" using 3 by (intro member_size) auto
  ultimately show ?case by simp
qed auto

declare isValidExpression.simps [simp del] isValidLogicalExpression.simps [simp del]

text \<open>\<open>walkExpression\<close> with its two counters; \<open>calculateTreeMetrics\<close>.\<close>

record tree_metrics =
  t_maxDepth :: nat
  t_totalNodes :: nat

definition count_node :: "json \<Rightarrow> nat \<Rightarrow> tree_metrics \<Rightarrow> tree_metrics" where
  "count_node expr depth st =
     (let has = (\<lambda>k. member k (Some expr) \<noteq> None) in
      st\<lparr>t_maxDepth := max (t_maxDepth st) depth,
         t_totalNodes := t_totalNodes st + 1 + (if has ''field'' then 1 else 0) + (if has ''value'' then 1 else 0) +
           (case member ''values'' (Some expr) of Some (JArr vs) \<Rightarrow> length vs | _ \<Rightarrow> 0)\<rparr>)"

function walkExpression :: "json \<Rightarrow> nat \<Rightarrow> tree_metrics \<Rightarrow> tree_metrics"
  and walkExpressions :: "json list \<Rightarrow> nat \<Rightarrow> tree_metrics \<Rightarrow> tree_metrics" where
  "walkExpression expr depth st =
     (if \<not> is_object expr then st
      else case member ''expressions'' (Some expr) of
             Some (JArr xs) \<Rightarrow> walkExpressions xs (depth + 1) (count_node expr depth st)
           | _ \<Rightarrow> count_node expr depth st)"
| "walkExpressions [] depth st = st"
| "walkExpressions (x # xs) depth st = walkExpressions xs depth (walkExpression x depth st)"
  by pat_completeness auto
termination
proof (relation "measure (\<lambda>x. case x of Inl (e, _) \<Rightarrow> Suc (jsize e) | Inr (xs, _) \<Rightarrow> Suc (lsize xs))", goal_cases)
  case (2 expr depth st v xs)
  then have "jsize (JArr xs) + 3 \<le> jsize expr" by (intro member_size) auto
  then show ?case by (simp add: lsize_def)
qed (auto simp: lsize_def)

declare walkExpression.simps [simp del]

definition calculateTreeMetrics :: "json \<Rightarrow> tree_metrics" where
  "calculateTreeMetrics expr = walkExpression expr 1 \<lparr>t_maxDepth = 0, t_totalNodes = 0\<rparr>"

datatype expression_context = Ctx_root | Ctx_and | Ctx_or | Ctx_not | Ctx_in

text \<open>\<open>ValidatePredicateExpression(context).validate\<close>.\<close>

definition validatePredicateExpression :: "expression_context \<Rightarrow> json option \<Rightarrow> bool" where
  "validatePredicateExpression context val =
     (case context of
        Ctx_in \<Rightarrow> (case val of Some (JArr vs) \<Rightarrow> valid_list vs | _ \<Rightarrow> False)
      | Ctx_root \<Rightarrow>
          (case val of
             None \<Rightarrow> False
           | Some expr \<Rightarrow>
               is_object expr \<and>
               (let metrics = calculateTreeMetrics expr in
                \<not> t_maxDepth metrics > maxDepth \<and> \<not> t_totalNodes metrics > maxNodes \<and> isValidExpression expr))
      | _ \<Rightarrow>
          (case val of
             Some (JArr xs) \<Rightarrow>
               (let minSize = (if context = Ctx_not then 1 else 2) in
                \<not> (length xs < minSize \<or> (context = Ctx_not \<and> length xs > 1)) \<and> list_all isValidExpression xs)
           | _ \<Rightarrow> False))"

text \<open>\<open>ValidatePredicateExpression(context).defaultMessage\<close>.\<close>

definition validation_message :: "expression_context \<Rightarrow> json option \<Rightarrow> string" where
  "validation_message context val =
     (case context of
        Ctx_in \<Rightarrow>
          (case val of
             Some (JArr vs) \<Rightarrow>
               if vs = [] then ''values array must not be empty''
               else if length vs > maxInListSize
               then ''values array must not exceed '' @ show_nat maxInListSize @ '' items''
               else ''values array contains invalid items''
           | _ \<Rightarrow> ''values must be an array'')
      | Ctx_and \<Rightarrow>
          (case val of
             Some (JArr xs) \<Rightarrow>
               if length xs < 2 then ''and expressions must have at least 2 sub-expressions''
               else ''and expressions contain invalid expressions''
           | _ \<Rightarrow> ''expressions must be an array'')
      | Ctx_or \<Rightarrow>
          (case val of
             Some (JArr xs) \<Rightarrow>
               if length xs < 2 then ''or expressions must have at least 2 sub-expressions''
               else ''or expressions contain invalid expressions''
           | _ \<Rightarrow> ''expressions must be an array'')
      | Ctx_not \<Rightarrow>
          (case val of
             Some (JArr xs) \<Rightarrow>
               if length xs \<noteq> 1 then ''not expression must have exactly 1 sub-expression''
               else ''not expression contains an invalid sub-expression''
           | _ \<Rightarrow> ''expressions must be an array'')
      | Ctx_root \<Rightarrow>
          (case val of
             None \<Rightarrow> ''logic must be a predicate expression object''
           | Some expr \<Rightarrow>
               if \<not> is_object expr then ''logic must be a predicate expression object''
               else let metrics = calculateTreeMetrics expr in
                    if t_maxDepth metrics > maxDepth
                    then ''predicate is nested too deep (depth: '' @ show_nat (t_maxDepth metrics) @ '', max: '' @
                         show_nat maxDepth @ '')''
                    else if t_totalNodes metrics > maxNodes
                    then ''predicate has too many nodes (count: '' @ show_nat (t_totalNodes metrics) @ '', max: '' @
                         show_nat maxNodes @ '')''
                    else ''logic must be a valid predicate expression''))"

subsection \<open>Evaluation\<close>

text \<open>
  \<open>context[expr.field]\<close>: the field is converted to a property key; a key that the object inherits
  gives a function or an object, which equals no JSON value.
\<close>

datatype js_value = Undefined | Text string | Inherited string

fun to_text :: "json \<Rightarrow> string" where
  "to_text JNull = ''null''"
| "to_text (JBool b) = (if b then ''true'' else ''false'')"
| "to_text (JInt i) = show_int i"
| "to_text JNonFinite = ''NaN''"
| "to_text (JStr s) = s"
| "to_text (JArr xs) = join '','' (map (\<lambda>x. if x = JNull then [] else to_text x) xs)"
| "to_text (JObj es) = ''[object Object]''"

definition property_key :: "json option \<Rightarrow> string" where
  "property_key f = (case f of None \<Rightarrow> ''undefined'' | Some j \<Rightarrow> to_text j)"

definition OBJECT_METHODS :: "string list" where
  "OBJECT_METHODS = [''constructor'', ''hasOwnProperty'', ''isPrototypeOf'', ''propertyIsEnumerable'',
     ''toLocaleString'', ''toString'', ''valueOf'', ''__defineGetter__'', ''__defineSetter__'',
     ''__lookupGetter__'', ''__lookupSetter__'', ''__proto__'']"

definition inherited_text :: "string \<Rightarrow> string" where
  "inherited_text k =
     (if k = ''__proto__'' then ''[object Object]''
      else if k = ''constructor'' then ''function Object() { [native code] }''
      else ''function '' @ k @ ''() { [native code] }'')"

definition context_value :: "event_context \<Rightarrow> json option \<Rightarrow> js_value" where
  "context_value context f =
     (let k = property_key f in
      if k = ''resource'' then Text (c_resource context)
      else if k = ''outcome'' then Text (c_outcome context)
      else if k = ''schemaVersion'' then Text (c_schemaVersion context)
      else if k \<in> set OBJECT_METHODS then Inherited (inherited_text k)
      else Undefined)"

fun strict_equals :: "js_value \<Rightarrow> json option \<Rightarrow> bool" where
  "strict_equals Undefined v \<longleftrightarrow> v = None"
| "strict_equals (Text s) v \<longleftrightarrow> v = Some (JStr s)"
| "strict_equals (Inherited _) v \<longleftrightarrow> False"

fun value_text :: "js_value \<Rightarrow> string" where
  "value_text Undefined = ''undefined''"
| "value_text (Text s) = s"
| "value_text (Inherited s) = s"

text \<open>\<open>xs.includes(v)\<close>: arrays and strings have the method, everything else throws.\<close>

definition js_includes :: "json option \<Rightarrow> js_value \<Rightarrow> (string, bool) result" where
  "js_includes xs v =
     (case xs of
        Some (JArr vs) \<Rightarrow> Inr (list_ex (\<lambda>x. strict_equals v (Some x)) vs)
      | Some (JStr s) \<Rightarrow> Inr (contains_sub s (value_text v))
      | _ \<Rightarrow> Inl ''TypeError'')"

text \<open>\<open>for (const x of xs)\<close> and \<open>xs[0]\<close>.\<close>

definition iterate :: "json option \<Rightarrow> (string, json list) result" where
  "iterate xs =
     (case xs of
        Some (JArr vs) \<Rightarrow> Inr vs
      | Some (JStr s) \<Rightarrow> Inr (map (\<lambda>c. JStr [c]) s)
      | _ \<Rightarrow> Inl ''TypeError'')"

definition first_element :: "json option \<Rightarrow> (string, json option) result" where
  "first_element xs =
     (case xs of
        None \<Rightarrow> Inl ''TypeError''
      | Some JNull \<Rightarrow> Inl ''TypeError''
      | Some (JArr vs) \<Rightarrow> Inr (case vs of [] \<Rightarrow> None | v # _ \<Rightarrow> Some v)
      | Some (JStr s) \<Rightarrow> Inr (case s of [] \<Rightarrow> None | c # _ \<Rightarrow> Some (JStr [c]))
      | Some (JObj es) \<Rightarrow> Inr (map_of es ''0'')
      | _ \<Rightarrow> Inr None)"

definition budget_exceeded :: "evaluation_budget \<Rightarrow> evaluation_result" where
  "budget_exceeded b = \<lparr>e_match = False, e_reason = Some ''EVALUATION_BUDGET_EXCEEDED'', e_visited = b_visited b\<rparr>"

definition atomic_result :: "bool \<Rightarrow> evaluation_result" where
  "atomic_result matched = \<lparr>e_match = matched, e_reason = (if matched then None else Some ''NO_MATCH''), e_visited = 1\<rparr>"

definition evaluateComparison :: "json option \<Rightarrow> event_context \<Rightarrow> evaluation_result" where
  "evaluateComparison expr context =
     atomic_result (strict_equals (context_value context (member ''field'' expr)) (member ''value'' expr))"

definition evaluateInList :: "json option \<Rightarrow> event_context \<Rightarrow> (string, evaluation_result) result" where
  "evaluateInList expr context =
     (case js_includes (member ''values'' expr) (context_value context (member ''field'' expr)) of
        Inl e \<Rightarrow> Inl e | Inr matched \<Rightarrow> Inr (atomic_result matched))"

definition negate_result :: "evaluation_budget \<Rightarrow> evaluation_result \<Rightarrow> evaluation_result" where
  "negate_result b r =
     (if e_reason r = Some ''EVALUATION_BUDGET_EXCEEDED'' then r
      else \<lparr>e_match = (\<not> e_match r), e_reason = (if \<not> e_match r then None else Some ''NO_MATCH''), e_visited = b_visited b\<rparr>)"

type_synonym outcome = "(string, evaluation_result) result \<times> evaluation_budget"

lemma iterate_size: "iterate (member k x) = Inr xs \<Longrightarrow> Suc (lsize xs) < osize x"
proof -
  assume a: "iterate (member k x) = Inr xs"
  then obtain v where v: "member k x = Some v" by (cases "member k x") (auto simp: iterate_def)
  have "lsize (map (\<lambda>c. JStr [c]) s) = 2 * length s" for s by (induction s) (auto simp: lsize_def)
  with a v have "lsize xs \<le> Suc (jsize v)"
    by (auto simp: iterate_def lsize_def split: json.splits if_splits)
  with member_osize [OF v] show ?thesis by simp
qed

lemma first_element_size: "first_element (member k x) = Inr y \<Longrightarrow> osize y < osize x"
proof -
  assume a: "first_element (member k x) = Inr y"
  then obtain v where v: "member k x = Some v" by (cases "member k x") (auto simp: first_element_def)
  have "map_of es k' = Some z \<Longrightarrow> jsize z \<le> jsize (JObj es)" for es k' z
    using member_size [of k' "JObj es" z] by simp
  with a v have "osize y \<le> jsize v"
    by (fastforce simp: first_element_def osize_def split: json.splits list.splits option.splits)
  with member_osize [OF v] show ?thesis by simp
qed

function evaluateExpression :: "json option \<Rightarrow> event_context \<Rightarrow> evaluation_budget \<Rightarrow> outcome"
  and evaluateAnd :: "json list \<Rightarrow> event_context \<Rightarrow> evaluation_budget \<Rightarrow> outcome"
  and evaluateOr :: "json list \<Rightarrow> event_context \<Rightarrow> evaluation_budget \<Rightarrow> outcome"
  and evaluateNot :: "json option \<Rightarrow> event_context \<Rightarrow> evaluation_budget \<Rightarrow> outcome" where
  "evaluateExpression expr context budget =
     (if b_visited budget \<ge> b_limit budget then (Inr (budget_exceeded budget), budget)
      else
        let b = budget\<lparr>b_visited := b_visited budget + 1\<rparr>;
            op = member ''op'' expr
        in if b_visited b \<ge> b_limit b then (Inr (budget_exceeded b), b)
           else if op = Some (JStr ''eq'') then (Inr (evaluateComparison expr context), b)
           else if op = Some (JStr ''in'') then (evaluateInList expr context, b)
           else if op = Some (JStr ''and'') then
             (case iterate (member ''expressions'' expr) of Inl e \<Rightarrow> (Inl e, b) | Inr xs \<Rightarrow> evaluateAnd xs context b)
           else if op = Some (JStr ''or'') then
             (case iterate (member ''expressions'' expr) of Inl e \<Rightarrow> (Inl e, b) | Inr xs \<Rightarrow> evaluateOr xs context b)
           else if op = Some (JStr ''not'') then
             (case first_element (member ''expressions'' expr) of Inl e \<Rightarrow> (Inl e, b) | Inr x \<Rightarrow> evaluateNot x context b)
           else (Inr \<lparr>e_match = False, e_reason = Some ''UNKNOWN_OPERATOR'', e_visited = b_visited b\<rparr>, b))"
| "evaluateAnd [] context budget = (Inr \<lparr>e_match = True, e_reason = None, e_visited = b_visited budget\<rparr>, budget)"
| "evaluateAnd (x # xs) context budget =
     (if b_visited budget \<ge> b_limit budget then (Inr (budget_exceeded budget), budget)
      else case evaluateExpression (Some x) context budget of
             (Inl e, b) \<Rightarrow> (Inl e, b)
           | (Inr r, b) \<Rightarrow>
               if e_reason r = Some ''EVALUATION_BUDGET_EXCEEDED'' then (Inr r, b)
               else if \<not> e_match r then (Inr r, b)
               else evaluateAnd xs context b)"
| "evaluateOr [] context budget =
     (Inr \<lparr>e_match = False, e_reason = Some ''NO_MATCH'', e_visited = b_visited budget\<rparr>, budget)"
| "evaluateOr (x # xs) context budget =
     (if b_visited budget \<ge> b_limit budget then (Inr (budget_exceeded budget), budget)
      else case evaluateExpression (Some x) context budget of
             (Inl e, b) \<Rightarrow> (Inl e, b)
           | (Inr r, b) \<Rightarrow>
               if e_reason r = Some ''EVALUATION_BUDGET_EXCEEDED'' then (Inr r, b)
               else if e_match r then (Inr r, b)
               else evaluateOr xs context b)"
| "evaluateNot x context budget =
     (if b_visited budget \<ge> b_limit budget then (Inr (budget_exceeded budget), budget)
      else case evaluateExpression x context budget of
             (Inl e, b) \<Rightarrow> (Inl e, b)
           | (Inr r, b) \<Rightarrow> (Inr (negate_result b r), b))"
  by pat_completeness auto
termination
  by (relation "measure (\<lambda>x. case x of Inl (Inl (e, _)) \<Rightarrow> 2 * osize e | Inl (Inr (xs, _)) \<Rightarrow> 2 * lsize xs + 1
        | Inr (Inl (xs, _)) \<Rightarrow> 2 * lsize xs + 1 | Inr (Inr (e, _)) \<Rightarrow> 2 * osize e + 1)")
    (auto simp: lsize_def osize_def dest!: iterate_size first_element_size)

declare evaluateExpression.simps [simp del]

definition evaluate :: "json option \<Rightarrow> event_context \<Rightarrow> evaluation_result" where
  "evaluate logic context =
     (case evaluateExpression logic context \<lparr>b_limit = maxEvaluationBudget, b_visited = 0\<rparr> of
        (Inl e, b) \<Rightarrow> \<lparr>e_match = False, e_reason = Some ''EVALUATION_FAILED'', e_visited = b_visited b\<rparr>
      | (Inr r, b) \<Rightarrow> r)"

definition deriveContext :: "string \<Rightarrow> string \<Rightarrow> event_context" where
  "deriveContext eventType schemaVersion =
     (case split_on CHR ''.'' eventType of
        [r, out] \<Rightarrow> \<lparr>c_resource = r, c_outcome = out, c_schemaVersion = schemaVersion\<rparr>
      | _ \<Rightarrow> \<lparr>c_resource = [], c_outcome = [], c_schemaVersion = schemaVersion\<rparr>)"

subsection \<open>Meaning\<close>

fun field_value :: "predicate_field \<Rightarrow> event_context \<Rightarrow> string" where
  "field_value F_resource context = c_resource context"
| "field_value F_outcome context = c_outcome context"
| "field_value F_schemaVersion context = c_schemaVersion context"

fun field_name :: "predicate_field \<Rightarrow> string" where
  "field_name F_resource = ''resource''"
| "field_name F_outcome = ''outcome''"
| "field_name F_schemaVersion = ''schemaVersion''"

fun holds :: "pexpr \<Rightarrow> event_context \<Rightarrow> bool" where
  "holds (PEq f v) context \<longleftrightarrow> v = JStr (field_value f context)"
| "holds (PIn f vs) context \<longleftrightarrow> JStr (field_value f context) \<in> set vs"
| "holds (PAnd ps) context \<longleftrightarrow> (\<forall>p\<in>set ps. holds p context)"
| "holds (POr ps) context \<longleftrightarrow> (\<exists>p\<in>set ps. holds p context)"
| "holds (PNot p) context \<longleftrightarrow> \<not> holds p context"

fun visits :: "pexpr \<Rightarrow> nat" where
  "visits (PAnd ps) = Suc (sum_list (map visits ps))"
| "visits (POr ps) = Suc (sum_list (map visits ps))"
| "visits (PNot p) = Suc (visits p)"
| "visits _ = 1"

text \<open>The expression a JSON value denotes.\<close>

inductive denotes :: "json \<Rightarrow> pexpr \<Rightarrow> bool" where
  d_eq: "member ''op'' (Some j) = Some (JStr ''eq'') \<Longrightarrow> member ''field'' (Some j) = Some (JStr (field_name f)) \<Longrightarrow>
    member ''value'' (Some j) = Some v \<Longrightarrow> denotes j (PEq f v)"
| d_in: "member ''op'' (Some j) = Some (JStr ''in'') \<Longrightarrow> member ''field'' (Some j) = Some (JStr (field_name f)) \<Longrightarrow>
    member ''values'' (Some j) = Some (JArr vs) \<Longrightarrow> denotes j (PIn f vs)"
| d_and: "member ''op'' (Some j) = Some (JStr ''and'') \<Longrightarrow> member ''expressions'' (Some j) = Some (JArr xs) \<Longrightarrow>
    list_all2 denotes xs ps \<Longrightarrow> denotes j (PAnd ps)"
| d_or: "member ''op'' (Some j) = Some (JStr ''or'') \<Longrightarrow> member ''expressions'' (Some j) = Some (JArr xs) \<Longrightarrow>
    list_all2 denotes xs ps \<Longrightarrow> denotes j (POr ps)"
| d_not: "member ''op'' (Some j) = Some (JStr ''not'') \<Longrightarrow> member ''expressions'' (Some j) = Some (JArr [x]) \<Longrightarrow>
    denotes x p \<Longrightarrow> denotes j (PNot p)"

subsection \<open>Facts\<close>

lemma context_value_field [simp]: "context_value context (Some (JStr (field_name f))) = Text (field_value f context)"
  by (cases f) (simp_all add: context_value_def property_key_def)

lemma known_field_name: "known_field x \<Longrightarrow> \<exists>f. x = Some (JStr (field_name f))"
  by (auto simp: known_field_def PREDICATE_FIELDS_def split: option.splits json.splits
      intro: exI [of _ F_resource] exI [of _ F_outcome] exI [of _ F_schemaVersion])

lemma ex_list_all2: "(\<And>x. x \<in> set xs \<Longrightarrow> \<exists>y. R x y) \<Longrightarrow> \<exists>ys. list_all2 R xs ys"
proof (induction xs)
  case (Cons x xs)
  then obtain y ys where "R x y" "list_all2 R xs ys" by (meson list.set_intros)
  then show ?case by (intro exI [of _ "y # ys"]) simp
qed auto

lemma list_all2_unique:
  assumes "list_all2 (\<lambda>x y. R x y \<and> (\<forall>z. R x z \<longrightarrow> y = z)) xs ys" "list_all2 R xs zs"
  shows "ys = zs"
  using assms by (induction xs arbitrary: ys zs) (auto simp: list_all2_Cons1)

lemma field_name_inj [simp]: "field_name f = field_name g \<longleftrightarrow> f = g"
  by (cases f; cases g) simp_all

lemma valid_atomic_denotes:
  assumes "isValidAtomicExpression j"
  shows "\<exists>p. denotes j p"
  using assms known_field_name [of "member ''field'' (Some j)"]
  by (auto simp: isValidAtomicExpression_def split: if_splits option.splits json.splits intro: d_eq d_in)

text \<open>Every expression the validator accepts denotes one.\<close>

lemma valid_denotes: "(isValidExpression j \<longrightarrow> (\<exists>p. denotes j p))"
  and valid_logical_denotes: "isValidLogicalExpression op j \<longrightarrow> op \<in> set LOGICAL_OPERATORS \<longrightarrow>
    member ''op'' (Some j) = Some (JStr op) \<longrightarrow> (\<exists>p. denotes j p)"
proof (induction j and op j rule: isValidExpression_isValidLogicalExpression.induct)
  case (1 expr)
  then show ?case
    by (auto simp: isValidExpression.simps [of expr] valid_atomic_denotes split: if_splits option.splits json.splits)
next
  case (2 op expr)
  show ?case
  proof (intro impI)
    assume v: "isValidLogicalExpression op expr" and op: "op \<in> set LOGICAL_OPERATORS" "member ''op'' (Some expr) = Some (JStr op)"
    from v obtain xs where xs: "member ''expressions'' (Some expr) = Some (JArr xs)"
      "list_all isValidExpression xs" "op = ''not'' \<Longrightarrow> length xs = 1"
      by (auto simp: isValidLogicalExpression.simps [of op expr] split: option.splits json.splits)
    have "\<exists>ps. list_all2 denotes xs ps"
      using 2 xs by (intro ex_list_all2) (auto simp: list_all_iff)
    then obtain ps where ps: "list_all2 denotes xs ps" ..
    show "\<exists>p. denotes expr p"
    proof (cases "op = ''not''")
      case True
      with xs(3) ps obtain x p where "xs = [x]" "denotes x p"
        by (auto simp: length_Suc_conv list_all2_Cons1)
      with True op xs(1) show ?thesis by (auto intro: d_not)
    next
      case False
      with op xs(1) ps show ?thesis by (auto simp: LOGICAL_OPERATORS_def intro: d_and d_or)
    qed
  qed
qed

lemma denotes_unique: "denotes j p \<Longrightarrow> denotes j q \<Longrightarrow> p = q"
proof (induction arbitrary: q rule: denotes.induct)
  case (d_eq j f v)
  from d_eq.prems show ?case by cases (use d_eq.hyps in auto)
next
  case (d_in j f vs)
  from d_in.prems show ?case by cases (use d_in.hyps in auto)
next
  case (d_and j xs ps)
  from d_and.prems obtain qs where q: "q = PAnd qs" "list_all2 denotes xs qs"
    by cases (use d_and.hyps in auto)
  have "ps = qs" by (rule list_all2_unique [OF d_and.IH q(2)])
  with q show ?case by simp
next
  case (d_or j xs ps)
  from d_or.prems obtain qs where q: "q = POr qs" "list_all2 denotes xs qs"
    by cases (use d_or.hyps in auto)
  have "ps = qs" by (rule list_all2_unique [OF d_or.IH q(2)])
  with q show ?case by simp
next
  case (d_not j x p)
  from d_not.prems obtain r where r: "q = PNot r" "denotes x r"
    by cases (use d_not.hyps in auto)
  have "p = r" by (rule d_not.IH [OF r(2)])
  with r show ?case by simp
qed

text \<open>The node count bounds the number of expressions visited.\<close>

lemma count_node_nodes: "t_totalNodes st < t_totalNodes (count_node j d st)"
  by (simp add: count_node_def Let_def)

lemma walk_mono: "t_totalNodes st \<le> t_totalNodes (walkExpression j d st)"
  and walks_mono: "t_totalNodes st \<le> t_totalNodes (walkExpressions xs d st)"
proof (induction j d st and xs d st rule: walkExpression_walkExpressions.induct)
  case (1 expr depth st)
  have c: "t_totalNodes st \<le> t_totalNodes (count_node expr depth st)" by (rule less_imp_le) (rule count_node_nodes)
  show ?case
  proof (cases "\<exists>xs. is_object expr \<and> member ''expressions'' (Some expr) = Some (JArr xs)")
    case True
    then obtain xs where xs: "is_object expr" "member ''expressions'' (Some expr) = Some (JArr xs)" by blast
    with 1 have "t_totalNodes (count_node expr depth st) \<le> t_totalNodes (walkExpressions xs (depth + 1) (count_node expr depth st))"
      by simp
    with c xs show ?thesis by (simp add: walkExpression.simps [of expr])
  next
    case False
    with c show ?thesis by (auto simp: walkExpression.simps [of expr] split: option.splits json.splits)
  qed
next
  case (3 x xs depth st)
  from 3(1) 3(2) show ?case unfolding walkExpressions.simps by (rule order_trans)
qed simp

lemma walk_strict: "is_object j \<Longrightarrow> Suc (t_totalNodes st) \<le> t_totalNodes (walkExpression j d st)"
  using count_node_nodes [of st j d] walks_mono [of "count_node j d st"]
  by (auto simp: walkExpression.simps [of j] Suc_le_eq split: option.splits json.splits intro: less_le_trans)

lemma walk_nodes:
  "denotes j p \<Longrightarrow> t_totalNodes st + visits p \<le> t_totalNodes (walkExpression j d st)"
proof (induction arbitrary: d st rule: denotes.induct)
  have many: "t_totalNodes st + sum_list (map visits ps) \<le> t_totalNodes (walkExpressions xs d st)"
    if "list_all2 (\<lambda>x p. denotes x p \<and> (\<forall>d st. t_totalNodes st + visits p \<le> t_totalNodes (walkExpression x d st))) xs ps"
    for xs ps d st
    using that
  proof (induction xs ps arbitrary: st rule: list_all2_induct)
    case (Cons x xs p ps)
    have "t_totalNodes st + visits p \<le> t_totalNodes (walkExpression x d st)" using Cons by blast
    with Cons.IH [of "walkExpression x d st"] show ?case by simp
  qed simp
  {
    case (d_eq j f v)
    then show ?case using walk_strict [of j st d] by (simp add: member_is_object)
  next
    case (d_in j f vs)
    then show ?case using walk_strict [of j st d] by (simp add: member_is_object)
  next
    case (d_and j xs ps)
    then show ?case using count_node_nodes [of st j d] many [OF d_and.IH, of "count_node j d st" "Suc d"]
      by (auto simp: walkExpression.simps [of j] member_is_object)
  next
    case (d_or j xs ps)
    then show ?case using count_node_nodes [of st j d] many [OF d_or.IH, of "count_node j d st" "Suc d"]
      by (auto simp: walkExpression.simps [of j] member_is_object)
  next
    case (d_not j x p)
    from d_not.hyps(1,2) show ?case using count_node_nodes [of st j d] d_not.IH [of "count_node j d st" "Suc d"]
      by (auto simp: walkExpression.simps [of j] member_is_object)
  }
qed

text \<open>What it means that an evaluation from budget \<open>b\<close> returned the value of \<open>p\<close> within its visits.\<close>

definition returns :: "outcome \<Rightarrow> bool \<Rightarrow> evaluation_budget \<Rightarrow> nat \<Rightarrow> bool" where
  "returns res val b n \<longleftrightarrow>
     (\<exists>r b'. res = (Inr r, b') \<and> e_match r = val \<and> e_reason r = (if val then None else Some ''NO_MATCH'') \<and>
        b_limit b' = b_limit b \<and> b_visited b' \<le> b_visited b + n)"

definition computes :: "event_context \<Rightarrow> json \<Rightarrow> pexpr \<Rightarrow> bool" where
  "computes context x p \<longleftrightarrow>
     (\<forall>b. b_visited b + visits p < b_limit b \<longrightarrow>
        returns (evaluateExpression (Some x) context b) (holds p context) b (visits p))"

lemma returnsE:
  assumes "returns res val b n"
  obtains r b' where "res = (Inr r, b')" "e_match r = val" "e_reason r = (if val then None else Some ''NO_MATCH'')"
    "b_limit b' = b_limit b" "b_visited b' \<le> b_visited b + n"
  using assms by (auto simp: returns_def)

lemma and_computes:
  assumes "list_all2 (computes context) xs ps" "b_visited b + sum_list (map visits ps) < b_limit b"
  shows "returns (evaluateAnd xs context b) (\<forall>p\<in>set ps. holds p context) b (sum_list (map visits ps))"
  using assms
proof (induction xs ps arbitrary: b rule: list_all2_induct)
  case Nil
  show ?case by (simp add: returns_def)
next
  case (Cons x xs p ps)
  have "returns (evaluateExpression (Some x) context b) (holds p context) b (visits p)"
    using Cons by (simp add: computes_def)
  then obtain r b' where r: "evaluateExpression (Some x) context b = (Inr r, b')" "e_match r = holds p context"
    "e_reason r = (if holds p context then None else Some ''NO_MATCH'')" "b_limit b' = b_limit b"
    "b_visited b' \<le> b_visited b + visits p" by (rule returnsE)
  show ?case
  proof (cases "holds p context")
    case True
    with r Cons.IH [of b'] Cons.prems show ?thesis by (auto simp: returns_def)
  next
    case False
    with r Cons.prems show ?thesis by (auto simp: returns_def)
  qed
qed

lemma or_computes:
  assumes "list_all2 (computes context) xs ps" "b_visited b + sum_list (map visits ps) < b_limit b"
  shows "returns (evaluateOr xs context b) (\<exists>p\<in>set ps. holds p context) b (sum_list (map visits ps))"
  using assms
proof (induction xs ps arbitrary: b rule: list_all2_induct)
  case Nil
  show ?case by (simp add: returns_def)
next
  case (Cons x xs p ps)
  have "returns (evaluateExpression (Some x) context b) (holds p context) b (visits p)"
    using Cons by (simp add: computes_def)
  then obtain r b' where r: "evaluateExpression (Some x) context b = (Inr r, b')" "e_match r = holds p context"
    "e_reason r = (if holds p context then None else Some ''NO_MATCH'')" "b_limit b' = b_limit b"
    "b_visited b' \<le> b_visited b + visits p" by (rule returnsE)
  show ?case
  proof (cases "holds p context")
    case False
    with r Cons.IH [of b'] Cons.prems show ?thesis by (auto simp: returns_def)
  next
    case True
    with r Cons.prems show ?thesis by (auto simp: returns_def)
  qed
qed

lemma returns_step: "returns res v (b\<lparr>b_visited := b_visited b + 1\<rparr>) n \<Longrightarrow> returns res v b (Suc n)"
  by (auto simp: returns_def)

lemma denotes_computes: "denotes j p \<Longrightarrow> computes context j p"
proof (induction rule: denotes.induct)
  case (d_eq j f v)
  then show ?case
    by (auto simp: computes_def returns_def evaluateExpression.simps [of "Some j"] evaluateComparison_def atomic_result_def)
next
  case (d_in j f vs)
  then show ?case
    by (auto simp: computes_def returns_def evaluateExpression.simps [of "Some j"] evaluateInList_def js_includes_def
        atomic_result_def list_ex_iff)
next
  case (d_and j xs ps)
  then have "list_all2 (computes context) xs ps" by (auto elim: list_all2_mono)
  with d_and.hyps show ?case
    unfolding computes_def [of _ j] evaluateExpression.simps [of "Some j"]
    by (auto simp: iterate_def Let_def intro!: returns_step and_computes)
next
  case (d_or j xs ps)
  then have "list_all2 (computes context) xs ps" by (auto elim: list_all2_mono)
  with d_or.hyps show ?case
    unfolding computes_def [of _ j] evaluateExpression.simps [of "Some j"]
    by (auto simp: iterate_def Let_def intro!: returns_step or_computes)
next
  case (d_not j x p)
  show ?case
    unfolding computes_def
  proof (intro allI impI)
    fix b :: evaluation_budget
    let ?b = "b\<lparr>b_visited := b_visited b + 1\<rparr>"
    assume less: "b_visited b + visits (PNot p) < b_limit b"
    then have "returns (evaluateExpression (Some x) context ?b) (holds p context) ?b (visits p)"
      using d_not.IH by (simp add: computes_def)
    then show "returns (evaluateExpression (Some j) context b) (holds (PNot p) context) b (visits (PNot p))"
      using d_not.hyps less
      by (elim returnsE) (auto simp: evaluateExpression.simps [of "Some j"] first_element_def returns_def negate_result_def)
  qed
qed

text \<open>C20. A predicate the root validator accepts denotes one expression of the typed grammar, and the
  evaluator returns that expression's truth value on every event: it neither throws, nor meets an
  unknown operator, nor runs out of budget.\<close>

theorem valid_predicate_evaluates:
  assumes "validatePredicateExpression Ctx_root (Some j)"
  shows "\<exists>!p. denotes j p \<and> e_match (evaluate (Some j) context) = holds p context \<and>
           e_reason (evaluate (Some j) context) = (if holds p context then None else Some ''NO_MATCH'')"
proof -
  from assms obtain p where p: "denotes j p" and n: "t_totalNodes (calculateTreeMetrics j) \<le> 32"
    using valid_denotes [of j] by (auto simp: validatePredicateExpression_def Let_def maxNodes_def)
  have "visits p \<le> 32" using walk_nodes [OF p] n unfolding calculateTreeMetrics_def
    by (metis add_0 le_trans tree_metrics.select_convs(2))
  then have "returns (evaluateExpression (Some j) context \<lparr>b_limit = maxEvaluationBudget, b_visited = 0\<rparr>) (holds p context)
      \<lparr>b_limit = maxEvaluationBudget, b_visited = 0\<rparr> (visits p)"
    using denotes_computes [OF p, of "context"] by (simp add: computes_def maxEvaluationBudget_def)
  then have "e_match (evaluate (Some j) context) = holds p context \<and>
      e_reason (evaluate (Some j) context) = (if holds p context then None else Some ''NO_MATCH'')"
    by (elim returnsE) (simp add: evaluate_def)
  with p denotes_unique show ?thesis by blast
qed

definition sample_logic :: json where
  "sample_logic = JObj [(''op'', JStr ''and''), (''expressions'', JArr
     [JObj [(''op'', JStr ''eq''), (''field'', JStr ''resource''), (''value'', JStr ''proof'')],
      JObj [(''op'', JStr ''not''), (''expressions'', JArr
        [JObj [(''op'', JStr ''in''), (''field'', JStr ''outcome''), (''values'', JArr [JStr ''failed'', JStr ''expired''])]])]])]"

lemmas validation_simps =
  isValidExpression.simps isValidLogicalExpression.simps isValidAtomicExpression_def ALL_OPERATORS_def
  ATOMIC_OPERATORS_def LOGICAL_OPERATORS_def only_keys_def known_field_def PREDICATE_FIELDS_def valid_list_def
  valid_value_def utf8_length_def maxFieldValueLength_def maxInListSize_def

theorem valid_predicate_evaluates_witness:
  "\<exists>!p. denotes sample_logic p \<and>
     e_match (evaluate (Some sample_logic) (deriveContext ''proof.created'' ''1'')) =
       holds p (deriveContext ''proof.created'' ''1'') \<and>
     e_reason (evaluate (Some sample_logic) (deriveContext ''proof.created'' ''1'')) =
       (if holds p (deriveContext ''proof.created'' ''1'') then None else Some ''NO_MATCH'')"
proof (rule valid_predicate_evaluates)
  have "isValidExpression sample_logic" by (simp add: sample_logic_def validation_simps)
  moreover have "calculateTreeMetrics sample_logic = \<lparr>t_maxDepth = 3, t_totalNodes = 9\<rparr>"
    by (simp add: sample_logic_def calculateTreeMetrics_def walkExpression.simps count_node_def Let_def)
  ultimately show "validatePredicateExpression Ctx_root (Some sample_logic)"
    by (simp add: validatePredicateExpression_def sample_logic_def Let_def maxDepth_def maxNodes_def)
qed

text \<open>An outcome that stays within the budget and never reports a match together with a reason.\<close>

definition within :: "evaluation_budget \<Rightarrow> outcome \<Rightarrow> bool" where
  "within b res \<longleftrightarrow>
     b_limit (snd res) = b_limit b \<and>
     (b_visited b \<le> b_limit b \<longrightarrow> b_visited b \<le> b_visited (snd res) \<and> b_visited (snd res) \<le> b_limit b) \<and>
     (\<forall>r. fst res = Inr r \<longrightarrow> (e_match r \<longleftrightarrow> e_reason r = None) \<and> (e_visited r = 1 \<or> e_visited r \<le> b_visited (snd res)))"

lemma within_trans: "within b (x, b1) \<Longrightarrow> within b1 res \<Longrightarrow> within b res"
  by (auto simp: within_def)

lemma within_Inl: "within b (x, b1) \<Longrightarrow> within b (Inl e, b1)"
  by (auto simp: within_def)

lemma within_exceeded: "within b (Inr (budget_exceeded b), b)"
  by (simp add: within_def budget_exceeded_def)

lemma within_atomic: "within b (Inr (atomic_result v), b)"
  by (simp add: within_def atomic_result_def)

lemma within_negate: "within b (Inr r, b1) \<Longrightarrow> within b (Inr (negate_result b1 r), b1)"
  by (auto simp: within_def negate_result_def)

lemma within_step:
  "b_visited b < b_limit b \<Longrightarrow> within (b\<lparr>b_visited := Suc (b_visited b)\<rparr>) res \<Longrightarrow> within b res"
  by (auto simp: within_def)

lemma evaluation_within:
  "within b (evaluateExpression x ctx b)" "within b (evaluateAnd xs ctx b)" "within b (evaluateOr xs ctx b)"
  "within b (evaluateNot x ctx b)"
proof (induction x ctx b and xs ctx b and xs ctx b and x ctx b rule: evaluateExpression_evaluateAnd_evaluateOr_evaluateNot.induct)
  case (1 expr ctx budget)
  show ?case
  proof (cases "b_visited budget < b_limit budget")
    case True
    let ?b = "budget\<lparr>b_visited := Suc (b_visited budget)\<rparr>"
    have "within ?b (evaluateExpression expr ctx budget)"
      using 1 True
      by (auto simp: evaluateExpression.simps [of expr] Let_def within_exceeded within_atomic evaluateComparison_def
          evaluateInList_def split: sum.splits) (simp_all add: within_def budget_exceeded_def)
    with True show ?thesis by (rule within_step)
  qed (simp add: evaluateExpression.simps [of expr] within_exceeded)
qed (auto simp: within_exceeded within_negate split: prod.splits sum.splits intro: within_trans within_Inl,
    simp_all add: within_def)

text \<open>L. Whatever JSON is stored as a predicate, evaluation ends with at most 256 nodes visited, and it
  reports a match exactly when it gives no reason for stopping.\<close>

theorem evaluation_bounded:
  "e_visited (evaluate logic ctx) \<le> 256 \<and> (e_match (evaluate logic ctx) \<longleftrightarrow> e_reason (evaluate logic ctx) = None)"
proof -
  let ?b = "\<lparr>b_limit = maxEvaluationBudget, b_visited = 0\<rparr>"
  obtain res b' where e: "evaluateExpression logic ctx ?b = (res, b')" by force
  have "within ?b (res, b')" using evaluation_within(1) [of ?b logic ctx] by (simp only: e)
  moreover have "evaluate logic ctx = (case res of
      Inl e \<Rightarrow> \<lparr>e_match = False, e_reason = Some ''EVALUATION_FAILED'', e_visited = b_visited b'\<rparr> | Inr r \<Rightarrow> r)"
    by (simp add: evaluate_def e)
  ultimately show ?thesis by (cases res) (auto simp: within_def maxEvaluationBudget_def)
qed

text \<open>L. Putting the derived resource and outcome back together gives the event type exactly when the
  type has two parts; the schema version is always kept.\<close>

theorem deriveContext_roundtrip:
  "(c_resource (deriveContext ty v) @ ''.'' @ c_outcome (deriveContext ty v) = ty \<longleftrightarrow> count_list ty CHR ''.'' = 1) \<and>
   c_schemaVersion (deriveContext ty v) = v"
proof (cases "\<exists>r out. split_on CHR ''.'' ty = [r, out]")
  case True
  then obtain r out where s: "split_on CHR ''.'' ty = [r, out]" by blast
  have "join [CHR ''.''] [r, out] = ty" "length [r, out] = Suc (count_list ty CHR ''.'')"
    by (simp_all only: s [symmetric] join_split_on length_split_on)
  with s show ?thesis by (simp add: deriveContext_def)
next
  case False
  then have "length (split_on CHR ''.'' ty) \<noteq> 2" by (auto simp: numeral_2_eq_2 length_Suc_conv)
  moreover from this have "ty \<noteq> ''.''" by auto
  moreover have "deriveContext ty v = \<lparr>c_resource = [], c_outcome = [], c_schemaVersion = v\<rparr>"
    using False by (auto simp: deriveContext_def split: list.splits)
  ultimately show ?thesis by (simp add: length_split_on)
qed

text \<open>L. The last visit of the budget is refused: 255 nodes are evaluated, not 256.\<close>

lemma last_visit_refused:
  "b_visited b = 255 \<Longrightarrow> b_limit b = 256 \<Longrightarrow>
   fst (evaluateExpression x ctx b) =
     Inr \<lparr>e_match = False, e_reason = Some ''EVALUATION_BUDGET_EXCEEDED'', e_visited = 256\<rparr>"
  by (simp add: evaluateExpression.simps [of x] budget_exceeded_def)

text \<open>L. A stored predicate that is malformed can match: a negation of nothing matches every event.\<close>

lemma malformed_negation_matches:
  "e_match (evaluate (Some (JObj [(''op'', JStr ''not''), (''expressions'', JArr [])])) ctx)"
  by (simp add: evaluate_def evaluateExpression.simps maxEvaluationBudget_def first_element_def negate_result_def)

end
