(* ===== verification/Earnings.thy ===== *)
theory Earnings
  imports Store Json "HOL-Library.AList"
begin

text \<open>
  Aggregate-earnings proofs: the policy of \<open>proofs/aggregate-earnings.policy.ts\<close> and the
  calculator of \<open>proofs/aggregate-earnings.calculator.ts\<close> that selects a wallet's payments for it.

  Amounts are decimal strings; stroops are natural numbers, as the code's \<open>BigInt\<close>.  A \<open>Map\<close> of the
  source is an association list updated in place (\<open>AList.update\<close>).  Decryption of an amount and the
  keyed digest are parameters; an instant is a number of milliseconds, with None for an invalid date.
\<close>

subsection \<open>Amounts\<close>

definition STROOPS_PER_UNIT :: nat where
  "STROOPS_PER_UNIT = 10000000"

definition pad_end :: "nat \<Rightarrow> char \<Rightarrow> string \<Rightarrow> string" where
  "pad_end n c s = s @ replicate (n - length s) c"

definition digits_upto :: "nat \<Rightarrow> string \<Rightarrow> bool" where
  "digits_upto n s \<longleftrightarrow> s \<noteq> [] \<and> length s \<le> n \<and> all_digits s"

text \<open>The pattern \<open>^(\d{1,19})(?:\.(\d{1,7}))?$\<close> is a whole part, and a fraction after one dot.\<close>

definition parseStroops :: "string \<Rightarrow> nat option" where
  "parseStroops amount =
     (case split_on CHR ''.'' amount of
        [whole] \<Rightarrow> if digits_upto 19 whole then Some (read_digits whole * STROOPS_PER_UNIT) else None
      | [whole, frac] \<Rightarrow>
          if digits_upto 19 whole \<and> digits_upto 7 frac
          then Some (read_digits whole * STROOPS_PER_UNIT + read_digits (pad_end 7 CHR ''0'' frac)) else None
      | _ \<Rightarrow> None)"

definition formatStroops :: "nat \<Rightarrow> string" where
  "formatStroops stroops =
     show_nat (stroops div STROOPS_PER_UNIT) @ ''.'' @ pad_start 7 CHR ''0'' (show_nat (stroops mod STROOPS_PER_UNIT))"

datatype rounding_increment = Inc_stroop | Inc_cent | Inc_1 | Inc_10 | Inc_100 | Inc_1000

fun increment_text :: "rounding_increment \<Rightarrow> string" where
  "increment_text Inc_stroop = ''0.0000001''"
| "increment_text Inc_cent = ''0.01''"
| "increment_text Inc_1 = ''1''"
| "increment_text Inc_10 = ''10''"
| "increment_text Inc_100 = ''100''"
| "increment_text Inc_1000 = ''1000''"

definition floorToIncrement :: "nat \<Rightarrow> rounding_increment \<Rightarrow> nat" where
  "floorToIncrement t increment = (let step = the (parseStroops (increment_text increment)) in (t div step) * step)"

subsection \<open>Policy\<close>

definition MIN_COMPONENT_PAYMENTS :: nat where "MIN_COMPONENT_PAYMENTS = 2"
definition MAX_COMPONENT_PAYMENTS :: nat where "MAX_COMPONENT_PAYMENTS = 500"
definition MAX_PERIOD_DAYS :: int where "MAX_PERIOD_DAYS = 366"

definition AGGREGATE_EARNINGS_POLICY_VERSION :: string where
  "AGGREGATE_EARNINGS_POLICY_VERSION = ''earnproof.aggregate-earnings.policy.v1''"

datatype aggregation_rejection =
    invalid_period | future_period | period_too_long | cross_asset_unsupported | invalid_source
  | insufficient_payments | limit_exceeded | amount_unavailable | below_rounding_increment

type_synonym policy_error = "aggregation_rejection \<times> string"

record asset_ref =
  as_code :: string
  as_issuer :: "string option"

record aggregation_period =
  pd_start :: time_ms
  pd_end :: time_ms

record aggregation_component =
  ac_operationId :: string
  ac_amount :: "string option"
  ac_occurredAt :: time_ms
  ac_assetCode :: string
  ac_assetIssuer :: "string option"

record aggregation_rules =
  ar_asset :: asset_ref
  ar_period :: aggregation_period
  ar_roundingIncrement :: rounding_increment

record aggregation_result =
  g_disclosedAmount :: string
  g_paymentCount :: nat
  g_canonicalComponents :: "(string \<times> string) list"

text \<open>\<open>resolveAsset\<close>; the set of conversion policies is empty.\<close>

definition CONVERSION_POLICIES :: "string set" where
  "CONVERSION_POLICIES = {}"

definition asset_key :: "asset_ref \<Rightarrow> string" where
  "asset_key a = as_code a @ '':'' @ nullish (as_issuer a) ''native''"

definition resolveAsset :: "asset_ref list \<Rightarrow> string option \<Rightarrow> (policy_error, asset_ref) result" where
  "resolveAsset assets conversionPolicy =
     (let distinct_assets = foldl (\<lambda>m a. AList.update (asset_key a) a m) [] assets in
      if length distinct_assets = 0 then Inl (cross_asset_unsupported, ''At least one asset is required'')
      else if length distinct_assets > 1 \<and> \<not> (truthy conversionPolicy \<and> the conversionPolicy \<in> CONVERSION_POLICIES)
      then Inl (cross_asset_unsupported,
        ''Aggregating across different assets requires a conversion policy, and none is supported'')
      else Inr (snd (hd distinct_assets)))"

definition resolvePeriod :: "time_ms option \<Rightarrow> time_ms option \<Rightarrow> time_ms \<Rightarrow> (policy_error, aggregation_period) result" where
  "resolvePeriod periodStart periodEnd now =
     (case (periodStart, periodEnd) of
        (Some start, Some fin) \<Rightarrow>
          if start \<ge> fin then Inl (invalid_period, ''periodStart must be before periodEnd'')
          else if fin > now then Inl (future_period, ''periodEnd must not be in the future'')
          else if fin - start > MAX_PERIOD_DAYS * DAY_MS
          then Inl (period_too_long, ''The aggregation period must not exceed '' @ show_int MAX_PERIOD_DAYS @ '' days'')
          else Inr \<lparr>pd_start = start, pd_end = fin\<rparr>
      | _ \<Rightarrow> Inl (invalid_period, ''periodStart must be before periodEnd''))"

definition in_scope :: "aggregation_rules \<Rightarrow> aggregation_component \<Rightarrow> bool" where
  "in_scope rules c \<longleftrightarrow>
     ac_assetCode c = as_code (ar_asset rules) \<and> ac_assetIssuer c = as_issuer (ar_asset rules) \<and>
     \<not> (ac_occurredAt c < pd_start (ar_period rules) \<or> ac_occurredAt c \<ge> pd_end (ar_period rules))"

type_synonym component_map = "(string \<times> aggregation_component) list"

text \<open>The first loop of \<open>aggregateEarnings\<close>: one component per operation, conflicting amounts refused.\<close>

fun by_operation :: "aggregation_rules \<Rightarrow> aggregation_component list \<Rightarrow> component_map \<Rightarrow> (policy_error, component_map) result" where
  "by_operation rules [] m = Inr m"
| "by_operation rules (c # cs) m =
     (if \<not> in_scope rules c then by_operation rules cs m
      else case map_of m (ac_operationId c) of
             Some existing \<Rightarrow>
               if ac_amount existing \<noteq> ac_amount c
               then Inl (amount_unavailable, ''A payment appears more than once with conflicting amounts'')
               else by_operation rules cs (AList.update (ac_operationId c) c m)
           | None \<Rightarrow> by_operation rules cs (AList.update (ac_operationId c) c m))"

text \<open>The second loop: the sum in stroops and the canonical components, over the sorted operations.\<close>

fun sum_components :: "string list \<Rightarrow> component_map \<Rightarrow> nat \<Rightarrow> (string \<times> string) list
    \<Rightarrow> (policy_error, nat \<times> (string \<times> string) list) result" where
  "sum_components [] m tot comps = Inr (tot, comps)"
| "sum_components (k # ks) m tot comps =
     (case Option.bind (Option.bind (map_of m k) ac_amount) parseStroops of
        None \<Rightarrow> Inl (amount_unavailable, ''One or more payment amounts are unavailable'')
      | Some stroops \<Rightarrow> sum_components ks m (tot + stroops) (comps @ [(k, show_nat stroops)]))"

definition aggregateEarnings :: "aggregation_component list \<Rightarrow> aggregation_rules \<Rightarrow> (policy_error, aggregation_result) result" where
  "aggregateEarnings candidates rules =
     (case by_operation rules candidates [] of
        Inl e \<Rightarrow> Inl e
      | Inr m \<Rightarrow>
          if length m < MIN_COMPONENT_PAYMENTS
          then Inl (insufficient_payments, ''An aggregate requires at least '' @ show_nat MIN_COMPONENT_PAYMENTS @
                    '' eligible payments in the period'')
          else if length m > MAX_COMPONENT_PAYMENTS
          then Inl (limit_exceeded, ''An aggregate may include at most '' @ show_nat MAX_COMPONENT_PAYMENTS @
                    '' payments; narrow the period'')
          else case sum_components (sort (map fst m)) m 0 [] of
                 Inl e \<Rightarrow> Inl e
               | Inr (tot, comps) \<Rightarrow>
                   let disclosed = floorToIncrement tot (ar_roundingIncrement rules) in
                   if disclosed = 0
                   then Inl (below_rounding_increment, ''The aggregate is below the requested rounding increment'')
                   else Inr \<lparr>g_disclosedAmount = formatStroops disclosed, g_paymentCount = length m,
                             g_canonicalComponents = comps\<rparr>)"

subsection \<open>Calculator\<close>

datatype classification = CL_INCOME | CL_REIMBURSEMENT | CL_PERSONAL_TRANSFER | CL_UNKNOWN | CL_EXCLUDED
datatype source_scope = Scope_income | Scope_trusted_sources | Scope_verified_issuers

record payment_row =
  y_id :: ident
  y_userId :: ident
  y_operationId :: string
  y_sourceAddress :: "string option"
  y_sourceAddressEncrypted :: "string option"
  y_finalityHoldAt :: "time_ms option"
  y_assetCode :: string
  y_assetIssuer :: "string option"
  y_amountEncrypted :: "string option"
  y_occurredAt :: time_ms
  y_classification :: classification
  y_isEligible :: bool

record issuer_row =
  i_id :: ident
  i_organizationId :: ident
  i_stellarAddress :: string
  i_status :: resource_status

record source_row =
  ts_id :: ident
  ts_userId :: ident
  ts_sourceAddress :: string
  ts_issuerId :: "ident option"
  ts_status :: resource_status

record earnings_db =
  payments :: "payment_row table"
  issuers :: "issuer_row table"
  trusted_sources :: "source_row table"

record earnings_request =
  eq_assets :: "asset_ref list"
  eq_periodStart :: "time_ms option"
  eq_periodEnd :: "time_ms option"
  eq_sourceScope :: source_scope
  eq_issuerIds :: "ident list option"
  eq_roundingIncrement :: rounding_increment

record earnings_computation =
  ec_asset :: asset_ref
  ec_period :: aggregation_period
  ec_sourceScope :: source_scope
  ec_roundingIncrement :: rounding_increment
  ec_disclosedAmount :: string
  ec_paymentCount :: nat
  ec_inputsDigest :: string

definition readAmount :: "(string \<Rightarrow> string option) \<Rightarrow> string option \<Rightarrow> string option" where
  "readAmount decryptAmount amountEncrypted =
     (if \<not> truthy amountEncrypted then None else decryptAmount (the amountEncrypted))"

definition sourceAddresses :: "ident \<Rightarrow> earnings_request \<Rightarrow> earnings_db \<Rightarrow> (policy_error, string list option) result" where
  "sourceAddresses userId req db =
     (case eq_sourceScope req of
        Scope_income \<Rightarrow> Inr None
      | Scope_trusted_sources \<Rightarrow>
          Inr (Some (sort (uniq (map ts_sourceAddress
            (find_many (\<lambda>r. ts_userId r = userId \<and> ts_status r = RS_ACTIVE) (trusted_sources db))))))
      | Scope_verified_issuers \<Rightarrow>
          let issuerIds = map_option uniq (eq_issuerIds req);
              found = find_many (\<lambda>r. i_status r = RS_ACTIVE \<and>
                        (case issuerIds of None \<Rightarrow> True | Some ids \<Rightarrow> i_id r \<in> set ids)) (issuers db)
          in if (case issuerIds of None \<Rightarrow> False | Some ids \<Rightarrow> length found \<noteq> length ids)
             then Inl (invalid_source, ''One or more requested issuers are unknown or not active'')
             else Inr (Some (sort (uniq (map i_stellarAddress found)))))"

definition candidate_where :: "ident \<Rightarrow> asset_ref \<Rightarrow> aggregation_period \<Rightarrow> string list option \<Rightarrow> payment_row \<Rightarrow> bool" where
  "candidate_where userId asset period addresses r \<longleftrightarrow>
     y_userId r = userId \<and> y_classification r = CL_INCOME \<and> y_isEligible r \<and>
     y_assetCode r = as_code asset \<and> y_assetIssuer r = as_issuer asset \<and>
     pd_start period \<le> y_occurredAt r \<and> y_occurredAt r < pd_end period \<and>
     (case addresses of None \<Rightarrow> True
      | Some as \<Rightarrow> (case y_sourceAddress r of None \<Rightarrow> False | Some a \<Rightarrow> a \<in> set as))"

definition candidate_rows :: "(payment_row \<Rightarrow> bool) \<Rightarrow> payment_row table \<Rightarrow> payment_row list" where
  "candidate_rows p t =
     take (MAX_COMPONENT_PAYMENTS + 1) (sort_key y_occurredAt (sort_key y_operationId (find_many p t)))"

definition row_component :: "(string \<Rightarrow> string option) \<Rightarrow> payment_row \<Rightarrow> aggregation_component" where
  "row_component decryptAmount r =
     \<lparr>ac_operationId = y_operationId r, ac_amount = readAmount decryptAmount (y_amountEncrypted r),
      ac_occurredAt = y_occurredAt r, ac_assetCode = y_assetCode r, ac_assetIssuer = y_assetIssuer r\<rparr>"

definition digest_input :: "(string \<times> string) list \<Rightarrow> json" where
  "digest_input comps =
     JObj [(''policyVersion'', JStr AGGREGATE_EARNINGS_POLICY_VERSION),
           (''components'', JArr (map (\<lambda>(k, v). JArr [JStr k, JStr v]) comps))]"

text \<open>\<open>compute\<close>; \<open>hmac\<close> is the digest keyed with the service's secret.\<close>

definition compute ::
  "(string \<Rightarrow> string option) \<Rightarrow> (string \<Rightarrow> string) \<Rightarrow> ident \<Rightarrow> earnings_request \<Rightarrow> time_ms \<Rightarrow> earnings_db
   \<Rightarrow> (policy_error, earnings_computation) result" where
  "compute decryptAmount hmac userId req now db =
     (case resolveAsset (eq_assets req) None of Inl e \<Rightarrow> Inl e | Inr asset \<Rightarrow>
      case resolvePeriod (eq_periodStart req) (eq_periodEnd req) now of Inl e \<Rightarrow> Inl e | Inr period \<Rightarrow>
      case sourceAddresses userId req db of Inl e \<Rightarrow> Inl e | Inr addresses \<Rightarrow>
      if addresses = Some []
      then Inl (insufficient_payments, ''No eligible payment sources match the requested scope'')
      else
        let rows = candidate_rows (candidate_where userId asset period addresses) (payments db);
            rules = \<lparr>ar_asset = asset, ar_period = period, ar_roundingIncrement = eq_roundingIncrement req\<rparr>
        in case aggregateEarnings (map (row_component decryptAmount) rows) rules of Inl e \<Rightarrow> Inl e | Inr res \<Rightarrow>
           Inr \<lparr>ec_asset = asset, ec_period = period, ec_sourceScope = eq_sourceScope req,
                ec_roundingIncrement = eq_roundingIncrement req, ec_disclosedAmount = g_disclosedAmount res,
                ec_paymentCount = g_paymentCount res,
                ec_inputsDigest = ''hmac-sha256:'' @ hmac (the (canonicalize (digest_input (g_canonicalComponents res))))\<rparr>)"

subsection \<open>Facts about amounts\<close>

lemma pad_end_digits: "digits_upto 7 f \<Longrightarrow> all_digits (pad_end 7 CHR ''0'' f) \<and> length (pad_end 7 CHR ''0'' f) = 7"
  by (auto simp: digits_upto_def pad_end_def all_digits_def list_all_iff)

lemma no_dot_digits: "all_digits s \<Longrightarrow> CHR ''.'' \<notin> set s"
proof -
  have "\<not> is_digit CHR ''.''" by (simp add: is_digit_def)
  then show "all_digits s \<Longrightarrow> CHR ''.'' \<notin> set s" by (auto simp: all_digits_def list_all_iff)
qed

lemma length_show_nat_gt: "10 ^ k \<le> n \<Longrightarrow> k < length (show_nat n)"
proof (rule ccontr)
  assume "10 ^ k \<le> n" "\<not> k < length (show_nat n)"
  moreover have "n < 10 ^ length (show_nat n)"
    using read_digits_bound [OF all_digits_show_nat, of n] by simp
  moreover have "(10::nat) ^ length (show_nat n) \<le> 10 ^ k" using calculation(2) by (intro power_increasing) auto
  ultimately show False by simp
qed

lemma split_format:
  "split_on CHR ''.'' (formatStroops n) =
     [show_nat (n div STROOPS_PER_UNIT), pad_start 7 CHR ''0'' (show_nat (n mod STROOPS_PER_UNIT))]"
  by (simp add: formatStroops_def split_on_sep split_on_absent no_dot_digits)

text \<open>L. Stroops written as a decimal string are read back exactly when their whole part has at most
  19 digits, and otherwise not at all.\<close>

theorem stroops_roundtrip:
  "parseStroops (formatStroops n) = (if n < 10 ^ 26 then Some n else None)"
proof -
  let ?w = "show_nat (n div STROOPS_PER_UNIT)" and ?f = "pad_start 7 CHR ''0'' (show_nat (n mod STROOPS_PER_UNIT))"
  have "n mod STROOPS_PER_UNIT < 10 ^ Suc 6" by (simp add: STROOPS_PER_UNIT_def)
  then have f: "length ?f = 7" using length_show_nat_le [of "n mod STROOPS_PER_UNIT" 6] by simp
  then have ff: "digits_upto 7 ?f" "pad_end 7 CHR ''0'' ?f = ?f"
    by (auto simp: digits_upto_def pad_end_def simp flip: length_0_conv)
  show ?thesis
  proof (cases "n < 10 ^ 26")
    case True
    then have "n div STROOPS_PER_UNIT < 10 ^ Suc 18" by (simp add: STROOPS_PER_UNIT_def div_less_iff_less_mult)
    then have "digits_upto 19 ?w" using length_show_nat_le [of _ 18] by (simp add: digits_upto_def)
    with True ff show ?thesis
      by (simp add: parseStroops_def split_format div_mult_mod_eq)
  next
    case False
    then have "10 ^ 19 \<le> n div STROOPS_PER_UNIT" by (simp add: STROOPS_PER_UNIT_def less_eq_div_iff_mult_less_eq)
    then have "\<not> digits_upto 19 ?w" using length_show_nat_gt [of 19 "n div STROOPS_PER_UNIT"] by (simp add: digits_upto_def)
    with False show ?thesis by (simp add: parseStroops_def split_format)
  qed
qed

lemma parseStroops_bound: "parseStroops s = Some n \<Longrightarrow> n < 10 ^ 26"
proof -
  assume p: "parseStroops s = Some n"
  have w: "digits_upto 19 w \<Longrightarrow> read_digits w < 10 ^ 19" for w
    using read_digits_bound [of w] power_increasing [of "length w" 19 "10::nat"] by (auto simp: digits_upto_def)
  have f: "digits_upto 7 f \<Longrightarrow> read_digits (pad_end 7 CHR ''0'' f) < 10 ^ 7" for f
    using read_digits_bound [of "pad_end 7 CHR ''0'' f"] pad_end_digits [of f] by simp
  from p obtain w fr where n: "n = read_digits w * STROOPS_PER_UNIT + fr" and "digits_upto 19 w" and fr: "fr < 10 ^ 7"
    using f by (auto simp: parseStroops_def split: list.splits if_splits) (metis add.right_neutral zero_less_power zero_less_numeral)
  from w [OF this(2)] have "read_digits w \<le> 10 ^ 19 - 1" by simp
  then have "read_digits w * STROOPS_PER_UNIT \<le> (10 ^ 19 - 1) * STROOPS_PER_UNIT" by (rule mult_le_mono1)
  with fr show ?thesis by (simp add: n STROOPS_PER_UNIT_def)
qed

lemma replicate_eqs: "replicate 5 c = [c, c, c, c, c]" "replicate 6 c = [c, c, c, c, c, c]"
  by (simp_all add: numeral_eq_Suc)

lemma increment_step [simp]: "0 < the (parseStroops (increment_text i))"
  by (cases i) (simp_all add: parseStroops_def digits_upto_def all_digits_def is_digit_def read_digits_def digit_val_def
      STROOPS_PER_UNIT_def pad_end_def replicate_eqs)

lemma floor_le: "floorToIncrement t i \<le> t"
  by (simp add: floorToIncrement_def Let_def)

lemma floor_close: "t < floorToIncrement t i + the (parseStroops (increment_text i))"
  using div_mult_mod_eq [of t "the (parseStroops (increment_text i))"] mod_less_divisor [OF increment_step, of t i]
  unfolding floorToIncrement_def Let_def by linarith

lemma floor_dvd: "the (parseStroops (increment_text i)) dvd floorToIncrement t i"
  by (simp add: floorToIncrement_def Let_def)

subsection \<open>Facts about the aggregate\<close>

text \<open>What the two loops see of the candidates: operation and amount of those in scope.\<close>

definition scope_profile :: "aggregation_rules \<Rightarrow> aggregation_component list \<Rightarrow> (string \<times> string option) set" where
  "scope_profile rules cs = (\<lambda>c. (ac_operationId c, ac_amount c)) ` {c \<in> set cs. in_scope rules c}"

definition profile :: "component_map \<Rightarrow> (string \<times> string option) list" where
  "profile m = map (\<lambda>(k, c). (k, ac_amount c)) m"

lemma profile_keys [simp]: "map fst (profile m) = map fst m"
  by (simp add: profile_def case_prod_beta)

lemma length_profile: "length (profile m) = length m"
  by (simp add: profile_def)

lemma map_of_profile: "map_of (profile m) k = map_option ac_amount (map_of m k)"
  by (induction m) (auto simp: profile_def)

lemma profile_update_same:
  "map_of m k = Some e \<Longrightarrow> ac_amount e = ac_amount c \<Longrightarrow> profile (AList.update k c m) = profile m"
  by (induction m) (auto simp: profile_def)

lemma profile_update_new: "map_of m k = None \<Longrightarrow> profile (AList.update k c m) = profile m @ [(k, ac_amount c)]"
  by (induction m) (auto simp: profile_def)

lemma by_operation_profile:
  assumes "distinct (map fst m)"
  shows "if single_valued (set (profile m) \<union> scope_profile rules cs)
         then \<exists>m'. by_operation rules cs m = Inr m' \<and> distinct (map fst m') \<and>
                set (profile m') = set (profile m) \<union> scope_profile rules cs
         else by_operation rules cs m = Inl (amount_unavailable, ''A payment appears more than once with conflicting amounts'')"
  using assms
proof (induction cs arbitrary: m)
  case Nil
  have "single_valued (set (profile m))"
    using Nil by (simp add: single_valued_def) (metis map_of_eq_Some_iff option.inject profile_keys)
  with Nil show ?case by (simp add: scope_profile_def)
next
  case (Cons c cs)
  let ?k = "ac_operationId c" and ?m = "AList.update (ac_operationId c) c m"
  have d: "distinct (map fst ?m)" using Cons.prems by (simp add: distinct_update)
  show ?case
  proof (cases "in_scope rules c")
    case False
    then have "scope_profile rules (c # cs) = scope_profile rules cs" by (auto simp: scope_profile_def)
    with False Cons show ?thesis by simp
  next
    case True
    then have sp: "scope_profile rules (c # cs) = insert (?k, ac_amount c) (scope_profile rules cs)"
      by (auto simp: scope_profile_def)
    consider (new) "map_of m ?k = None" | (same) e where "map_of m ?k = Some e" "ac_amount e = ac_amount c"
      | (clash) e where "map_of m ?k = Some e" "ac_amount e \<noteq> ac_amount c"
      by (cases "map_of m ?k") auto
    then show ?thesis
    proof cases
      case new
      with True Cons.IH [OF d] show ?thesis by (auto simp: sp profile_update_new split: if_splits)
    next
      case same
      then have "(?k, ac_amount c) \<in> set (profile m)"
        using map_of_profile [of m ?k] by (simp add: map_of_SomeD)
      with same True Cons.IH [OF d] show ?thesis
        by (auto simp: sp profile_update_same insert_absorb split: if_splits)
    next
      case clash
      then have "(?k, ac_amount e) \<in> set (profile m)"
        using map_of_profile [of m ?k] by (simp add: map_of_SomeD)
      with clash have "\<not> single_valued (set (profile m) \<union> scope_profile rules (c # cs))"
        by (auto simp: sp single_valued_def)
      with clash True show ?thesis by simp
    qed
  qed
qed

lemma by_operation_Inr:
  assumes "by_operation rules cs [] = Inr m"
  shows "distinct (map fst m)" "set (profile m) = scope_profile rules cs"
  using by_operation_profile [of "[]" rules cs] assms by (auto simp: profile_def split: if_splits)

lemma sum_components_cong:
  "(\<And>k. k \<in> set ks \<Longrightarrow> map_option ac_amount (map_of m k) = map_option ac_amount (map_of m' k)) \<Longrightarrow>
   sum_components ks m tot comps = sum_components ks m' tot comps"
proof (induction ks arbitrary: tot comps)
  case (Cons k ks)
  have "Option.bind (map_of m k) ac_amount = Option.bind (map_of m' k) ac_amount"
    using Cons.prems [of k] by (cases "map_of m k"; cases "map_of m' k") auto
  with Cons show ?case by (simp split: option.splits)
qed simp

lemma profile_determines:
  assumes "distinct (map fst m)" "distinct (map fst m')" "set (profile m) = set (profile m')"
  shows "length m = length m'" "sum_components (sort (map fst m)) m t c = sum_components (sort (map fst m')) m' t c"
proof -
  have keys: "set (map fst m) = set (map fst m')"
    using assms(3) by (metis list.set_map profile_keys)
  show "length m = length m'"
    using assms(1,2) keys by (metis distinct_card length_map)
  have "sort (map fst m) = sort (map fst m')"
    using assms(1,2) keys by (metis sorted_list_of_set_sort_remdups distinct_remdups_id)
  moreover have "map_of (profile m) = map_of (profile m')"
    using assms by (intro map_of_inject_set [THEN iffD2]) auto
  moreover from this have "sum_components ks m t c = sum_components ks m' t c" for ks
    by (intro sum_components_cong) (metis map_of_profile)
  ultimately show "sum_components (sort (map fst m)) m t c = sum_components (sort (map fst m')) m' t c" by simp
qed

text \<open>C30. The aggregate, its errors included, depends only on the candidates in scope as a set: neither
  their order nor repeated rows change it.\<close>

theorem aggregate_order_independent:
  assumes "set (filter (in_scope rules) cs) = set (filter (in_scope rules) cs')"
  shows "aggregateEarnings cs rules = aggregateEarnings cs' rules"
proof -
  have "scope_profile rules cs = scope_profile rules cs'"
    using assms by (simp add: scope_profile_def)
  note p = by_operation_profile [of "[]" rules cs] by_operation_profile [of "[]" rules cs'] this
  show ?thesis
  proof (cases "single_valued (scope_profile rules cs)")
    case True
    with p obtain m m' where "by_operation rules cs [] = Inr m" "by_operation rules cs' [] = Inr m'"
      "distinct (map fst m)" "distinct (map fst m')" "set (profile m) = set (profile m')"
      by (auto simp: profile_def)
    with profile_determines [of m m'] show ?thesis by (auto simp: aggregateEarnings_def Let_def split: sum.splits)
  next
    case False
    with p show ?thesis by (simp add: aggregateEarnings_def profile_def)
  qed
qed

definition sample_component :: "string \<Rightarrow> string \<Rightarrow> aggregation_component" where
  "sample_component k a = \<lparr>ac_operationId = k, ac_amount = Some a, ac_occurredAt = 5, ac_assetCode = ''XLM'', ac_assetIssuer = None\<rparr>"

definition sample_rules :: aggregation_rules where
  "sample_rules = \<lparr>ar_asset = \<lparr>as_code = ''XLM'', as_issuer = None\<rparr>, ar_period = \<lparr>pd_start = 0, pd_end = 10\<rparr>,
     ar_roundingIncrement = Inc_1\<rparr>"

theorem aggregate_order_independent_witness:
  "aggregateEarnings [sample_component ''a'' ''1.5'', sample_component ''b'' ''2''] sample_rules =
   aggregateEarnings [sample_component ''b'' ''2'', sample_component ''a'' ''1.5'', sample_component ''b'' ''2''] sample_rules"
  by (rule aggregate_order_independent) (auto simp: sample_component_def sample_rules_def in_scope_def)

lemma sum_components_Inr:
  assumes "sum_components ks m t c = Inr (t', c')"
  defines "amt \<equiv> \<lambda>k. the (Option.bind (Option.bind (map_of m k) ac_amount) parseStroops)"
  shows "(\<forall>k\<in>set ks. \<exists>a. map_option ac_amount (map_of m k) = Some (Some a) \<and> parseStroops a = Some (amt k)) \<and>
         t' = t + sum_list (map amt ks) \<and> c' = c @ map (\<lambda>k. (k, show_nat (amt k))) ks"
  using assms(1)
proof (induction ks arbitrary: t c)
  case (Cons k ks)
  then obtain n where n: "Option.bind (Option.bind (map_of m k) ac_amount) parseStroops = Some n"
    "sum_components ks m (t + n) (c @ [(k, show_nat n)]) = Inr (t', c')"
    by (auto split: option.splits)
  then have "amt k = n" "\<exists>a. map_option ac_amount (map_of m k) = Some (Some a) \<and> parseStroops a = Some n"
    by (auto simp: amt_def bind_eq_Some_conv)
  with Cons.IH [OF n(2)] show ?case by auto
qed simp

text \<open>What a disclosed figure owes to the exact total: a positive multiple of the increment, below it
  by less than one increment.\<close>

definition rounds_down :: "nat \<Rightarrow> nat \<Rightarrow> rounding_increment \<Rightarrow> bool" where
  "rounds_down d tot i \<longleftrightarrow>
     (let step = the (parseStroops (increment_text i)) in 0 < d \<and> d \<le> tot \<and> tot < d + step \<and> step dvd d)"

lemma aggregate_Inr:
  assumes "aggregateEarnings cs rules = Inr res"
  obtains amt d where
    "\<And>c. c \<in> set cs \<Longrightarrow> in_scope rules c \<Longrightarrow> \<exists>a. ac_amount c = Some a \<and> parseStroops a = Some (amt (ac_operationId c))"
    "g_disclosedAmount res = formatStroops d"
    "rounds_down d (sum amt (ac_operationId ` {c \<in> set cs. in_scope rules c})) (ar_roundingIncrement rules)"
    "g_paymentCount res = card (ac_operationId ` {c \<in> set cs. in_scope rules c})"
    "2 \<le> g_paymentCount res" "g_paymentCount res \<le> 500"
proof -
  obtain m tot comps where m: "by_operation rules cs [] = Inr m" "2 \<le> length m" "length m \<le> 500"
    "sum_components (sort (map fst m)) m 0 [] = Inr (tot, comps)" "floorToIncrement tot (ar_roundingIncrement rules) \<noteq> 0"
    "res = \<lparr>g_disclosedAmount = formatStroops (floorToIncrement tot (ar_roundingIncrement rules)), g_paymentCount = length m,
       g_canonicalComponents = comps\<rparr>"
    using assms by (auto simp: aggregateEarnings_def Let_def MIN_COMPONENT_PAYMENTS_def MAX_COMPONENT_PAYMENTS_def
        split: sum.splits if_splits)
  note p = by_operation_Inr [OF m(1)]
  let ?ops = "ac_operationId ` {c \<in> set cs. in_scope rules c}"
  let ?amt = "\<lambda>k. the (Option.bind (Option.bind (map_of m k) ac_amount) parseStroops)"
  have keys: "set (map fst m) = ?ops"
  proof -
    have "fst ` set (profile m) = ?ops" unfolding p(2) scope_profile_def by (simp add: image_image)
    then show ?thesis by (metis list.set_map profile_keys)
  qed
  note s = sum_components_Inr [OF m(4)]
  have tot: "tot = sum ?amt ?ops"
  proof -
    have "tot = sum_list (map ?amt (sort (map fst m)))"
      using s [THEN conjunct2, THEN conjunct1] by (simp only: add_0)
    also have "\<dots> = sum ?amt (set (sort (map fst m)))" using p(1) by (intro sum_list_distinct_conv_sum_set) simp
    finally show ?thesis by (simp only: set_sort keys)
  qed
  have amounts: "\<exists>a. ac_amount c = Some a \<and> parseStroops a = Some (?amt (ac_operationId c))"
    if "c \<in> set cs" "in_scope rules c" for c
  proof -
    have "(ac_operationId c, ac_amount c) \<in> set (profile m)" using that by (auto simp: p(2) scope_profile_def)
    then have "map_of (profile m) (ac_operationId c) = Some (ac_amount c)" using p(1) by (intro map_of_is_SomeI) auto
    moreover have "ac_operationId c \<in> set (map fst m)" unfolding keys using that by blast
    then obtain a where "map_option ac_amount (map_of m (ac_operationId c)) = Some (Some a)"
      "parseStroops a = Some (?amt (ac_operationId c))"
      using s [THEN conjunct1, unfolded set_sort] by blast
    ultimately show ?thesis by (intro exI [of _ a]) (simp only: map_of_profile option.inject)
  qed
  have len: "length m = card ?ops" using keys p(1) by (metis distinct_card length_map)
  show ?thesis
  proof (rule that [OF amounts])
    show "g_disclosedAmount res = formatStroops (floorToIncrement tot (ar_roundingIncrement rules))" using m(6) by simp
    show "rounds_down (floorToIncrement tot (ar_roundingIncrement rules)) (sum ?amt ?ops) (ar_roundingIncrement rules)"
      unfolding tot [symmetric] using m(5) by (simp add: rounds_down_def Let_def floor_le floor_close floor_dvd)
    show "g_paymentCount res = card ?ops" "2 \<le> g_paymentCount res" "g_paymentCount res \<le> 500"
      using m(2,3,6) len by simp_all
  qed
qed

subsection \<open>Facts about the calculator\<close>

lemma candidate_in_scope:
  "candidate_where userId asset period addresses r \<Longrightarrow>
   in_scope \<lparr>ar_asset = asset, ar_period = period, ar_roundingIncrement = i\<rparr> (row_component dec r)"
  by (simp add: candidate_where_def in_scope_def row_component_def)

lemma compute_Inr:
  assumes "compute dec hmac userId req now db = Inr res"
  obtains asset period addresses ag where
    "resolveAsset (eq_assets req) None = Inr asset"
    "resolvePeriod (eq_periodStart req) (eq_periodEnd req) now = Inr period"
    "sourceAddresses userId req db = Inr addresses"
    "aggregateEarnings (map (row_component dec) (candidate_rows (candidate_where userId asset period addresses) (payments db)))
       \<lparr>ar_asset = asset, ar_period = period, ar_roundingIncrement = eq_roundingIncrement req\<rparr> = Inr ag"
    "ec_disclosedAmount res = g_disclosedAmount ag" "ec_paymentCount res = g_paymentCount ag"
  using assms by (auto simp: compute_def Let_def split: sum.splits if_splits)

lemma candidate_rows_all:
  assumes "unique_on y_operationId t" "card (y_operationId ` set (candidate_rows p t)) \<le> 500"
  shows "mset (candidate_rows p t) = mset (filter p t)"
proof -
  let ?all = "sort_key y_occurredAt (sort_key y_operationId (filter p t))"
  have "distinct (map y_operationId (filter p t))" using assms(1) by (simp add: unique_on_def distinct_map_filter)
  then have "distinct (map y_operationId ?all)"
    by (metis distinct_map distinct_sort set_sort)
  then have "distinct (map y_operationId (take 501 ?all))" by (metis distinct_take take_map)
  then have "card (y_operationId ` set (take 501 ?all)) = length (take 501 ?all)"
    by (metis distinct_card length_map list.set_map)
  then have "min (length ?all) 501 \<le> 500"
    using assms(2) by (simp add: candidate_rows_def find_many_def MAX_COMPONENT_PAYMENTS_def)
  then show ?thesis by (simp add: candidate_rows_def find_many_def MAX_COMPONENT_PAYMENTS_def)
qed

text \<open>C19. A computed aggregate covers every payment that matches the request, none left out by the row
  limit: all their amounts are readable, and the disclosed figure is their exact sum rounded down by
  less than one increment.\<close>

theorem compute_sound:
  assumes "unique_on y_operationId (payments db)" "compute dec hmac userId req now db = Inr res"
  shows "\<exists>asset period addresses stroops d.
     (let rows = filter (candidate_where userId asset period addresses) (payments db) in
      resolveAsset (eq_assets req) None = Inr asset \<and>
      resolvePeriod (eq_periodStart req) (eq_periodEnd req) now = Inr period \<and>
      sourceAddresses userId req db = Inr addresses \<and>
      (\<forall>r\<in>set rows. Option.bind (readAmount dec (y_amountEncrypted r)) parseStroops = Some (stroops (y_operationId r))) \<and>
      ec_disclosedAmount res = formatStroops d \<and>
      rounds_down d (\<Sum>r\<leftarrow>rows. stroops (y_operationId r)) (eq_roundingIncrement req) \<and>
      ec_paymentCount res = length rows \<and> 2 \<le> length rows \<and> length rows \<le> 500)"
proof -
  from assms(2) obtain asset period addresses ag where c:
    "resolveAsset (eq_assets req) None = Inr asset"
    "resolvePeriod (eq_periodStart req) (eq_periodEnd req) now = Inr period"
    "sourceAddresses userId req db = Inr addresses"
    "aggregateEarnings (map (row_component dec) (candidate_rows (candidate_where userId asset period addresses) (payments db)))
       \<lparr>ar_asset = asset, ar_period = period, ar_roundingIncrement = eq_roundingIncrement req\<rparr> = Inr ag"
    "ec_disclosedAmount res = g_disclosedAmount ag" "ec_paymentCount res = g_paymentCount ag"
    by (rule compute_Inr)
  let ?w = "candidate_where userId asset period addresses" and ?cr = "candidate_rows (candidate_where userId asset period addresses) (payments db)"
  let ?rules = "\<lparr>ar_asset = asset, ar_period = period, ar_roundingIncrement = eq_roundingIncrement req\<rparr>"
  have w: "?w r" if "r \<in> set ?cr" for r
    using that by (auto simp: candidate_rows_def find_many_def dest: in_set_takeD)
  have ops: "ac_operationId ` {c \<in> set (map (row_component dec) ?cr). in_scope ?rules c} = y_operationId ` set ?cr"
    using candidate_in_scope [OF w] by (force simp: row_component_def)
  obtain amt d where a:
    "\<And>r. r \<in> set ?cr \<Longrightarrow> \<exists>a. readAmount dec (y_amountEncrypted r) = Some a \<and> parseStroops a = Some (amt (y_operationId r))"
    "g_disclosedAmount ag = formatStroops d" "rounds_down d (sum amt (y_operationId ` set ?cr)) (eq_roundingIncrement req)"
    "g_paymentCount ag = card (y_operationId ` set ?cr)" "2 \<le> g_paymentCount ag" "g_paymentCount ag \<le> 500"
  proof (rule aggregate_Inr [OF c(4)], unfold ops aggregation_rules.simps, goal_cases)
    case (1 amt d)
    show ?case
    proof (rule 1(1) [of amt d, OF _ 1(3-7)])
      fix r assume r: "r \<in> set ?cr"
      with 1(2) [of "row_component dec r"] candidate_in_scope [OF w [OF r]]
      show "\<exists>a. readAmount dec (y_amountEncrypted r) = Some a \<and> parseStroops a = Some (amt (y_operationId r))"
        by (simp add: row_component_def)
    qed
  qed
  have all: "mset ?cr = mset (filter ?w (payments db))"
    using a(4,6) by (intro candidate_rows_all [OF assms(1)]) simp
  then have set_eq: "set ?cr = set (filter ?w (payments db))" by (rule mset_eq_setD)
  have dist: "distinct (map y_operationId (filter ?w (payments db)))"
    using assms(1) by (simp add: unique_on_def distinct_map_filter)
  have "Option.bind (readAmount dec (y_amountEncrypted r)) parseStroops = Some (amt (y_operationId r))"
    if "r \<in> set (filter ?w (payments db))" for r
    using a(1) [of r] that by (auto simp: set_eq)
  moreover have "sum amt (y_operationId ` set ?cr) = (\<Sum>r\<leftarrow>filter ?w (payments db). amt (y_operationId r))"
    unfolding set_eq using sum_list_distinct_conv_sum_set [OF dist, of amt] by (simp add: o_def)
  moreover have "card (y_operationId ` set ?cr) = length (filter ?w (payments db))"
    unfolding set_eq using dist by (metis distinct_card length_map list.set_map)
  ultimately show ?thesis
    using c a by (intro exI [of _ asset] exI [of _ period] exI [of _ addresses] exI [of _ amt] exI [of _ d]) (simp add: Let_def)
qed

definition sample_payment :: "string \<Rightarrow> string \<Rightarrow> string option \<Rightarrow> payment_row" where
  "sample_payment k amount src =
     \<lparr>y_id = k, y_userId = ''u'', y_operationId = k, y_sourceAddress = src, y_sourceAddressEncrypted = None, y_finalityHoldAt = None, y_assetCode = ''XLM'',
      y_assetIssuer = None, y_amountEncrypted = Some amount, y_occurredAt = 5, y_classification = CL_INCOME, y_isEligible = True\<rparr>"

definition sample_earnings :: "string option \<Rightarrow> earnings_db" where
  "sample_earnings src =
     \<lparr>payments = [sample_payment ''o1'' ''1.5'' src, sample_payment ''o2'' ''2.25'' src], issuers = [],
      trusted_sources = [\<lparr>ts_id = ''s'', ts_userId = ''u'', ts_sourceAddress = ''G1'', ts_issuerId = None, ts_status = RS_ACTIVE\<rparr>]\<rparr>"

definition sample_earnings_request :: "source_scope \<Rightarrow> earnings_request" where
  "sample_earnings_request sc =
     \<lparr>eq_assets = [\<lparr>as_code = ''XLM'', as_issuer = None\<rparr>], eq_periodStart = Some 0, eq_periodEnd = Some 10,
      eq_sourceScope = sc, eq_issuerIds = None, eq_roundingIncrement = Inc_1\<rparr>"

lemma sample_amounts: "parseStroops ''1.5'' = Some 15000000" "parseStroops ''2.25'' = Some 22500000"
  "the (parseStroops ''1'') = 10000000" "formatStroops 30000000 = ''3.0000000''"
  by (simp_all add: parseStroops_def digits_upto_def all_digits_def is_digit_def read_digits_def digit_val_def
      STROOPS_PER_UNIT_def pad_end_def replicate_eqs formatStroops_def show_nat_digit digit_char_def pad_start_def)

lemma sample_compute:
  "map_sum fst ec_disclosedAmount (compute Some id ''u'' (sample_earnings_request Scope_income) 20 (sample_earnings None)) =
   Inr ''3.0000000''"
proof -
  have "sort [''o1'', ''o2''] = [''o1'', ''o2'']" by code_simp
  then show ?thesis
    by (simp add: compute_def sample_earnings_request_def sample_earnings_def sample_payment_def resolveAsset_def Let_def
        resolvePeriod_def MAX_PERIOD_DAYS_def sourceAddresses_def candidate_rows_def find_many_def candidate_where_def
        MAX_COMPONENT_PAYMENTS_def MIN_COMPONENT_PAYMENTS_def aggregateEarnings_def row_component_def readAmount_def
        in_scope_def sample_amounts floorToIncrement_def)
qed

theorem compute_sound_witness:
  "\<exists>res asset period addresses stroops d.
     (let rows = filter (candidate_where ''u'' asset period addresses) (payments (sample_earnings None)) in
      compute Some id ''u'' (sample_earnings_request Scope_income) 20 (sample_earnings None) = Inr res \<and>
      ec_disclosedAmount res = ''3.0000000'' \<and> ec_disclosedAmount res = formatStroops d \<and>
      rounds_down d (\<Sum>r\<leftarrow>rows. stroops (y_operationId r)) Inc_1 \<and> ec_paymentCount res = length rows)"
proof -
  from sample_compute obtain res where
    r: "compute Some id ''u'' (sample_earnings_request Scope_income) 20 (sample_earnings None) = Inr res"
    "ec_disclosedAmount res = ''3.0000000''"
    by (cases "compute Some id ''u'' (sample_earnings_request Scope_income) 20 (sample_earnings None)") auto
  have "unique_on y_operationId (payments (sample_earnings None))"
    by (simp add: unique_on_def sample_earnings_def sample_payment_def)
  from compute_sound [OF this r(1)] r show ?thesis
    by (simp only: Let_def sample_earnings_request_def earnings_request.simps) metis
qed

text \<open>C40. Once the plaintext sender of every payment has been cleared, an aggregate limited to trusted
  sources or verified issuers is always refused.\<close>

theorem migrated_payments_never_match:
  assumes "\<And>r. r \<in> set (payments db) \<Longrightarrow> y_sourceAddress r = None" "eq_sourceScope req \<noteq> Scope_income"
  shows "\<exists>e. compute dec hmac userId req now db = Inl e"
proof (rule ccontr)
  assume "\<nexists>e. compute dec hmac userId req now db = Inl e"
  then obtain res where "compute dec hmac userId req now db = Inr res" by (metis old.sum.exhaust)
  then obtain asset period addresses ag where c: "sourceAddresses userId req db = Inr addresses"
    "aggregateEarnings (map (row_component dec) (candidate_rows (candidate_where userId asset period addresses) (payments db)))
       \<lparr>ar_asset = asset, ar_period = period, ar_roundingIncrement = eq_roundingIncrement req\<rparr> = Inr ag"
    by (rule compute_Inr)
  from c(1) assms(2) obtain as where "addresses = Some as"
    by (cases "eq_sourceScope req") (auto simp: sourceAddresses_def Let_def split: if_splits)
  then have "filter (candidate_where userId asset period addresses) (payments db) = []"
    using assms(1) by (auto simp: filter_empty_conv candidate_where_def)
  with c(2) show False by (simp add: candidate_rows_def find_many_def aggregateEarnings_def MIN_COMPONENT_PAYMENTS_def)
qed

theorem migrated_payments_never_match_witness:
  "\<exists>e. compute Some id ''u'' (sample_earnings_request Scope_trusted_sources) 20 (sample_earnings None) = Inl e"
  by (rule migrated_payments_never_match)
    (auto simp: sample_earnings_def sample_payment_def sample_earnings_request_def)

text \<open>L. A finality hold on a payment makes no difference to an aggregate: held payments are counted.\<close>

theorem held_payments_counted:
  "compute dec hmac userId req now (db\<lparr>payments := map (\<lambda>r. r\<lparr>y_finalityHoldAt := hold r\<rparr>) (payments db)\<rparr>) =
   compute dec hmac userId req now db"
proof -
  let ?h = "\<lambda>r. r\<lparr>y_finalityHoldAt := hold r\<rparr>"
  have rows: "map (row_component dec) (candidate_rows (candidate_where u as pd ads) (map ?h t)) =
      map (row_component dec) (candidate_rows (candidate_where u as pd ads) t)" for u as pd ads t
  proof -
    have "sort_key y_occurredAt (sort_key y_operationId (map ?h xs)) = map ?h (sort_key y_occurredAt (sort_key y_operationId xs))" for xs
      by (simp add: sort_key_map o_def)
    moreover have "candidate_where u as pd ads (?h r) = candidate_where u as pd ads r" for r
      by (cases ads) (simp_all add: candidate_where_def)
    ultimately show ?thesis
      by (simp add: candidate_rows_def find_many_def filter_map o_def take_map row_component_def)
  qed
  have "sourceAddresses userId req (db\<lparr>payments := ps\<rparr>) = sourceAddresses userId req db"
    "payments (db\<lparr>payments := ps\<rparr>) = ps" for ps
    by (cases "eq_sourceScope req"; simp add: sourceAddresses_def) simp
  then show ?thesis unfolding compute_def Let_def by (simp only: rows)
qed

end
