(* ===== verification/Continuity.thy ===== *)
theory Continuity
  imports Store Calendar "HOL-Library.AList"
begin

text \<open>
  Employment-continuity proofs, \<open>proofs/employment-continuity.policy.ts\<close>: a window of whole UTC
  months, the month a payment falls in, and the rule that at most one month may be without a
  payment.  The payments carry whatever else the caller selected, so the functions work on every
  extension of the record, as the type parameter of the source does.
\<close>

definition MIN_CONTINUITY_PERIODS :: int where "MIN_CONTINUITY_PERIODS = 3"
definition MAX_CONTINUITY_PERIODS :: int where "MAX_CONTINUITY_PERIODS = 24"
definition MAX_MISSING_CONTINUITY_PERIODS :: int where "MAX_MISSING_CONTINUITY_PERIODS = 1"

datatype continuity_violation = cv_invalid_date | cv_not_period_aligned | cv_invalid_period_count | cv_window_not_complete

record continuity_window =
  w_start :: time_ms
  w_end :: time_ms
  w_periods :: int

record continuity_payment =
  cp_operationId :: string
  cp_occurredAt :: time_ms

record 'p continuity_evaluation =
  ce_continuous :: bool
  ce_coveredPeriods :: int
  ce_missingPeriods :: int
  ce_includedPayments :: "'p list"

definition isUtcMonthStart :: "time_ms \<Rightarrow> bool" where
  "isUtcMonthStart t \<longleftrightarrow> utc_date t = 1 \<and> time_in_day t = 0"

text \<open>\<open>Date.UTC\<close> reads the years 0 to 99 as 1900 to 1999.\<close>

definition js_date_utc :: "int \<Rightarrow> int \<Rightarrow> int \<Rightarrow> time_ms" where
  "js_date_utc y m d = date_utc (if 0 \<le> y \<and> y \<le> 99 then 1900 + y else y) m d"

definition addUtcMonths :: "time_ms \<Rightarrow> int \<Rightarrow> time_ms" where
  "addUtcMonths t months = js_date_utc (utc_year t) (utc_month t + months) 1"

text \<open>An invalid date is None; a number of periods that is not an integer is None.\<close>

definition buildContinuityWindow ::
  "time_ms option \<Rightarrow> int option \<Rightarrow> time_ms \<Rightarrow> (continuity_violation, continuity_window) result" where
  "buildContinuityWindow start periods now =
     (case start of None \<Rightarrow> Inl cv_invalid_date | Some st \<Rightarrow>
      if \<not> isUtcMonthStart st then Inl cv_not_period_aligned
      else case periods of None \<Rightarrow> Inl cv_invalid_period_count | Some n \<Rightarrow>
        if n < MIN_CONTINUITY_PERIODS \<or> n > MAX_CONTINUITY_PERIODS then Inl cv_invalid_period_count
        else let fin = addUtcMonths st n in
             if fin > now then Inl cv_window_not_complete
             else Inr \<lparr>w_start = st, w_end = fin, w_periods = n\<rparr>)"

definition continuityPeriodIndex :: "time_ms \<Rightarrow> continuity_window \<Rightarrow> int option" where
  "continuityPeriodIndex at w =
     (if at < w_start w \<or> at \<ge> w_end w then None
      else let index = (utc_year at - utc_year (w_start w)) * 12 + (utc_month at - utc_month (w_start w))
           in if index \<ge> 0 \<and> index < w_periods w then Some index else None)"

text \<open>The first loop of \<open>evaluateContinuity\<close>: the earliest record of every operation.\<close>

definition keep_earliest ::
  "(string \<times> 'a continuity_payment_scheme) list \<Rightarrow> 'a continuity_payment_scheme \<Rightarrow> (string \<times> 'a continuity_payment_scheme) list" where
  "keep_earliest m p =
     (case map_of m (cp_operationId p) of
        None \<Rightarrow> AList.update (cp_operationId p) p m
      | Some existing \<Rightarrow>
          if cp_occurredAt p < cp_occurredAt existing then AList.update (cp_operationId p) p m else m)"

definition cover_period :: "continuity_window \<Rightarrow> bool list \<Rightarrow> 'a continuity_payment_scheme \<Rightarrow> bool list" where
  "cover_period w covered p =
     (case continuityPeriodIndex (cp_occurredAt p) w of None \<Rightarrow> covered | Some i \<Rightarrow> covered[nat i := True])"

definition evaluateContinuity ::
  "'a continuity_payment_scheme list \<Rightarrow> continuity_window \<Rightarrow> ('a continuity_payment_scheme) continuity_evaluation" where
  "evaluateContinuity ps w =
     (let byOperation = map snd (foldl keep_earliest [] ps);
          covered = foldl (cover_period w) (replicate (nat (w_periods w)) False) byOperation;
          included = filter (\<lambda>p. continuityPeriodIndex (cp_occurredAt p) w \<noteq> None) byOperation;
          coveredPeriods = int (length (filter id covered));
          missingPeriods = w_periods w - coveredPeriods
      in \<lparr>ce_continuous = (missingPeriods \<le> MAX_MISSING_CONTINUITY_PERIODS \<and> covered \<noteq> [] \<and> covered ! 0 \<and>
                          covered ! nat (w_periods w - 1)),
          ce_coveredPeriods = coveredPeriods, ce_missingPeriods = missingPeriods,
          ce_includedPayments = sort_key cp_occurredAt (sort_key cp_operationId included)\<rparr>)"

subsection \<open>Facts\<close>

lemma month_start_aligned:
  assumes "isUtcMonthStart t"
  shows "t = month_start (utc_month_number t)"
proof -
  have "month_start (utc_month_number t) = (day_from_year (utc_year t) + month_offset (is_leap (utc_year t)) (utc_month t)) * ms_per_day"
    using month_start_year_month(1) [OF utc_month_bounds(1,2) [of t], of "utc_year t"] by (simp add: utc_month_number_def)
  also have "\<dots> = day_of t * ms_per_day"
    using assms by (simp add: isUtcMonthStart_def utc_date_def day_in_year_def)
  also have "\<dots> = t"
    using assms div_mult_mod_eq [of t ms_per_day] by (simp add: isUtcMonthStart_def day_of_def time_in_day_def)
  finally show ?thesis ..
qed

lemma addUtcMonths_start:
  "\<not> (0 \<le> utc_year t \<and> utc_year t \<le> 99) \<Longrightarrow> addUtcMonths t n = month_start (utc_month_number t + n)"
  by (auto simp: addUtcMonths_def js_date_utc_def date_utc_month_start utc_month_number_def algebra_simps)

text \<open>The windows that are built, and the months they are made of.\<close>

lemma window_Inr:
  assumes "buildContinuityWindow (Some st) (Some n) now = Inr w" "100 \<le> utc_year st"
  shows "w_periods w = n" "3 \<le> n" "n \<le> 24" "w_start w = month_start (utc_month_number st)"
    "w_end w = month_start (utc_month_number st + n)" "w_end w \<le> now"
  using assms month_start_aligned [of st] addUtcMonths_start [of st n]
  by (auto simp: buildContinuityWindow_def Let_def MIN_CONTINUITY_PERIODS_def MAX_CONTINUITY_PERIODS_def split: if_splits)

lemma period_index_iff:
  assumes "buildContinuityWindow (Some st) (Some n) now = Inr w" "100 \<le> utc_year st"
  shows "continuityPeriodIndex at w = Some i \<longleftrightarrow>
     0 \<le> i \<and> i < n \<and> month_start (utc_month_number st + i) \<le> at \<and> at < month_start (utc_month_number st + i + 1)"
proof -
  note w = window_Inr [OF assms]
  let ?k = "utc_month_number st"
  have idx: "(utc_year at - utc_year (w_start w)) * 12 + (utc_month at - utc_month (w_start w)) = utc_month_number at - ?k"
    using utc_month_number_start [of ?k] by (simp add: w(4) utc_month_number_def algebra_simps)
  have "at < w_start w \<or> at \<ge> w_end w \<longleftrightarrow> \<not> (?k \<le> utc_month_number at \<and> utc_month_number at < ?k + n)"
    using month_number_bounds [of at] month_start_mono [of ?k "utc_month_number at"]
      month_start_mono [of "utc_month_number at + 1" ?k] month_start_mono [of "utc_month_number at + 1" "?k + n"]
      month_start_mono [of "?k + n" "utc_month_number at"]
    unfolding w(4,5) by (smt (verit))
  then show ?thesis
    unfolding continuityPeriodIndex_def Let_def idx w(1) using month_number_iff [of at "?k + i"] by auto
qed

definition earliest :: "'a continuity_payment_scheme list \<Rightarrow> 'a continuity_payment_scheme \<Rightarrow> bool" where
  "earliest ps p \<longleftrightarrow> (\<forall>q\<in>set ps. cp_operationId q = cp_operationId p \<longrightarrow> cp_occurredAt p \<le> cp_occurredAt q)"

definition earliest_map :: "'a continuity_payment_scheme list \<Rightarrow> (string \<times> 'a continuity_payment_scheme) list \<Rightarrow> bool" where
  "earliest_map ps m \<longleftrightarrow>
     (\<forall>k p. map_of m k = Some p \<longrightarrow> p \<in> set ps \<and> cp_operationId p = k \<and> earliest ps p) \<and>
     (\<forall>p\<in>set ps. map_of m (cp_operationId p) \<noteq> None) \<and> distinct (map fst m)"

lemma keep_earliest_map: "earliest_map ps m \<Longrightarrow> earliest_map (ps @ [p]) (keep_earliest m p)"
proof (cases "map_of m (cp_operationId p)")
  case None
  assume m: "earliest_map ps m"
  then have "q \<in> set ps \<Longrightarrow> cp_operationId q \<noteq> cp_operationId p" for q using None by (auto simp: earliest_map_def)
  with m None show ?thesis
    by (auto simp: earliest_map_def keep_earliest_def update_conv' distinct_update earliest_def split: if_splits)
next
  case (Some e)
  assume m: "earliest_map ps m"
  with Some have e: "cp_operationId e = cp_operationId p" "earliest ps e" "e \<in> set ps" by (auto simp: earliest_map_def)
  show ?thesis
  proof (cases "cp_occurredAt p < cp_occurredAt e")
    case True
    with e have "earliest (ps @ [p]) p" by (fastforce simp: earliest_def)
    with m Some True e show ?thesis
      by (auto simp: earliest_map_def keep_earliest_def update_conv' distinct_update earliest_def split: if_splits)
  next
    case False
    then have k: "keep_earliest m p = m" using Some by (simp add: keep_earliest_def)
    have "earliest (ps @ [p]) q" if "map_of m j = Some q" for j q
      using m that Some False e(1) by (cases "j = cp_operationId p") (auto simp: earliest_map_def earliest_def)
    with m Some show ?thesis unfolding k by (auto simp: earliest_map_def)
  qed
qed

lemma foldl_keep_earliest: "earliest_map ps (foldl keep_earliest [] ps)"
  by (induction ps rule: rev_induct) (simp_all add: earliest_map_def [of "[]"] keep_earliest_map)

lemma earliest_map_times:
  assumes "earliest_map ps m"
  shows "(\<exists>p\<in>set (map snd m). P (cp_occurredAt p)) \<longleftrightarrow> (\<exists>p\<in>set ps. earliest ps p \<and> P (cp_occurredAt p))"
proof
  assume "\<exists>p\<in>set (map snd m). P (cp_occurredAt p)"
  then obtain k p where "(k, p) \<in> set m" "P (cp_occurredAt p)" by auto
  moreover from this assms have "map_of m k = Some p" by (auto simp: earliest_map_def)
  ultimately show "\<exists>p\<in>set ps. earliest ps p \<and> P (cp_occurredAt p)" using assms unfolding earliest_map_def by blast
next
  assume "\<exists>p\<in>set ps. earliest ps p \<and> P (cp_occurredAt p)"
  then obtain p where p: "p \<in> set ps" "earliest ps p" "P (cp_occurredAt p)" by blast
  with assms obtain q where q: "map_of m (cp_operationId p) = Some q" by (auto simp: earliest_map_def)
  with assms have "q \<in> set ps" "cp_operationId q = cp_operationId p" "earliest ps q" by (auto simp: earliest_map_def)
  with p have "cp_occurredAt q = cp_occurredAt p" by (auto simp: earliest_def intro: antisym)
  moreover have "q \<in> set (map snd m)" using map_of_SomeD [OF q] by force
  ultimately show "\<exists>p\<in>set (map snd m). P (cp_occurredAt p)" using p(3) by (metis)
qed

lemma cover_length [simp]: "length (foldl (cover_period w) c ps) = length c"
  by (induction ps arbitrary: c) (auto simp: cover_period_def split: option.splits)

lemma nth_set_True: "i < length c \<Longrightarrow> c[j := True] ! i \<longleftrightarrow> c ! i \<or> i = j"
  by (cases "i = j") auto

lemma cover_nth:
  "i < length c \<Longrightarrow> foldl (cover_period w) c ps ! i \<longleftrightarrow>
     c ! i \<or> (\<exists>p\<in>set ps. \<exists>j. continuityPeriodIndex (cp_occurredAt p) w = Some j \<and> nat j = i)"
  by (induction ps arbitrary: c) (auto simp: cover_period_def nth_set_True split: option.splits)

lemma length_filter_id: "length (filter id xs) = card {i. i < length xs \<and> xs ! i}"
  using length_filter_conv_card [of id xs] by simp

text \<open>
  The months of a window that count as covered: some operation's earliest record falls in the month.
\<close>

definition covered_months :: "time_ms \<Rightarrow> int \<Rightarrow> 'a continuity_payment_scheme list \<Rightarrow> nat set" where
  "covered_months st n ps =
     {i. int i < n \<and> (\<exists>p\<in>set ps. earliest ps p \<and> month_start (utc_month_number st + int i) \<le> cp_occurredAt p \<and>
                        cp_occurredAt p < month_start (utc_month_number st + int i + 1))}"

text \<open>C28. On a window that was built, the evaluation is the calendar rule: an operation counts in the UTC
  month that contains its earliest record, the covered months are counted once each, and continuity
  means that at most one month is missing and that the first and the last are covered.\<close>

theorem continuity_iff:
  assumes "buildContinuityWindow (Some st) (Some n) now = Inr w" "100 \<le> utc_year st"
  shows "ce_coveredPeriods (evaluateContinuity ps w) = int (card (covered_months st n ps)) \<and>
         (ce_continuous (evaluateContinuity ps w) \<longleftrightarrow>
            n - int (card (covered_months st n ps)) \<le> 1 \<and> 0 \<in> covered_months st n ps \<and> nat (n - 1) \<in> covered_months st n ps)"
proof -
  note w = window_Inr [OF assms]
  let ?m = "foldl keep_earliest [] ps"
  let ?c = "foldl (cover_period w) (replicate (nat n) False) (map snd ?m)"
  have nth: "?c ! i \<longleftrightarrow> i \<in> covered_months st n ps" if "i < nat n" for i
  proof -
    have "(\<exists>j. continuityPeriodIndex at w = Some j \<and> nat j = i) \<longleftrightarrow>
        month_start (utc_month_number st + int i) \<le> at \<and> at < month_start (utc_month_number st + int i + 1)" for at
      using that by (auto simp: period_index_iff [OF assms] intro!: exI [of _ "int i"])
    then show ?thesis
      using that earliest_map_times [OF foldl_keep_earliest, of ps "\<lambda>at. \<exists>j. continuityPeriodIndex at w = Some j \<and> nat j = i"]
      by (simp add: cover_nth covered_months_def zless_nat_eq_int_zless)
  qed
  have "{i. i < nat n \<and> ?c ! i} = covered_months st n ps"
    using nth by (auto simp: covered_months_def)
  then have "length (filter id ?c) = card (covered_months st n ps)" by (simp add: length_filter_id)
  moreover have "?c \<noteq> []" using w(2) by (simp flip: length_0_conv)
  moreover have "?c ! 0 \<longleftrightarrow> 0 \<in> covered_months st n ps" "?c ! nat (n - 1) \<longleftrightarrow> nat (n - 1) \<in> covered_months st n ps"
    using nth w(2) by simp_all
  ultimately show ?thesis
    by (simp add: evaluateContinuity_def Let_def w(1) MAX_MISSING_CONTINUITY_PERIODS_def)
qed

definition sample_receipts :: "continuity_payment list" where
  "sample_receipts =
     [\<lparr>cp_operationId = ''a'', cp_occurredAt = 5\<rparr>, \<lparr>cp_operationId = ''c'', cp_occurredAt = 5100000000\<rparr>,
      \<lparr>cp_operationId = ''a'', cp_occurredAt = 2700000000\<rparr>]"

lemma sample_window: "buildContinuityWindow (Some 0) (Some 3) 8000000000 =
  Inr \<lparr>w_start = 0, w_end = 7776000000, w_periods = 3\<rparr>"
  by code_simp

theorem continuity_iff_witness:
  "let w = \<lparr>w_start = 0, w_end = 7776000000, w_periods = 3\<rparr> in
   utc_year 0 = 1970 \<and> ce_continuous (evaluateContinuity sample_receipts w) \<and>
   ce_coveredPeriods (evaluateContinuity sample_receipts w) = int (card (covered_months 0 3 sample_receipts))"
proof -
  have y: "utc_year 0 = 1970" by code_simp
  have "ce_continuous (evaluateContinuity sample_receipts \<lparr>w_start = 0, w_end = 7776000000, w_periods = 3\<rparr>)" by code_simp
  with y continuity_iff [OF sample_window, of sample_receipts] show ?thesis by (simp add: Let_def)
qed

end
