(* ===== verification/EmployerPayment.thy ===== *)
theory EmployerPayment
  imports Store JsStrings
begin

text \<open>
  Employer-payment proofs, \<open>proofs/employer-payment.policy.ts\<close>: the half-open period, the employer a
  trusted source resolves to, and the deterministic choice of a corroborated payment.  Candidates
  carry whatever else the caller selected (an extensible record); the reference hash of a candidate
  is a function argument, as in the source.
\<close>

definition MAX_EMPLOYER_PAYMENT_PERIOD_DAYS :: int where
  "MAX_EMPLOYER_PAYMENT_PERIOD_DAYS = 366"

datatype employer_corroboration = issuer_account | issuer_attestation

datatype employer_period_violation = ev_invalid_date | ev_empty_or_inverted | ev_too_long | ev_ends_in_future

definition validateEmployerPaymentPeriod ::
  "time_ms option \<Rightarrow> time_ms option \<Rightarrow> time_ms \<Rightarrow> employer_period_violation option" where
  "validateEmployerPaymentPeriod periodStart periodEnd now =
     (case (periodStart, periodEnd) of
        (Some st, Some fin) \<Rightarrow>
          if st \<ge> fin then Some ev_empty_or_inverted
          else if fin - st > MAX_EMPLOYER_PAYMENT_PERIOD_DAYS * DAY_MS then Some ev_too_long
          else if fin > now then Some ev_ends_in_future
          else None
      | _ \<Rightarrow> Some ev_invalid_date)"

definition isWithinEmployerPaymentPeriod :: "time_ms \<Rightarrow> time_ms \<Rightarrow> time_ms \<Rightarrow> bool" where
  "isWithinEmployerPaymentPeriod at periodStart periodEnd \<longleftrightarrow> at \<ge> periodStart \<and> at < periodEnd"

record employer_issuer =
  ei_id :: ident
  ei_status :: resource_status
  ei_stellarAddress :: string
  ei_organization :: "resource_status option"

record employer_source =
  es_id :: ident
  es_sourceAddress :: string
  es_status :: resource_status
  es_issuerId :: "ident option"
  es_issuer :: "employer_issuer option"

datatype source_rejection = source_inactive | source_unlinked | issuer_inactive | organization_inactive | ambiguous_issuer

record employer_resolution =
  er_issuerId :: ident
  er_sourceAddress :: string
  er_isIssuerAccount :: bool

definition resolveEmployerSource ::
  "employer_source \<Rightarrow> ident option \<Rightarrow> (source_rejection, employer_resolution) result" where
  "resolveEmployerSource source conflictingIssuerId =
     (if es_status source \<noteq> RS_ACTIVE then Inl source_inactive
      else if \<not> truthy (es_issuerId source) then Inl source_unlinked
      else case es_issuer source of
             None \<Rightarrow> Inl source_unlinked
           | Some issuer \<Rightarrow>
               if ei_status issuer \<noteq> RS_ACTIVE then Inl issuer_inactive
               else if ei_organization issuer \<noteq> Some RS_ACTIVE then Inl organization_inactive
               else if truthy conflictingIssuerId \<and> conflictingIssuerId \<noteq> Some (ei_id issuer) then Inl ambiguous_issuer
               else Inr \<lparr>er_issuerId = ei_id issuer, er_sourceAddress = es_sourceAddress source,
                         er_isIssuerAccount = (ei_stellarAddress issuer = es_sourceAddress source)\<rparr>)"

record employer_candidate =
  ek_id :: ident
  ek_operationId :: string
  ek_occurredAt :: time_ms

text \<open>Most recent first, ties by operation id.\<close>

definition orderEmployerPaymentCandidates :: "'a employer_candidate_scheme list \<Rightarrow> 'a employer_candidate_scheme list" where
  "orderEmployerPaymentCandidates cs = sort_key (\<lambda>c. - ek_occurredAt c) (sort_key ek_operationId cs)"

fun first_corroborated :: "'a employer_candidate_scheme list \<Rightarrow> bool \<Rightarrow> string set \<Rightarrow> ('a employer_candidate_scheme \<Rightarrow> string)
    \<Rightarrow> ('a employer_candidate_scheme \<times> employer_corroboration) option" where
  "first_corroborated [] isIssuerAccount attested referenceOf = None"
| "first_corroborated (c # cs) isIssuerAccount attested referenceOf =
     (if isIssuerAccount then Some (c, issuer_account)
      else if referenceOf c \<in> attested then Some (c, issuer_attestation)
      else first_corroborated cs isIssuerAccount attested referenceOf)"

definition selectEmployerPayment :: "'a employer_candidate_scheme list \<Rightarrow> bool \<Rightarrow> string set \<Rightarrow>
    ('a employer_candidate_scheme \<Rightarrow> string) \<Rightarrow> ('a employer_candidate_scheme \<times> employer_corroboration) option" where
  "selectEmployerPayment cs isIssuerAccount attested referenceOf =
     first_corroborated (orderEmployerPaymentCandidates cs) isIssuerAccount attested referenceOf"

subsection \<open>Facts\<close>

text \<open>\<open>c\<close> comes before \<open>d\<close> in the order of candidates.\<close>

definition preferred :: "'a employer_candidate_scheme \<Rightarrow> 'a employer_candidate_scheme \<Rightarrow> bool" where
  "preferred c d \<longleftrightarrow> ek_occurredAt d < ek_occurredAt c \<or>
     (ek_occurredAt c = ek_occurredAt d \<and> ek_operationId c \<le> ek_operationId d)"

definition corroborated :: "bool \<Rightarrow> string set \<Rightarrow> ('a employer_candidate_scheme \<Rightarrow> string) \<Rightarrow> 'a employer_candidate_scheme \<Rightarrow> bool" where
  "corroborated isIssuerAccount attested referenceOf c \<longleftrightarrow> isIssuerAccount \<or> referenceOf c \<in> attested"

lemma set_order [simp]: "set (orderEmployerPaymentCandidates cs) = set cs"
  by (simp add: orderEmployerPaymentCandidates_def)

text \<open>Sorting by a second key keeps the order by the first among equals.\<close>

lemma sorted_sort_key_stable:
  assumes "sorted (map g xs)"
  shows "sorted_wrt (\<lambda>a b. f a < f b \<or> (f a = f b \<and> g a \<le> g b)) (sort_key f xs)"
proof -
  have "f a < f b \<or> (f a = f b \<and> g a \<le> g b)" if ij: "i < j" "j < length xs" "a = sort_key f xs ! i" "b = sort_key f xs ! j" for i j a b
  proof (cases "f a = f b")
    case True
    let ?ys = "filter (\<lambda>y. f y = f a) (sort_key f xs)"
    have ys: "?ys = filter (\<lambda>y. f y = f a) xs" by (rule sort_key_stable)
    have "sorted (map g ?ys)" unfolding ys using assms by (simp add: sorted_filter)
    moreover have "\<exists>us vs ws. sort_key f xs = us @ a # vs @ b # ws"
    proof -
      let ?s = "sort_key f xs"
      have "?s = take i ?s @ a # drop (Suc i) ?s" using ij by (simp add: id_take_nth_drop)
      moreover have "drop (Suc i) ?s = take (j - Suc i) (drop (Suc i) ?s) @ b # drop (Suc (j - Suc i)) (drop (Suc i) ?s)"
        using ij by (subst id_take_nth_drop [of "j - Suc i"]) auto
      ultimately show ?thesis by metis
    qed
    ultimately show ?thesis using True by (auto simp: sorted_append)
  next
    case False
    have "sorted (map f (sort_key f xs))" by simp
    then have "f a \<le> f b" using ij by (auto simp: sorted_iff_nth_mono dest: spec [of _ i])
    with False show ?thesis by auto
  qed
  then show ?thesis by (auto simp: sorted_wrt_iff_nth_less)
qed

lemma order_sorted: "sorted_wrt preferred (orderEmployerPaymentCandidates cs)"
proof -
  have "sorted_wrt (\<lambda>a b. - ek_occurredAt a < - ek_occurredAt b \<or> (- ek_occurredAt a = - ek_occurredAt b \<and> ek_operationId a \<le> ek_operationId b))
      (orderEmployerPaymentCandidates cs)"
    unfolding orderEmployerPaymentCandidates_def by (rule sorted_sort_key_stable) simp
  then show ?thesis by (rule sorted_wrt_mono_rel [rotated]) (auto simp: preferred_def)
qed

lemma first_corroborated_spec:
  assumes "sorted_wrt preferred cs"
  shows "case first_corroborated cs acct att ref of
      None \<Rightarrow> \<forall>c\<in>set cs. \<not> corroborated acct att ref c
    | Some (p, why) \<Rightarrow> p \<in> set cs \<and> corroborated acct att ref p \<and> why = (if acct then issuer_account else issuer_attestation) \<and>
        (\<forall>c\<in>set cs. corroborated acct att ref c \<longrightarrow> preferred p c)"
  using assms
proof (induction cs)
  case (Cons c cs)
  then show ?case by (auto simp: corroborated_def preferred_def split: option.splits)
qed simp

text \<open>C29. The payment chosen is a corroborated candidate that precedes every other corroborated one, with
  the corroboration it has; nothing is chosen exactly when no candidate is corroborated.\<close>

theorem select_best_corroborated:
  "case selectEmployerPayment cs acct att ref of
      None \<Rightarrow> filter (corroborated acct att ref) cs = []
    | Some (p, why) \<Rightarrow> p \<in> set cs \<and> corroborated acct att ref p \<and> why = (if acct then issuer_account else issuer_attestation) \<and>
        list_all (preferred p) (filter (corroborated acct att ref) cs)"
  using first_corroborated_spec [OF order_sorted, of cs acct att ref]
  by (auto simp: selectEmployerPayment_def filter_empty_conv list_all_iff split: option.splits)

text \<open>L. A source resolves to an employer only when source, issuer and organization are active and no
  other issuer claims the address.\<close>

lemma resolve_Inr:
  assumes "resolveEmployerSource source conflicting = Inr res"
  shows "\<exists>issuer. es_issuer source = Some issuer \<and> es_status source = RS_ACTIVE \<and> ei_status issuer = RS_ACTIVE \<and>
    ei_organization issuer = Some RS_ACTIVE \<and> (truthy conflicting \<longrightarrow> conflicting = Some (er_issuerId res)) \<and>
    er_issuerId res = ei_id issuer \<and> er_sourceAddress res = es_sourceAddress source"
  using assms by (auto simp: resolveEmployerSource_def split: if_splits option.splits)

end
