(* ===== verification/Encoding.thy ===== *)
theory Encoding
  imports Calendar
begin

text \<open>
  Two encodings of the standard library that stored proofs depend on: \<open>base64url\<close> of \<open>Buffer\<close>
  (the stored threshold of a proof) and the reading of an ISO instant by \<open>new Date\<close> (the stored date
  of a receipt).  A byte is a number below 256.  Of the formats \<open>Date\<close> reads, the one \<open>toISOString\<close>
  writes for the years 0 to 9999 is modelled, which is the only one the code stores.
\<close>

subsection \<open>base64url\<close>

definition B64_ALPHABET :: string where
  "B64_ALPHABET = ''ABCDEFGHIJKLMNOPQRSTUVWXYZabcdefghijklmnopqrstuvwxyz0123456789-_''"

definition b64_char :: "nat \<Rightarrow> char" where
  "b64_char n = B64_ALPHABET ! n"

fun base64url :: "nat list \<Rightarrow> string" where
  "base64url [] = []"
| "base64url [a] = [b64_char (a div 4), b64_char (a mod 4 * 16)]"
| "base64url [a, b] = [b64_char (a div 4), b64_char (a mod 4 * 16 + b div 16), b64_char (b mod 16 * 4)]"
| "base64url (a # b # c # bs) =
     b64_char (a div 4) # b64_char (a mod 4 * 16 + b div 16) # b64_char (b mod 16 * 4 + c div 64) # b64_char (c mod 64) #
     base64url bs"

text \<open>The decoder skips characters outside the alphabet, reads \<open>+\<close> and \<open>/\<close> too, and stops at \<open>=\<close>.\<close>

definition b64_value :: "char \<Rightarrow> nat option" where
  "b64_value c =
     (if c = CHR ''+'' then Some 62 else if c = CHR ''/'' then Some 63
      else if c \<in> set B64_ALPHABET then Some (index_of c B64_ALPHABET) else None)"

fun b64_bytes :: "nat list \<Rightarrow> nat list" where
  "b64_bytes (x # y # z # w # r) = (x * 4 + y div 16) # (y mod 16 * 16 + z div 4) # (z mod 4 * 64 + w) # b64_bytes r"
| "b64_bytes [x, y, z] = [x * 4 + y div 16, y mod 16 * 16 + z div 4]"
| "b64_bytes [x, y] = [x * 4 + y div 16]"
| "b64_bytes _ = []"

definition base64url_decode :: "string \<Rightarrow> nat list" where
  "base64url_decode s = b64_bytes (List.map_filter b64_value (takeWhile (\<lambda>c. c \<noteq> CHR ''='') s))"

text \<open>\<open>Buffer.from(s)\<close> and \<open>toString("utf8")\<close> on text in the ASCII range.\<close>

definition ascii_bytes :: "string \<Rightarrow> nat list" where
  "ascii_bytes s = map of_char s"

definition bytes_text :: "nat list \<Rightarrow> string" where
  "bytes_text bs = map char_of bs"

lemma index_of_nth: "distinct xs \<Longrightarrow> n < length xs \<Longrightarrow> index_of (xs ! n) xs = n"
proof (induction xs arbitrary: n)
  case (Cons x xs)
  then show ?case by (cases n) auto
qed simp

lemma length_alphabet: "length B64_ALPHABET = 64"
  by (simp add: B64_ALPHABET_def)

lemma distinct_alphabet: "distinct B64_ALPHABET"
  by (simp add: B64_ALPHABET_def)

lemma alphabet_plain: "c \<in> set B64_ALPHABET \<Longrightarrow> c \<noteq> CHR ''+'' \<and> c \<noteq> CHR ''/'' \<and> c \<noteq> CHR ''=''"
  unfolding B64_ALPHABET_def by auto

lemma b64_char_in: "n < 64 \<Longrightarrow> b64_char n \<in> set B64_ALPHABET"
  by (simp add: b64_char_def length_alphabet)

lemma b64_char_value: "n < 64 \<Longrightarrow> b64_value (b64_char n) = Some n"
  using alphabet_plain [OF b64_char_in [of n]] b64_char_in [of n]
  by (simp add: b64_value_def b64_char_def index_of_nth distinct_alphabet length_alphabet)

text \<open>The sextets that the encoder writes.\<close>

fun sextets :: "nat list \<Rightarrow> nat list" where
  "sextets [] = []"
| "sextets [a] = [a div 4, a mod 4 * 16]"
| "sextets [a, b] = [a div 4, a mod 4 * 16 + b div 16, b mod 16 * 4]"
| "sextets (a # b # c # bs) =
     a div 4 # (a mod 4 * 16 + b div 16) # (b mod 16 * 4 + c div 64) # c mod 64 # sextets bs"

lemma base64url_sextets: "base64url bs = map b64_char (sextets bs)"
  by (induction bs rule: base64url.induct) auto

lemma sextet_bounds:
  "a < 256 \<Longrightarrow> a div 4 < (64::nat)" "b < 256 \<Longrightarrow> a mod 4 * 16 + b div 16 < (64::nat)"
  "c < 256 \<Longrightarrow> b mod 16 * 4 + c div 64 < (64::nat)" "b mod 16 * 4 < (64::nat)" "a mod 4 * 16 < (64::nat)"
proof -
  have "a mod 4 < 4" "b mod 16 < 16" by simp_all
  moreover have "a < 256 \<Longrightarrow> a div 4 < 64" "b < 256 \<Longrightarrow> b div 16 < 16" "c < 256 \<Longrightarrow> c div 64 < 4"
    by (simp_all add: div_less_iff_less_mult)
  ultimately show "a < 256 \<Longrightarrow> a div 4 < 64" "b < 256 \<Longrightarrow> a mod 4 * 16 + b div 16 < 64"
    "c < 256 \<Longrightarrow> b mod 16 * 4 + c div 64 < 64" "b mod 16 * 4 < 64" "a mod 4 * 16 < 64" by linarith+
qed

lemma sextets_less: "\<forall>b\<in>set bs. b < 256 \<Longrightarrow> \<forall>x\<in>set (sextets bs). x < 64"
  by (induction bs rule: sextets.induct) (auto simp: sextet_bounds)

lemma byte_split:
  "a div 4 * 4 + (a mod 4 * 16) div 16 = (a::nat)"
  "b < 256 \<Longrightarrow> a div 4 * 4 + (a mod 4 * 16 + b div 16) div 16 = (a::nat)"
  "b < 256 \<Longrightarrow> (a mod 4 * 16 + b div 16) mod 16 * 16 + (b mod 16 * 4) div 4 = (b::nat)"
  "b < 256 \<Longrightarrow> c < 256 \<Longrightarrow> (a mod 4 * 16 + b div 16) mod 16 * 16 + (b mod 16 * 4 + c div 64) div 4 = (b::nat)"
  "c < 256 \<Longrightarrow> (b mod 16 * 4 + c div 64) mod 4 * 64 + c mod 64 = (c::nat)"
proof -
  have small: "b < 256 \<Longrightarrow> b div 16 < 16" "c < 256 \<Longrightarrow> c div 64 < 4" by (simp_all add: div_less_iff_less_mult)
  show "a div 4 * 4 + (a mod 4 * 16) div 16 = a" by simp
  show "b < 256 \<Longrightarrow> a div 4 * 4 + (a mod 4 * 16 + b div 16) div 16 = a" using small(1) by simp
  show "b < 256 \<Longrightarrow> (a mod 4 * 16 + b div 16) mod 16 * 16 + (b mod 16 * 4) div 4 = b" using small(1) by simp
  show "b < 256 \<Longrightarrow> c < 256 \<Longrightarrow> (a mod 4 * 16 + b div 16) mod 16 * 16 + (b mod 16 * 4 + c div 64) div 4 = b"
    using small by simp
  show "c < 256 \<Longrightarrow> (b mod 16 * 4 + c div 64) mod 4 * 64 + c mod 64 = c" using small(2) by simp
qed

lemma bytes_sextets: "\<forall>b\<in>set bs. b < 256 \<Longrightarrow> b64_bytes (sextets bs) = bs"
  by (induction bs rule: sextets.induct) (auto simp: byte_split)

lemma map_filter_values: "\<forall>x\<in>set xs. x < 64 \<Longrightarrow> List.map_filter b64_value (map b64_char xs) = xs"
  by (induction xs) (auto simp: List.map_filter_def b64_char_value)

lemma base64url_roundtrip:
  assumes "\<forall>b\<in>set bs. b < 256"
  shows "base64url_decode (base64url bs) = bs"
proof -
  note l = sextets_less [OF assms]
  have "takeWhile (\<lambda>c. c \<noteq> CHR ''='') (map b64_char (sextets bs)) = map b64_char (sextets bs)"
    using l alphabet_plain b64_char_in by (auto simp: takeWhile_eq_all_conv)
  then show ?thesis
    unfolding base64url_decode_def base64url_sextets by (simp only: map_filter_values [OF l] bytes_sextets [OF assms])
qed

lemma text_bytes: "bytes_text (ascii_bytes s) = s"
  by (simp add: bytes_text_def ascii_bytes_def o_def)

lemma ascii_bytes_less: "\<forall>b\<in>set (ascii_bytes s). b < 256"
  by (auto simp: ascii_bytes_def)

lemma base64url_text: "bytes_text (base64url_decode (base64url (ascii_bytes s))) = s"
  by (simp add: base64url_roundtrip [OF ascii_bytes_less] text_bytes)

subsection \<open>ISO instants\<close>

text \<open>A field of digits at a fixed position.\<close>

definition field :: "nat \<Rightarrow> nat \<Rightarrow> string \<Rightarrow> string" where
  "field i n s = take n (drop i s)"

definition number_field :: "nat \<Rightarrow> nat \<Rightarrow> string \<Rightarrow> int" where
  "number_field i n s = int (read_digits (field i n s))"

definition iso_shape :: "string \<Rightarrow> bool" where
  "iso_shape s \<longleftrightarrow>
     length s = 24 \<and> all_digits (field 0 4 s) \<and> s ! 4 = CHR ''-'' \<and> all_digits (field 5 2 s) \<and> s ! 7 = CHR ''-'' \<and>
     all_digits (field 8 2 s) \<and> s ! 10 = CHR ''T'' \<and> all_digits (field 11 2 s) \<and> s ! 13 = CHR '':'' \<and>
     all_digits (field 14 2 s) \<and> s ! 16 = CHR '':'' \<and> all_digits (field 17 2 s) \<and> s ! 19 = CHR ''.'' \<and>
     all_digits (field 20 3 s) \<and> s ! 23 = CHR ''Z''"

definition parse_iso :: "string \<Rightarrow> time_ms option" where
  "parse_iso s =
     (let y = number_field 0 4 s; mo = number_field 5 2 s; d = number_field 8 2 s; h = number_field 11 2 s;
          mi = number_field 14 2 s; sec = number_field 17 2 s; ms = number_field 20 3 s
      in if iso_shape s \<and> 1 \<le> mo \<and> mo \<le> 12 \<and> 1 \<le> d \<and> d \<le> 31 \<and> h \<le> 23 \<and> mi \<le> 59 \<and> sec \<le> 59
         then Some (date_utc y (mo - 1) d + h * 3600000 + mi * 60000 + sec * 1000 + ms) else None)"

lemma length_show_int: "0 \<le> i \<Longrightarrow> i < 10 ^ Suc k \<Longrightarrow> length (show_int i) \<le> Suc k"
proof -
  assume "0 \<le> i" "i < 10 ^ Suc k"
  then have "nat i < 10 ^ Suc k" by (simp add: nat_less_iff)
  then show ?thesis using length_show_nat_le [of "nat i" k] \<open>0 \<le> i\<close> by (simp add: show_int_def)
qed

lemma padded_number:
  assumes "0 \<le> i" "i < 10 ^ n" "0 < n"
  shows "length (pad_start n CHR ''0'' (show_int i)) = n" "all_digits (pad_start n CHR ''0'' (show_int i))"
    "int (read_digits (pad_start n CHR ''0'' (show_int i))) = i"
proof -
  obtain k where n: "n = Suc k" using assms(3) by (cases n) auto
  show "length (pad_start n CHR ''0'' (show_int i)) = n" using length_show_int [of i k] assms n by simp
  show "all_digits (pad_start n CHR ''0'' (show_int i))" "int (read_digits (pad_start n CHR ''0'' (show_int i))) = i"
    using assms(1) by (simp_all add: show_int_def)
qed

lemma month_offset_length: "0 \<le> m \<Longrightarrow> m \<le> 11 \<Longrightarrow> month_offset l (m + 1) - month_offset l m \<le> 31"
  using month_cases [of m] by (cases l) (auto simp: month_offset_def)

lemma utc_date_bounds: "1 \<le> utc_date t" "utc_date t \<le> 31"
  using utc_month_bounds [of t] month_offset_length [of "utc_month t" "is_leap (utc_year t)"]
  by (simp_all add: utc_date_def)

lemma date_of_fields: "date_utc (utc_year t) (utc_month t) (utc_date t) = day_of t * ms_per_day"
  using utc_month_bounds(1,2) [of t]
  by (simp add: date_utc_def Let_def utc_date_def day_in_year_def div_pos_pos_trivial mod_pos_pos_trivial)

lemma time_fields:
  "s div 3600000 * 3600000 + s div 60000 mod 60 * 60000 + s div 1000 mod 60 * 1000 + s mod 1000 = (s::int)"
proof -
  have "s div 60000 = s div 1000 div 60" "s div 3600000 = s div 60000 div 60"
    using zdiv_zmult2_eq [of 60 s 1000] zdiv_zmult2_eq [of 60 s 60000] by simp_all
  then show ?thesis
    using div_mult_mod_eq [of s 1000] div_mult_mod_eq [of "s div 1000" 60] div_mult_mod_eq [of "s div 60000" 60]
    by linarith
qed

lemma time_in_day_bounds: "0 \<le> time_in_day t" "time_in_day t < 86400000"
  by (simp_all add: time_in_day_def ms_per_day_def)

text \<open>The seven fields of a rendered instant, each at its place.\<close>

lemma iso_fields:
  assumes l: "length a = 4" "length b = 2" "length c = 2" "length d = 2" "length e = 2" "length f = 2" "length g = 3"
  defines "s \<equiv> a @ ''-'' @ b @ ''-'' @ c @ ''T'' @ d @ '':'' @ e @ '':'' @ f @ ''.'' @ g @ ''Z''"
  shows "field 0 4 s = a" "field 5 2 s = b" "field 8 2 s = c" "field 11 2 s = d" "field 14 2 s = e" "field 17 2 s = f"
    "field 20 3 s = g" "length s = 24" "s ! 4 = CHR ''-''" "s ! 7 = CHR ''-''" "s ! 10 = CHR ''T''" "s ! 13 = CHR '':''"
    "s ! 16 = CHR '':''" "s ! 19 = CHR ''.''" "s ! 23 = CHR ''Z''"
  using l by (simp_all add: s_def field_def nth_append)

lemma parse_toISOString:
  assumes "0 \<le> utc_year t" "utc_year t \<le> 9999"
  shows "parse_iso (toISOString t) = Some t"
proof -
  let ?s = "time_in_day t"
  note m = utc_month_bounds(1,2) [of t] and d = utc_date_bounds [of t] and s = time_in_day_bounds [of t]
  have "24 * 3600000 = (86400000::int)" by simp
  then have h: "0 \<le> ?s div 3600000" "?s div 3600000 < 24"
    using s div_bounds [of 3600000 ?s] by (simp_all add: pos_imp_zdiv_nonneg_iff)
  have y: "utc_year t < 10 ^ 4" and m': "0 \<le> utc_month t + 1" "utc_month t + 1 < 10 ^ 2" and d': "0 \<le> utc_date t" "utc_date t < 10 ^ 2"
    and h': "?s div 3600000 < 10 ^ 2" and i: "0 \<le> ?s div 60000 mod 60" "?s div 60000 mod 60 < 60" "?s div 60000 mod 60 < 10 ^ 2"
    and c: "0 \<le> ?s div 1000 mod 60" "?s div 1000 mod 60 < 60" "?s div 1000 mod 60 < 10 ^ 2"
    and z: "0 \<le> ?s mod 1000" "?s mod 1000 < 10 ^ 3"
    using assms m d h pos_mod_bound [of 60 "?s div 60000"] pos_mod_bound [of 60 "?s div 1000"] by simp_all
  define A B C D E F G where parts: "A = pad_start 4 CHR ''0'' (show_int (utc_year t))" "B = pad2 (utc_month t + 1)" "C = pad2 (utc_date t)"
    "D = pad2 (?s div 3600000)" "E = pad2 (?s div 60000 mod 60)" "F = pad2 (?s div 1000 mod 60)"
    "G = pad_start 3 CHR ''0'' (show_int (?s mod 1000))"
  have len: "length A = 4" "length B = 2" "length C = 2" "length D = 2" "length E = 2" "length F = 2" "length G = 3"
    and dig: "all_digits A" "all_digits B" "all_digits C" "all_digits D" "all_digits E" "all_digits F" "all_digits G"
    and val: "int (read_digits A) = utc_year t" "int (read_digits B) = utc_month t + 1" "int (read_digits C) = utc_date t"
      "int (read_digits D) = ?s div 3600000" "int (read_digits E) = ?s div 60000 mod 60"
      "int (read_digits F) = ?s div 1000 mod 60" "int (read_digits G) = ?s mod 1000"
    unfolding parts pad2_def
    by (rule padded_number assms(1) y m' d' h(1) h' i(1,3) c(1,3) z zero_less_numeral)+
  have shape: "toISOString t = A @ ''-'' @ B @ ''-'' @ C @ ''T'' @ D @ '':'' @ E @ '':'' @ F @ ''.'' @ G @ ''Z''"
    using assms by (simp add: toISOString_def show_year_def Let_def parts)
  note f = iso_fields [OF len, folded shape]
  have sh: "iso_shape (toISOString t)" unfolding iso_shape_def f by (simp add: dig)
  have "day_of t * ms_per_day + ?s = t" by (simp add: day_of_def time_in_day_def)
  then have t: "day_of t * ms_per_day + ?s div 3600000 * 3600000 + ?s div 60000 mod 60 * 60000 +
      ?s div 1000 mod 60 * 1000 + ?s mod 1000 = t"
    using arg_cong [OF time_fields [of ?s], of "\<lambda>x. day_of t * ms_per_day + x"] by (simp only: add.assoc [symmetric])
  have "x < 24 \<Longrightarrow> x \<le> 23" "x < 60 \<Longrightarrow> x \<le> 59" "0 \<le> x \<Longrightarrow> 1 \<le> x + 1" "x \<le> 11 \<Longrightarrow> x + 1 \<le> 12" for x :: int by simp_all
  note ok = sh d this(1) [OF h(2)] this(2) [OF i(2)] this(2) [OF c(2)] this(3) [OF m(1)] this(4) [OF m(2)]
  show ?thesis
    unfolding parse_iso_def Let_def number_field_def f val
    by (simp only: ok simp_thms if_True add_diff_cancel_right' date_of_fields t)
qed

end
