(* ===== verification/Quotas.thy ===== *)
theory Quotas
  imports Store Calendar
begin

text \<open>
  Per-organization quotas, \<open>quotas/organization-quota.service.ts\<close> and \<open>quotas/quota.types.ts\<close>.
  The windowed quotas are one upsert on \<open>OrganizationQuotaUsage\<close>, a single atomic step; the concurrent
  ones count live rows under the organization's row lock.  The limits are configuration.
\<close>

datatype concurrent_quota = Q_api_keys | Q_webhooks

datatype windowed_quota = Q_proof_requests | Q_sync_frequency

datatype quota_kind = Concurrent concurrent_quota | Windowed windowed_quota

fun quota_name :: "quota_kind \<Rightarrow> string" where
  "quota_name (Concurrent Q_api_keys) = ''api_keys''"
| "quota_name (Concurrent Q_webhooks) = ''webhooks''"
| "quota_name (Windowed Q_proof_requests) = ''proof_requests''"
| "quota_name (Windowed Q_sync_frequency) = ''sync_frequency''"

fun human_name :: "quota_kind \<Rightarrow> string" where
  "human_name (Concurrent Q_api_keys) = ''active API key''"
| "human_name (Concurrent Q_webhooks) = ''webhook''"
| "human_name (Windowed Q_proof_requests) = ''proof request''"
| "human_name (Windowed Q_sync_frequency) = ''payment sync''"

fun QUOTA_WINDOW_MS :: "windowed_quota \<Rightarrow> int" where
  "QUOTA_WINDOW_MS Q_proof_requests = 24 * 60 * 60 * 1000"
| "QUOTA_WINDOW_MS Q_sync_frequency = 60 * 60 * 1000"

fun QUOTA_WINDOW_ISO :: "windowed_quota \<Rightarrow> string" where
  "QUOTA_WINDOW_ISO Q_proof_requests = ''P1D''"
| "QUOTA_WINDOW_ISO Q_sync_frequency = ''PT1H''"

type_synonym quota_limits = "quota_kind \<Rightarrow> int"

fun DEFAULT_QUOTA_LIMITS :: quota_limits where
  "DEFAULT_QUOTA_LIMITS (Concurrent Q_api_keys) = 25"
| "DEFAULT_QUOTA_LIMITS (Concurrent Q_webhooks) = 10"
| "DEFAULT_QUOTA_LIMITS (Windowed Q_proof_requests) = 1000"
| "DEFAULT_QUOTA_LIMITS (Windowed Q_sync_frequency) = 12"

text \<open>The constructor: what the configuration sets, and the documented default where it sets nothing.\<close>

definition quota_limits_of :: "(quota_kind \<Rightarrow> int option) \<Rightarrow> quota_limits" where
  "quota_limits_of config q = (case config q of Some n \<Rightarrow> n | None \<Rightarrow> DEFAULT_QUOTA_LIMITS q)"

definition windowStart :: "windowed_quota \<Rightarrow> time_ms \<Rightarrow> time_ms" where
  "windowStart q now = now div QUOTA_WINDOW_MS q * QUOTA_WINDOW_MS q"

record usage_row =
  qu_organizationId :: ident
  qu_quota :: string
  qu_windowStart :: time_ms
  qu_count :: int

record organization_row =
  og_id :: ident
  og_createdById :: ident
  og_status :: resource_status
  og_createdAt :: time_ms

record api_key_usage =
  ak_organizationId :: ident
  ak_status :: resource_status
  ak_expiresAt :: "time_ms option"

record webhook_usage =
  wb_organizationId :: ident
  wb_status :: resource_status

definition quota_message :: "quota_kind \<Rightarrow> int \<Rightarrow> time_ms option \<Rightarrow> string" where
  "quota_message q limit resetsAt =
     ''Organization '' @ human_name q @ '' quota of '' @ show_int limit @ '' reached; '' @
     (case resetsAt of Some t \<Rightarrow> ''resets at '' @ toISOString t @ ''.'' | None \<Rightarrow> ''remove unused resources to free capacity.'')"

definition quota_reject :: "quota_kind \<Rightarrow> int \<Rightarrow> time_ms option \<Rightarrow> http_error" where
  "quota_reject q limit resetsAt = QuotaExceeded (quota_message q limit resetsAt)"

definition usage_key :: "usage_row \<Rightarrow> ident \<times> string \<times> time_ms" where
  "usage_key r = (qu_organizationId r, qu_quota r, qu_windowStart r)"

definition consume ::
  "quota_limits \<Rightarrow> ident \<Rightarrow> windowed_quota \<Rightarrow> time_ms \<Rightarrow> usage_row table \<Rightarrow> (http_error, unit) result \<times> usage_row table" where
  "consume limits org q now t =
     (let limit = limits (Windowed q); start = windowStart q now; k = (org, quota_name (Windowed q), start)
      in case find_row (\<lambda>r. usage_key r = k) t of
           None \<Rightarrow> (Inr (), insert_row \<lparr>qu_organizationId = org, qu_quota = quota_name (Windowed q), qu_windowStart = start, qu_count = 1\<rparr> t)
         | Some r \<Rightarrow>
             if qu_count r < limit
             then (Inr (), upd_rows (\<lambda>r. usage_key r = k) (\<lambda>r. r\<lparr>qu_count := qu_count r + 1\<rparr>) t)
             else (Inl (quota_reject (Windowed q) limit (Some (start + QUOTA_WINDOW_MS q))), t))"

definition resolveOrganizationForUser :: "ident \<Rightarrow> organization_row table \<Rightarrow> ident option" where
  "resolveOrganizationForUser userId t =
     (case sort_key og_createdAt (sort_key og_id (find_many (\<lambda>r. og_createdById r = userId \<and> og_status r = RS_ACTIVE) t)) of
        [] \<Rightarrow> None | r # _ \<Rightarrow> Some (og_id r))"

definition consumeForUser ::
  "quota_limits \<Rightarrow> ident \<Rightarrow> windowed_quota \<Rightarrow> time_ms \<Rightarrow> organization_row table \<Rightarrow> usage_row table
   \<Rightarrow> (http_error, ident option) result \<times> usage_row table" where
  "consumeForUser limits userId q now orgs t =
     (case resolveOrganizationForUser userId orgs of
        None \<Rightarrow> (Inr None, t)
      | Some org \<Rightarrow> (case consume limits org q now t of (Inl e, t') \<Rightarrow> (Inl e, t') | (Inr _, t') \<Rightarrow> (Inr (Some org), t')))"

definition countConcurrent ::
  "ident \<Rightarrow> concurrent_quota \<Rightarrow> time_ms \<Rightarrow> api_key_usage table \<Rightarrow> webhook_usage table \<Rightarrow> nat" where
  "countConcurrent org q now keys hooks =
     (if q = Q_api_keys
      then count_rows (\<lambda>r. ak_organizationId r = org \<and> ak_status r = RS_ACTIVE \<and>
             (case ak_expiresAt r of None \<Rightarrow> True | Some e \<Rightarrow> e > now)) keys
      else count_rows (\<lambda>r. wb_organizationId r = org \<and> wb_status r \<noteq> RS_DELETED) hooks)"

definition assertCapacity ::
  "quota_limits \<Rightarrow> ident \<Rightarrow> concurrent_quota \<Rightarrow> time_ms \<Rightarrow> api_key_usage table \<Rightarrow> webhook_usage table \<Rightarrow> (http_error, unit) result" where
  "assertCapacity limits org q now keys hooks =
     (if int (countConcurrent org q now keys hooks) \<ge> limits (Concurrent q) then Inl (quota_reject (Concurrent q) (limits (Concurrent q)) None) else Inr ())"

record quota_report =
  qr_quota :: quota_kind
  qr_limit :: int
  qr_used :: int
  qr_remaining :: int
  qr_window :: "string option"
  qr_windowStart :: "string option"
  qr_resetsAt :: "string option"

definition getUsage ::
  "quota_limits \<Rightarrow> ident \<Rightarrow> time_ms \<Rightarrow> api_key_usage table \<Rightarrow> webhook_usage table \<Rightarrow> usage_row table
   \<Rightarrow> ident \<times> string \<times> quota_report list" where
  "getUsage limits org now keys hooks t =
     (let windowed = find_many (\<lambda>r. qu_organizationId r = org \<and>
            (\<exists>q\<in>{Q_proof_requests, Q_sync_frequency}. qu_quota r = quota_name (Windowed q) \<and> qu_windowStart r = windowStart q now)) t;
          concurrent = (\<lambda>q used. \<lparr>qr_quota = Concurrent q, qr_limit = limits (Concurrent q), qr_used = used,
            qr_remaining = max 0 (limits (Concurrent q) - used), qr_window = None, qr_windowStart = None, qr_resetsAt = None\<rparr>);
          rate = (\<lambda>q. let used = (case find_row (\<lambda>r. qu_quota r = quota_name (Windowed q)) windowed of None \<Rightarrow> 0 | Some r \<Rightarrow> qu_count r);
                          start = windowStart q now
                      in \<lparr>qr_quota = Windowed q, qr_limit = limits (Windowed q), qr_used = used,
                          qr_remaining = max 0 (limits (Windowed q) - used),
                          qr_window = Some (QUOTA_WINDOW_ISO q), qr_windowStart = Some (toISOString start),
                          qr_resetsAt = Some (toISOString (start + QUOTA_WINDOW_MS q))\<rparr>)
      in (org, toISOString now,
         [concurrent Q_api_keys (int (countConcurrent org Q_api_keys now keys hooks)),
          concurrent Q_webhooks (int (countConcurrent org Q_webhooks now keys hooks)),
          rate Q_proof_requests, rate Q_sync_frequency]))"

subsection \<open>Facts\<close>

text \<open>The count stored for a key, 0 when there is no row.\<close>

definition used :: "ident \<times> string \<times> time_ms \<Rightarrow> usage_row table \<Rightarrow> int" where
  "used k t = (case find_row (\<lambda>r. usage_key r = k) t of None \<Rightarrow> 0 | Some r \<Rightarrow> qu_count r)"

definition usage_ok :: "usage_row table \<Rightarrow> bool" where
  "usage_ok t \<longleftrightarrow> (\<forall>r\<in>set t. 1 \<le> qu_count r)"

lemma quota_name_inj [simp]: "quota_name a = quota_name b \<longleftrightarrow> a = b"
  by (cases a rule: quota_name.cases; cases b rule: quota_name.cases) simp_all

lemma find_upd_count:
  "find_row (\<lambda>r. usage_key r = k') (upd_rows (\<lambda>r. usage_key r = k) (\<lambda>r. r\<lparr>qu_count := qu_count r + 1\<rparr>) t) =
   map_option (\<lambda>r. if usage_key r = k then r\<lparr>qu_count := qu_count r + 1\<rparr> else r) (find_row (\<lambda>r. usage_key r = k') t)"
  by (rule find_row_upd_rows_keyed) (simp add: usage_key_def)

lemma consume_step:
  fixes org :: ident and now :: time_ms
  assumes "usage_ok t" "1 \<le> limits (Windowed q)"
  defines "k \<equiv> (org, quota_name (Windowed q), windowStart q now)"
  shows "usage_ok (snd (consume limits org q now t))"
    "(\<exists>u. fst (consume limits org q now t) = Inr u) \<longleftrightarrow> used k t < limits (Windowed q)"
    "used k' (snd (consume limits org q now t)) = used k' t + (if k' = k \<and> used k t < limits (Windowed q) then 1 else 0)"
proof -
  have up: "usage_ok (upd_rows p (\<lambda>r. r\<lparr>qu_count := qu_count r + 1\<rparr>) t)" for p
    using assms(1) by (auto simp: usage_ok_def elim!: upd_rowsE)
  show "usage_ok (snd (consume limits org q now t))"
    using assms(1) up by (auto simp: consume_def Let_def usage_ok_def split: option.splits)
  show "(\<exists>u. fst (consume limits org q now t) = Inr u) \<longleftrightarrow> used k t < limits (Windowed q)"
    using assms(2) by (auto simp: consume_def Let_def used_def k_def split: option.splits)
  have new: "usage_key \<lparr>qu_organizationId = org, qu_quota = quota_name (Windowed q), qu_windowStart = windowStart q now, qu_count = 1\<rparr> = k"
    by (simp add: usage_key_def k_def)
  show "used k' (snd (consume limits org q now t)) = used k' t + (if k' = k \<and> used k t < limits (Windowed q) then 1 else 0)"
  proof (cases "find_row (\<lambda>r. usage_key r = k) t")
    case None
    with assms(2) show ?thesis
      by (cases "find_row (\<lambda>r. usage_key r = k') t")
        (auto simp: consume_def Let_def used_def k_def [symmetric] find_row_insert_row new)
  next
    case (Some r)
    then have "usage_key r = k" by (auto dest: find_row_Some)
    moreover have "usage_key r' = k'" if "find_row (\<lambda>r. usage_key r = k') t = Some r'" for r'
      using that by (auto dest: find_row_Some)
    ultimately show ?thesis
      using Some by (cases "k' = k"; cases "find_row (\<lambda>r. usage_key r = k') t")
        (simp_all add: consume_def Let_def used_def k_def [symmetric] find_upd_count)
  qed
qed

text \<open>A sequence of requests, in the order the database serialises them, and which of them pass.\<close>

fun run_consume :: "quota_limits \<Rightarrow> (ident \<times> windowed_quota \<times> time_ms) list \<Rightarrow> usage_row table \<Rightarrow> bool list" where
  "run_consume limits [] t = []"
| "run_consume limits ((org, q, now) # rs) t =
     (case consume limits org q now t of (res, t') \<Rightarrow> (\<not> isl res) # run_consume limits rs t')"

definition same_window :: "ident \<Rightarrow> windowed_quota \<Rightarrow> time_ms \<Rightarrow> ident \<times> windowed_quota \<times> time_ms \<Rightarrow> bool" where
  "same_window org q start r \<longleftrightarrow> (case r of (o', q', now) \<Rightarrow> o' = org \<and> q' = q \<and> windowStart q' now = start)"

definition granted :: "ident \<Rightarrow> windowed_quota \<Rightarrow> time_ms \<Rightarrow> (ident \<times> windowed_quota \<times> time_ms) list \<Rightarrow> bool list \<Rightarrow> nat" where
  "granted org q start rs oks = length (filter (\<lambda>(r, ok). same_window org q start r \<and> ok) (zip rs oks))"

lemma granted_used:
  assumes "usage_ok t" "\<And>k. 1 \<le> limits k" "0 \<le> used (org, quota_name (Windowed q), start) t"
    "used (org, quota_name (Windowed q), start) t \<le> limits (Windowed q)"
  shows "int (granted org q start rs (run_consume limits rs t)) =
    min (int (length (filter (same_window org q start) rs))) (limits (Windowed q) - used (org, quota_name (Windowed q), start) t)"
  using assms
proof (induction rs arbitrary: t)
  case Nil
  then show ?case by (simp add: granted_def)
next
  case (Cons r rs)
  obtain o' q' now where r: "r = (o', q', now)" by (cases r)
  obtain res t' where c: "consume limits o' q' now t = (res, t')" by force
  note s = consume_step [where t = t and limits = limits and q = q' and org = o' and now = now, OF Cons.prems(1) Cons.prems(2), unfolded c fst_conv snd_conv]
  let ?k = "(org, quota_name (Windowed q), start)"
  have "?k = (o', quota_name (Windowed q'), windowStart q' now) \<longleftrightarrow> same_window org q start r" by (auto simp: r same_window_def)
  note u = s(3) [of ?k, unfolded this]
  have IH: "int (granted org q start rs (run_consume limits rs t')) =
      min (int (length (filter (same_window org q start) rs))) (limits (Windowed q) - used ?k t')"
  proof (rule Cons.IH)
    show "usage_ok t'" by (rule s(1))
    show "1 \<le> limits k" for k by (rule Cons.prems(2))
    show "0 \<le> used ?k t'" using u Cons.prems(3) by simp
    show "used ?k t' \<le> limits (Windowed q)" using u Cons.prems(4) by (auto simp: r same_window_def)
  qed
  have ok: "(\<not> isl res) \<longleftrightarrow> used (o', quota_name (Windowed q'), windowStart q' now) t < limits (Windowed q')"
    using s(2) by (cases res) auto
  have run: "run_consume limits (r # rs) t = (used (o', quota_name (Windowed q'), windowStart q' now) t < limits (Windowed q')) # run_consume limits rs t'"
    by (simp only: r run_consume.simps c prod.case ok)
  show ?case
  proof (cases "same_window org q start r")
    case True
    then have "o' = org" "q' = q" "windowStart q' now = start" by (auto simp: r same_window_def)
    with True u IH Cons.prems(3,4) show ?thesis
      unfolding run granted_def by (cases "used ?k t < limits (Windowed q)") simp_all
  next
    case False
    with u IH show ?thesis unfolding run granted_def by simp
  qed
qed

text \<open>C18. However requests from all organizations interleave, an organization gets exactly the first
  \<open>limit\<close> units of a window and no more: the number granted is the smaller of the number requested
  and the limit.\<close>

theorem quota_exact:
  assumes "\<And>k. 1 \<le> limits k"
  shows "int (granted org q start rs (run_consume limits rs [])) =
    min (int (length (filter (same_window org q start) rs))) (limits (Windowed q))"
  using granted_used [of "[]" limits org q start rs] assms order_trans [OF zero_le_one assms]
  by (simp add: usage_ok_def used_def find_row_def)

theorem quota_exact_witness:
  "int (granted ''o1'' Q_sync_frequency 0
     [(''o1'', Q_sync_frequency, 1), (''o2'', Q_sync_frequency, 2), (''o1'', Q_sync_frequency, 3)]
     (run_consume (\<lambda>_. 1) [(''o1'', Q_sync_frequency, 1), (''o2'', Q_sync_frequency, 2), (''o1'', Q_sync_frequency, 3)] [])) = 1"
  using quota_exact [of "\<lambda>_. 1" "''o1''" Q_sync_frequency 0
      "[(''o1'', Q_sync_frequency, 1), (''o2'', Q_sync_frequency, 2), (''o1'', Q_sync_frequency, 3)]"]
  by (simp add: same_window_def windowStart_def)

end
