(* ===== verification/Credentials.thy ===== *)
theory Credentials
  imports Earnings Continuity EmployerPayment Encoding Accounts Quotas
begin

text \<open>
  The credentials of \<open>proofs/proofs.service.ts\<close>: the stored proof and its claim, the credential each
  proof type issues (\<open>build...\<close>), the credential rebuilt from the stored row at verification
  (\<open>rebuild...\<close>), the signature, and the amount helpers.

  A credential is a JSON value.  A property whose value is \<open>undefined\<close> is absent from it, as
  \<open>JSON.stringify\<close> drops it.  SHA-256, the keyed MAC, decryption and the parsing of a date string are
  parameters collected in \<open>proof_env\<close>, with the configuration of the service.
\<close>

subsection \<open>Stored proofs\<close>

datatype proof_status = PS_ACTIVE | PS_EXPIRED | PS_REVOKED | PS_INVALID

datatype proof_type =
    PT_MINIMUM_INCOME | PT_RECURRING_INCOME | PT_PAYMENT_RECEIPT | PT_INCOME_RANGE
  | PT_EMPLOYER_PAYMENT | PT_EMPLOYMENT_CONTINUITY | PT_INVOICE_SETTLEMENT | PT_AGGREGATE_EARNINGS

datatype revocation_actor = RA_OWNER | RA_ADMIN

datatype revocation_reason_code =
    RR_OWNER_REQUESTED | RR_DATA_CORRECTION | RR_FRAUD_SUSPECTED | RR_COMPLIANCE_HOLD | RR_DUPLICATE_PROOF | RR_OTHER

record proof_claim =
  cl_operator :: string
  cl_thresholdEncrypted :: "string option"
  cl_frequency :: "string option"
  cl_result :: bool
  cl_disclosurePolicy :: json

record proof_row =
  pf_id :: ident
  pf_userId :: ident
  pf_proofType :: proof_type
  pf_schemaVersion :: string
  pf_status :: proof_status
  pf_network :: string
  pf_assetCode :: string
  pf_assetIssuer :: "string option"
  pf_assetPolicyId :: "ident option"
  pf_assetPolicySnapshot :: "json option"
  pf_periodStart :: "time_ms option"
  pf_periodEnd :: "time_ms option"
  pf_expiresAt :: time_ms
  pf_createdAt :: time_ms
  pf_credentialHash :: string
  pf_commitment :: "string option"
  pf_contractTransactionHash :: "string option"
  pf_revokedAt :: "time_ms option"
  pf_revokedByType :: "revocation_actor option"
  pf_revokedById :: "ident option"
  pf_revocationReasonCode :: "revocation_reason_code option"
  pf_revocationReasonPrivate :: "string option"
  pf_revocationEvidenceHash :: "string option"
  pf_supersedesId :: "ident option"
  pf_supersededAt :: "time_ms option"
  pf_renewalRequestHash :: "string option"
  pf_claim :: "proof_claim option"

text \<open>The service's configuration and the primitives it calls.\<close>

record proof_env =
  pe_sha256 :: "string \<Rightarrow> string"
  pe_hmac :: "string \<Rightarrow> string"
  pe_activeKeyId :: string
  pe_keySign :: "(json \<Rightarrow> json) option"
  pe_decrypt :: "string \<Rightarrow> string option"
  pe_decryptAddress :: "string \<Rightarrow> string option"
  pe_parseDate :: "string \<Rightarrow> time_ms option"
  pe_network :: string
  pe_anchoringEnabled :: bool
  pe_anchoringRequired :: bool
  pe_limits :: quota_limits

definition SCHEMA_VERSION :: string where "SCHEMA_VERSION = ''earnproof.minimum-income.v1''"
definition PAYMENT_RECEIPT_SCHEMA_VERSION :: string where "PAYMENT_RECEIPT_SCHEMA_VERSION = ''earnproof.payment-receipt.v1''"
definition RECURRING_INCOME_SCHEMA_VERSION :: string where "RECURRING_INCOME_SCHEMA_VERSION = ''earnproof.recurring-income.v1''"
definition INVOICE_SETTLEMENT_SCHEMA_VERSION :: string where "INVOICE_SETTLEMENT_SCHEMA_VERSION = ''earnproof.invoice-settlement.v1''"
definition INCOME_RANGE_SCHEMA_VERSION :: string where "INCOME_RANGE_SCHEMA_VERSION = ''earnproof.income-range.v1''"
definition AGGREGATE_EARNINGS_SCHEMA_VERSION :: string where "AGGREGATE_EARNINGS_SCHEMA_VERSION = ''earnproof.aggregate-earnings.v1''"
definition EMPLOYER_PAYMENT_SCHEMA_VERSION :: string where "EMPLOYER_PAYMENT_SCHEMA_VERSION = ''earnproof.employer-payment.v1''"
definition EMPLOYMENT_CONTINUITY_SCHEMA_VERSION :: string where "EMPLOYMENT_CONTINUITY_SCHEMA_VERSION = ''earnproof.employment-continuity.v1''"

definition DEFAULT_EXPIRY_DAYS :: int where "DEFAULT_EXPIRY_DAYS = 30"

definition expiry_of :: "time_ms \<Rightarrow> int option \<Rightarrow> time_ms" where
  "expiry_of now expiresInDays = now + nullish expiresInDays DEFAULT_EXPIRY_DAYS * 24 * 60 * 60 * 1000"

subsection \<open>Amounts\<close>

text \<open>\<open>BigInt\<close> of a string: surrounding space is ignored, the empty string is 0, a sign is allowed on
  a decimal, and \<open>0x\<close>, \<open>0o\<close>, \<open>0b\<close> introduce other bases; anything else throws.\<close>

definition base_digit :: "nat \<Rightarrow> char \<Rightarrow> nat option" where
  "base_digit b c =
     (let i = index_of (lower_char c) ''0123456789abcdef'' in if i < b \<and> i < 16 then Some i else None)"

fun read_base :: "nat \<Rightarrow> nat \<Rightarrow> string \<Rightarrow> nat option" where
  "read_base b n [] = Some n"
| "read_base b n (c # cs) = (case base_digit b c of None \<Rightarrow> None | Some d \<Rightarrow> read_base b (n * b + d) cs)"

definition read_nat_base :: "nat \<Rightarrow> string \<Rightarrow> nat option" where
  "read_nat_base b s = (if s = [] then None else read_base b 0 s)"

definition js_BigInt :: "string \<Rightarrow> int option" where
  "js_BigInt s =
     (let t = trim s; p = toLowerCase (take 2 t) in
      if t = [] then Some 0
      else if p = ''0x'' then map_option int (read_nat_base 16 (drop 2 t))
      else if p = ''0o'' then map_option int (read_nat_base 8 (drop 2 t))
      else if p = ''0b'' then map_option int (read_nat_base 2 (drop 2 t))
      else if hd t = CHR ''-'' then map_option (\<lambda>n. - int n) (read_nat_base 10 (tl t))
      else if hd t = CHR ''+'' then map_option int (read_nat_base 10 (tl t))
      else map_option int (read_nat_base 10 t))"

definition parseAmount :: "string \<Rightarrow> int option" where
  "parseAmount amount =
     (let parts = split_on CHR ''.'' amount;
          whole = hd parts;
          decimal = (case tl parts of [] \<Rightarrow> [] | d # _ \<Rightarrow> d)
      in case (js_BigInt whole, js_BigInt (pad_end 7 CHR ''0'' decimal)) of
           (Some w, Some d) \<Rightarrow> Some (w * 10000000 + d)
         | _ \<Rightarrow> None)"

definition protectAmount :: "string \<Rightarrow> string" where
  "protectAmount amount = ''redacted:'' @ base64url (ascii_bytes amount)"

definition revealThreshold :: "string option \<Rightarrow> string" where
  "revealThreshold thresholdEncrypted =
     (case thresholdEncrypted of
        Some s \<Rightarrow> if starts_with s ''redacted:'' then bytes_text (base64url_decode (drop 9 s)) else ''0''
      | None \<Rightarrow> ''0'')"

definition tryRevealProtectedAmount :: "proof_env \<Rightarrow> string option \<Rightarrow> int option" where
  "tryRevealProtectedAmount env enc =
     (if \<not> truthy enc then None
      else case pe_decrypt env (the enc) of None \<Rightarrow> None | Some s \<Rightarrow> parseAmount s)"

definition revealProtectedAmount :: "proof_env \<Rightarrow> string option \<Rightarrow> (http_error, int) result" where
  "revealProtectedAmount env enc =
     (case tryRevealProtectedAmount env enc of
        None \<Rightarrow> Inl (BadRequest ''Selected payment amount is unavailable'')
      | Some n \<Rightarrow> Inr n)"

definition revealPaymentAmount :: "proof_env \<Rightarrow> string option \<Rightarrow> (http_error, string) result" where
  "revealPaymentAmount env enc =
     (case (if truthy enc then pe_decrypt env (the enc) else None) of
        None \<Rightarrow> Inl (Unprocessable ''Payment amount is unavailable for disclosure'')
      | Some s \<Rightarrow> Inr s)"

text \<open>The address cipher: ciphertext first, then the legacy plaintext column.\<close>

definition reveal_address :: "proof_env \<Rightarrow> string option \<Rightarrow> string option \<Rightarrow> string option" where
  "reveal_address env encrypted plaintext =
     (if truthy encrypted then pe_decryptAddress env (the encrypted)
      else if truthy plaintext then plaintext else None)"

definition revealPaymentSender :: "proof_env \<Rightarrow> payment_row \<Rightarrow> (http_error, string) result" where
  "revealPaymentSender env p =
     (case reveal_address env (y_sourceAddressEncrypted p) (y_sourceAddress p) of
        None \<Rightarrow> Inl (Unprocessable ''Payment sender is unavailable for disclosure'')
      | Some s \<Rightarrow> Inr s)"

definition revealPaymentAmountForVerification :: "proof_env \<Rightarrow> string option \<Rightarrow> string" where
  "revealPaymentAmountForVerification env enc =
     (if truthy enc then nullish (pe_decrypt env (the enc)) [] else [])"

subsection \<open>Building\<close>

text \<open>What every credential carries.\<close>

record credential_head =
  ch_id :: ident
  ch_walletHash :: string
  ch_assetCode :: string
  ch_assetIssuer :: "string option"
  ch_issuedAt :: time_ms
  ch_expiresAt :: time_ms

definition opt_entry :: "string \<Rightarrow> json option \<Rightarrow> (string \<times> json) list" where
  "opt_entry k v = (case v of None \<Rightarrow> [] | Some j \<Rightarrow> [(k, j)])"

definition credential_body :: "credential_head \<Rightarrow> string \<Rightarrow> string \<Rightarrow> (string \<times> json) list \<Rightarrow> (string \<times> json) list \<Rightarrow> json" where
  "credential_body h typ schema claim privacy =
     JObj [(''id'', JStr (ch_id h)), (''type'', JStr typ), (''schemaVersion'', JStr schema),
           (''issuer'', JStr ''earnproof-backend''), (''subject'', JObj [(''walletHash'', JStr (ch_walletHash h))]),
           (''claim'', JObj claim), (''privacy'', JObj privacy),
           (''issuedAt'', JStr (toISOString (ch_issuedAt h))), (''expiresAt'', JStr (toISOString (ch_expiresAt h)))]"

definition asset_entries :: "credential_head \<Rightarrow> (string \<times> json) list" where
  "asset_entries h = [(''assetCode'', JStr (ch_assetCode h)), (''assetIssuer'', json_opt (ch_assetIssuer h))]"

definition period_entries :: "time_ms \<Rightarrow> time_ms \<Rightarrow> (string \<times> json) list" where
  "period_entries s e = [(''periodStart'', JStr (toISOString s)), (''periodEnd'', JStr (toISOString e))]"

abbreviation hidden :: "string \<Rightarrow> string \<times> json" where
  "hidden k \<equiv> (k, JBool True)"

definition buildCredential :: "credential_head \<Rightarrow> string \<Rightarrow> time_ms \<Rightarrow> time_ms \<Rightarrow> int \<Rightarrow> json" where
  "buildCredential h thresholdAmount s e n =
     credential_body h ''EarnProofMinimumIncomeCredential'' SCHEMA_VERSION
       ([(''operator'', JStr ''gte''), (''thresholdAmount'', JStr thresholdAmount)] @ asset_entries h @ period_entries s e @
        [(''qualifyingPaymentCount'', JInt n)])
       [hidden ''exactIncomeHidden'', hidden ''sourceTransactionsHidden'']"

definition buildAggregateEarningsCredential ::
  "credential_head \<Rightarrow> string \<Rightarrow> string \<Rightarrow> time_ms \<Rightarrow> time_ms \<Rightarrow> string \<Rightarrow> int \<Rightarrow> string \<Rightarrow> json" where
  "buildAggregateEarningsCredential h aggregateAmount increment s e sourceScope n policyVersion =
     credential_body h ''EarnProofAggregateEarningsCredential'' AGGREGATE_EARNINGS_SCHEMA_VERSION
       ([(''operator'', JStr ''sum''), (''aggregateAmount'', JStr aggregateAmount),
         (''rounding'', JObj [(''mode'', JStr ''floor''), (''increment'', JStr increment)])] @
        asset_entries h @ period_entries s e @
        [(''periodBoundary'', JStr ''start-inclusive-end-exclusive''), (''sourceScope'', JStr sourceScope),
         (''qualifyingPaymentCount'', JInt n), (''policyVersion'', JStr policyVersion)])
       [hidden ''exactIncomeHidden'', hidden ''sourceTransactionsHidden'', hidden ''sourceIdentitiesHidden'']"

definition buildPaymentReceiptCredential ::
  "credential_head \<Rightarrow> time_ms \<Rightarrow> string \<Rightarrow> bool \<Rightarrow> bool \<Rightarrow> string option \<Rightarrow> string option \<Rightarrow> json" where
  "buildPaymentReceiptCredential h occurredAt paymentReferenceHash senderHidden amountHidden sourceAddress amount =
     credential_body h ''EarnProofPaymentReceiptCredential'' PAYMENT_RECEIPT_SCHEMA_VERSION
       (asset_entries h @ [(''occurredAt'', JStr (toISOString occurredAt)), (''paymentReferenceHash'', JStr paymentReferenceHash)] @
        (if senderHidden then [] else opt_entry ''sourceAddress'' (map_option JStr sourceAddress)) @
        (if amountHidden then [] else opt_entry ''amount'' (map_option JStr amount)))
       [(''senderHidden'', JBool senderHidden), (''amountHidden'', JBool amountHidden)]"

definition buildInvoiceSettlementCredential ::
  "credential_head \<Rightarrow> ident \<Rightarrow> time_ms \<Rightarrow> string \<Rightarrow> bool \<Rightarrow> string option \<Rightarrow> json" where
  "buildInvoiceSettlementCredential h issuerId occurredAt invoiceReferenceHash amountHidden amount =
     credential_body h ''EarnProofInvoiceSettlementCredential'' INVOICE_SETTLEMENT_SCHEMA_VERSION
       ([(''issuerId'', JStr issuerId)] @ asset_entries h @
        [(''occurredAt'', JStr (toISOString occurredAt)), (''invoiceReferenceHash'', JStr invoiceReferenceHash)] @
        (if amountHidden then [] else opt_entry ''amount'' (map_option JStr amount)))
       [(''amountHidden'', JBool amountHidden)]"

datatype interval_unit = IU_day | IU_week | IU_month

fun interval_name :: "interval_unit \<Rightarrow> string" where
  "interval_name IU_day = ''day''"
| "interval_name IU_week = ''week''"
| "interval_name IU_month = ''month''"

definition buildRecurringIncomeCredential ::
  "credential_head \<Rightarrow> string \<Rightarrow> interval_unit \<Rightarrow> int \<Rightarrow> time_ms \<Rightarrow> time_ms \<Rightarrow> int \<Rightarrow> json" where
  "buildRecurringIncomeCredential h cadence intervalUnit intervalCount s e n =
     credential_body h ''EarnProofRecurringIncomeCredential'' RECURRING_INCOME_SCHEMA_VERSION
       ([(''cadence'', JStr cadence), (''intervalUnit'', JStr (interval_name intervalUnit)),
         (''intervalCount'', JInt intervalCount)] @ asset_entries h @ period_entries s e @
        [(''qualifyingPaymentCount'', JInt n)])
       [hidden ''exactIncomeHidden'', hidden ''sourceTransactionsHidden'']"

definition buildIncomeRangeCredential ::
  "credential_head \<Rightarrow> string \<Rightarrow> string \<Rightarrow> time_ms \<Rightarrow> time_ms \<Rightarrow> int \<Rightarrow> json" where
  "buildIncomeRangeCredential h lowerBound upperBound s e n =
     credential_body h ''EarnProofIncomeRangeCredential'' INCOME_RANGE_SCHEMA_VERSION
       ([(''operator'', JStr ''range''), (''lowerBound'', JStr lowerBound), (''upperBound'', JStr upperBound)] @
        asset_entries h @ period_entries s e @ [(''qualifyingPaymentCount'', JInt n)])
       [hidden ''exactIncomeHidden'', hidden ''sourceTransactionsHidden'']"

definition buildEmploymentContinuityCredential ::
  "credential_head \<Rightarrow> ident \<Rightarrow> time_ms \<Rightarrow> time_ms \<Rightarrow> string \<Rightarrow> int \<Rightarrow> int \<Rightarrow> string \<Rightarrow> json" where
  "buildEmploymentContinuityCredential h employerIssuerId s e periodUnit observedPeriods toleratedMissingPeriods policyVersion =
     credential_body h ''EarnProofEmploymentContinuityCredential'' EMPLOYMENT_CONTINUITY_SCHEMA_VERSION
       ([(''employerIssuerId'', JStr employerIssuerId)] @ asset_entries h @ period_entries s e @
        [(''periodUnit'', JStr periodUnit), (''observedPeriods'', JInt observedPeriods),
         (''toleratedMissingPeriods'', JInt toleratedMissingPeriods), (''continuous'', JBool True),
         (''policyVersion'', JStr policyVersion)])
       [hidden ''amountHidden'', hidden ''senderHidden'', hidden ''memoHidden'', hidden ''sourceTransactionsHidden'',
        hidden ''paymentDatesHidden'']"

fun corroboration_name :: "employer_corroboration \<Rightarrow> string" where
  "corroboration_name issuer_account = ''issuer_account''"
| "corroboration_name issuer_attestation = ''issuer_attestation''"

definition buildEmployerPaymentCredential ::
  "credential_head \<Rightarrow> ident \<Rightarrow> string \<Rightarrow> time_ms \<Rightarrow> time_ms \<Rightarrow> string \<Rightarrow> json" where
  "buildEmployerPaymentCredential h employerIssuerId corroboration s e policyVersion =
     credential_body h ''EarnProofEmployerPaymentCredential'' EMPLOYER_PAYMENT_SCHEMA_VERSION
       ([(''employerIssuerId'', JStr employerIssuerId), (''corroboration'', JStr corroboration)] @ asset_entries h @
        period_entries s e @
        [(''periodBoundary'', JStr ''start-inclusive-end-exclusive''), (''paymentObserved'', JBool True),
         (''policyVersion'', JStr policyVersion)])
       [hidden ''amountHidden'', hidden ''senderHidden'', hidden ''memoHidden'', hidden ''sourceTransactionsHidden'']"

subsection \<open>Rebuilding from the stored row\<close>

fun jsonPolicy :: "json \<Rightarrow> (string \<times> json) list" where
  "jsonPolicy (JObj es) = es"
| "jsonPolicy _ = []"

fun json_string :: "json option \<Rightarrow> string option" where
  "json_string (Some (JStr s)) = Some s"
| "json_string _ = None"

fun json_number :: "json option \<Rightarrow> int option" where
  "json_number (Some (JInt n)) = Some n"
| "json_number _ = None"

abbreviation policy_text :: "json \<Rightarrow> string \<Rightarrow> string option" where
  "policy_text policy k \<equiv> json_string (map_of (jsonPolicy policy) k)"

abbreviation policy_number :: "json \<Rightarrow> string \<Rightarrow> int option" where
  "policy_number policy k \<equiv> json_number (map_of (jsonPolicy policy) k)"

definition qualifyingPaymentCount :: "json \<Rightarrow> int" where
  "qualifyingPaymentCount policy = nullish (policy_number policy ''qualifyingPaymentCount'') 1"

text \<open>\<open>/^(day|week|month):([1-9]\d*)$/\<close>, with at most 120 intervals.\<close>

definition revealCadence :: "string option \<Rightarrow> (interval_unit \<times> int) option" where
  "revealCadence frequency =
     (case split_on CHR '':'' (nullish frequency []) of
        [u, n] \<Rightarrow>
          (case find (\<lambda>x. interval_name x = u) [IU_day, IU_week, IU_month] of
             None \<Rightarrow> None
           | Some iu \<Rightarrow>
               if n \<noteq> [] \<and> all_digits n \<and> hd n \<noteq> CHR ''0'' \<and> read_digits n \<le> 120
               then Some (iu, int (read_digits n)) else None)
      | _ \<Rightarrow> None)"

definition SOURCE_SCOPES :: "string list" where
  "SOURCE_SCOPES = [''income'', ''trusted_sources'', ''verified_issuers'']"

definition ROUNDING_INCREMENTS :: "string list" where
  "ROUNDING_INCREMENTS = map increment_text [Inc_stroop, Inc_cent, Inc_1, Inc_10, Inc_100, Inc_1000]"

definition one_of :: "string list \<Rightarrow> json option \<Rightarrow> string" where
  "one_of allowed v = (case json_string v of Some s \<Rightarrow> if s \<in> set allowed then s else ''invalid'' | None \<Rightarrow> ''invalid'')"

definition head_of :: "string \<Rightarrow> proof_row \<Rightarrow> credential_head" where
  "head_of walletHash p =
     \<lparr>ch_id = pf_id p, ch_walletHash = walletHash, ch_assetCode = pf_assetCode p, ch_assetIssuer = pf_assetIssuer p,
      ch_issuedAt = pf_createdAt p, ch_expiresAt = pf_expiresAt p\<rparr>"

abbreviation start_of :: "proof_row \<Rightarrow> time_ms" where "start_of p \<equiv> nullish (pf_periodStart p) (pf_createdAt p)"
abbreviation stop_of :: "proof_row \<Rightarrow> time_ms" where "stop_of p \<equiv> nullish (pf_periodEnd p) (pf_createdAt p)"

definition rebuildAggregateEarningsCredential :: "string \<Rightarrow> proof_row \<Rightarrow> proof_claim \<Rightarrow> json" where
  "rebuildAggregateEarningsCredential w p c =
     (let policy = cl_disclosurePolicy c in
      buildAggregateEarningsCredential (head_of w p) (revealThreshold (cl_thresholdEncrypted c))
        (one_of ROUNDING_INCREMENTS (map_of (jsonPolicy policy) ''roundingIncrement'')) (start_of p) (stop_of p)
        (one_of SOURCE_SCOPES (map_of (jsonPolicy policy) ''sourceScope''))
        (nullish (policy_number policy ''qualifyingPaymentCount'') 0)
        (nullish (policy_text policy ''policyVersion'') AGGREGATE_EARNINGS_POLICY_VERSION))"

definition policy_flag :: "json \<Rightarrow> string \<Rightarrow> bool" where
  "policy_flag policy k \<longleftrightarrow> map_of (jsonPolicy policy) k \<noteq> Some (JBool False)"

definition policy_occurredAt :: "proof_env \<Rightarrow> proof_row \<Rightarrow> json \<Rightarrow> time_ms" where
  "policy_occurredAt env p policy =
     (case policy_text policy ''occurredAt'' of
        None \<Rightarrow> start_of p
      | Some s \<Rightarrow> nullish (pe_parseDate env s) (start_of p))"

definition rebuildPaymentReceiptCredential :: "proof_env \<Rightarrow> string \<Rightarrow> proof_row \<Rightarrow> proof_claim \<Rightarrow> json" where
  "rebuildPaymentReceiptCredential env w p c =
     (let policy = cl_disclosurePolicy c; amountHidden = policy_flag policy ''amountHidden'' in
      buildPaymentReceiptCredential (head_of w p) (policy_occurredAt env p policy)
        (nullish (policy_text policy ''paymentReferenceHash'') []) (policy_flag policy ''senderHidden'') amountHidden
        (policy_text policy ''sourceAddress'')
        (if amountHidden then None else Some (revealPaymentAmountForVerification env (cl_thresholdEncrypted c))))"

definition rebuildInvoiceSettlementCredential :: "proof_env \<Rightarrow> string \<Rightarrow> proof_row \<Rightarrow> proof_claim \<Rightarrow> json" where
  "rebuildInvoiceSettlementCredential env w p c =
     (let policy = cl_disclosurePolicy c; amountHidden = policy_flag policy ''amountHidden'' in
      buildInvoiceSettlementCredential (head_of w p) (nullish (policy_text policy ''issuerId'') [])
        (policy_occurredAt env p policy) (nullish (policy_text policy ''invoiceReferenceHash'') []) amountHidden
        (if amountHidden then None else Some (revealPaymentAmountForVerification env (cl_thresholdEncrypted c))))"

definition rebuildEmploymentContinuityCredential :: "string \<Rightarrow> proof_row \<Rightarrow> proof_claim \<Rightarrow> json" where
  "rebuildEmploymentContinuityCredential w p c =
     (let policy = cl_disclosurePolicy c;
          text = (\<lambda>k. nullish (policy_text policy k) []);
          count = (\<lambda>k. nullish (policy_number policy k) (-1)) in
      buildEmploymentContinuityCredential (head_of w p) (text ''employerIssuerId'') (start_of p) (stop_of p)
        (text ''periodUnit'') (count ''observedPeriods'') (count ''toleratedMissingPeriods'') (text ''policyVersion''))"

definition rebuildEmployerPaymentCredential :: "string \<Rightarrow> proof_row \<Rightarrow> proof_claim \<Rightarrow> json" where
  "rebuildEmployerPaymentCredential w p c =
     (let policy = cl_disclosurePolicy c; corroboration = policy_text policy ''corroboration'' in
      buildEmployerPaymentCredential (head_of w p) (nullish (policy_text policy ''employerIssuerId'') [])
        (if corroboration = Some ''issuer_account'' \<or> corroboration = Some ''issuer_attestation'' then the corroboration
         else ''issuer_account'')
        (start_of p) (stop_of p) (nullish (policy_text policy ''policyVersion'') []))"

definition rebuildCredential :: "proof_env \<Rightarrow> string \<Rightarrow> proof_row \<Rightarrow> proof_claim \<Rightarrow> json" where
  "rebuildCredential env w p c =
     (let policy = cl_disclosurePolicy c; cadence = revealCadence (cl_frequency c) in
      case pf_proofType p of
        PT_AGGREGATE_EARNINGS \<Rightarrow> rebuildAggregateEarningsCredential w p c
      | PT_RECURRING_INCOME \<Rightarrow>
          buildRecurringIncomeCredential (head_of w p) (nullish (cl_frequency c) ''invalid'')
            (case cadence of None \<Rightarrow> IU_month | Some (u, n) \<Rightarrow> u) (case cadence of None \<Rightarrow> 0 | Some (u, n) \<Rightarrow> n)
            (start_of p) (stop_of p) (nullish (policy_number policy ''qualifyingPaymentCount'') 0)
      | PT_PAYMENT_RECEIPT \<Rightarrow> rebuildPaymentReceiptCredential env w p c
      | PT_INVOICE_SETTLEMENT \<Rightarrow> rebuildInvoiceSettlementCredential env w p c
      | PT_INCOME_RANGE \<Rightarrow>
          buildIncomeRangeCredential (head_of w p) (nullish (policy_text policy ''lowerBound'') ''0'')
            (nullish (policy_text policy ''upperBound'') ''0'') (start_of p) (stop_of p) (qualifyingPaymentCount policy)
      | PT_EMPLOYER_PAYMENT \<Rightarrow> rebuildEmployerPaymentCredential w p c
      | PT_EMPLOYMENT_CONTINUITY \<Rightarrow> rebuildEmploymentContinuityCredential w p c
      | PT_MINIMUM_INCOME \<Rightarrow>
          buildCredential (head_of w p) (revealThreshold (cl_thresholdEncrypted c)) (start_of p) (stop_of p)
            (qualifyingPaymentCount policy))"

text \<open>The hash and commitment stored with a proof, and the signed form returned to callers.\<close>

definition credential_hash :: "proof_env \<Rightarrow> json \<Rightarrow> string" where
  "credential_hash env j = ''sha256:'' @ pe_sha256 env (the (canonicalize j))"

definition credential_commitment :: "proof_env \<Rightarrow> string \<Rightarrow> string" where
  "credential_commitment env h = ''sha256:'' @ pe_sha256 env h"

fun with_proof :: "json \<Rightarrow> json \<Rightarrow> json" where
  "with_proof (JObj es) pr = JObj (es @ [(''proof'', pr)])"
| "with_proof j pr = j"

definition signCredential :: "proof_env \<Rightarrow> json \<Rightarrow> json" where
  "signCredential env credential =
     (case pe_keySign env of
        Some sign \<Rightarrow> with_proof credential (sign credential)
      | None \<Rightarrow>
          with_proof credential
            (JObj [(''type'', JStr ''HMAC-SHA256''), (''keyId'', JStr (pe_activeKeyId env)),
                   (''credentialHash'', JStr (credential_hash env credential)),
                   (''signature'', JStr (''hmac-sha256:'' @ pe_hmac env (the (canonicalize credential))))]))"

definition paymentReferenceHash :: "proof_env \<Rightarrow> string \<Rightarrow> string" where
  "paymentReferenceHash env operationId = ''sha256:'' @ pe_sha256 env operationId"

definition keyedDigest :: "proof_env \<Rightarrow> string \<Rightarrow> string" where
  "keyedDigest env value = ''hmac-sha256:'' @ pe_hmac env value"

end
