(* ===== verification/Issuance.thy ===== *)
theory Issuance
  imports Credentials
begin

text \<open>
  Issuing proofs, the \<open>create...Proof\<close> operations of \<open>proofs/proofs.service.ts\<close>.

  An operation reads the database, decides, and then commits one transaction.  Other requests can
  commit in between, so every operation has two states: \<open>db0\<close>, which its checks read, and \<open>db\<close>, the
  state its transaction starts from.  A transaction that throws leaves \<open>db\<close>.  \<open>pid\<close> and \<open>iid\<close> are the
  identifiers drawn for the proof and for its anchoring intent, \<open>now\<close> is the instant of the request.
  Webhook events are appended to an outbox, as the delivery itself is not awaited.
\<close>

subsection \<open>State\<close>

record asset_row =
  sa_id :: ident
  sa_assetKey :: string
  sa_code :: string
  sa_issuer :: "string option"
  sa_network :: string
  sa_status :: resource_status

record settlement_row =
  se_proofId :: ident
  se_paymentId :: ident
  se_issuerId :: ident
  se_invoiceReferenceHash :: string

datatype anchoring_operation = AO_REGISTER | AO_REVOKE
datatype anchoring_status = AN_PENDING | AN_PROCESSING | AN_CONFIRMED | AN_FAILED | AN_QUARANTINED
datatype quarantine_decision = QD_PENDING | QD_REDRIVEN | QD_ABANDONED

record intent_row =
  in_id :: ident
  in_proofId :: ident
  in_operation :: anchoring_operation
  in_status :: anchoring_status
  in_attemptCount :: nat
  in_lastAttemptAt :: "time_ms option"
  in_nextRetryAt :: "time_ms option"
  in_transactionHash :: "string option"
  in_ledger :: "string option"
  in_lastErrorSafe :: "string option"
  in_permanentError :: bool
  in_quarantinedAt :: "time_ms option"
  in_quarantineReasonCode :: "string option"
  in_quarantineDecision :: quarantine_decision
  in_decidedById :: "ident option"
  in_decidedAt :: "time_ms option"
  in_createdAt :: time_ms

datatype attestation_type = AT_PAYMENT | AT_EMPLOYMENT | AT_INVOICE

record attestation_row =
  at_id :: ident
  at_issuerId :: ident
  at_subjectWalletHash :: string
  at_paymentReferenceHash :: "string option"
  at_type :: attestation_type
  at_status :: resource_status
  at_expiresAt :: "time_ms option"
  at_revokedAt :: "time_ms option"

datatype verification_result =
  VR_VALID | VR_EXPIRED | VR_REVOKED | VR_INVALID_SIGNATURE | VR_UNKNOWN_PROOF | VR_UNVERIFIED_ISSUER

record proof_created_source =
  pcs_proofId :: ident
  pcs_proofType :: proof_type
  pcs_credentialSchemaVersion :: string
  pcs_status :: proof_status
  pcs_network :: string
  pcs_assetCode :: string
  pcs_assetIssuer :: "string option"
  pcs_periodStart :: "time_ms option"
  pcs_periodEnd :: "time_ms option"
  pcs_expiresAt :: time_ms
  pcs_credentialHash :: string
  pcs_contractTransactionHash :: "string option"
  pcs_issuedAt :: time_ms

datatype domain_event =
    Proof_created proof_created_source
  | Proof_revoked ident proof_status time_ms
  | Proof_verified ident verification_result time_ms

record proofs_db =
  auth :: auth_db
  earn :: earnings_db
  proofs :: "proof_row table"
  assets :: "asset_row table"
  organizations :: "organization_row table"
  quota_usage :: "usage_row table"
  settlements :: "settlement_row table"
  intents :: "intent_row table"
  attestations :: "attestation_row table"
  verification_events :: "(ident \<times> verification_result) table"
  outbox :: "(ident \<times> domain_event) list"

record issued =
  is_proofId :: ident
  is_status :: proof_status
  is_verificationUrl :: string
  is_credential :: json
  is_anchoring :: string

subsection \<open>The issuing transaction\<close>

text \<open>\<open>common/assets/asset-identifier.ts\<close>.\<close>

definition normalizeIssuer :: "string option \<Rightarrow> string option" where
  "normalizeIssuer issuer =
     (case issuer of None \<Rightarrow> None | Some s \<Rightarrow> let t = trim s in if length t = 0 then None else Some t)"

definition canonicalAssetId :: "string \<Rightarrow> string \<Rightarrow> string option \<Rightarrow> string" where
  "canonicalAssetId network code issuer =
     (let n = toLowerCase (trim network); c = trim code in
      case normalizeIssuer issuer of
        None \<Rightarrow> n @ '':native:'' @ c
      | Some i \<Rightarrow> n @ '':issued:'' @ c @ '':'' @ i)"

definition requireActiveAssetPolicy ::
  "proof_env \<Rightarrow> string \<Rightarrow> string option \<Rightarrow> time_ms \<Rightarrow> proofs_db \<Rightarrow> (http_error, ident \<times> json) result" where
  "requireActiveAssetPolicy env code issuer now db =
     (case find_row (\<lambda>a. sa_code a = code \<and> sa_issuer a = issuer \<and> sa_network a = pe_network env \<and> sa_status a = RS_ACTIVE) (assets db) of
        None \<Rightarrow> Inl (Unprocessable ''Asset is not an active supported asset on this network and is not eligible for proof issuance'')
      | Some a \<Rightarrow>
          Inr (sa_id a,
            JObj [(''supportedAssetId'', JStr (sa_id a)), (''assetKey'', JStr (sa_assetKey a)), (''code'', JStr (sa_code a)),
                  (''issuer'', json_opt (sa_issuer a)), (''network'', JStr (sa_network a)), (''status'', JStr (status_name (sa_status a))),
                  (''canonicalAssetId'', JStr (canonicalAssetId (sa_network a) (sa_code a) (sa_issuer a))),
                  (''checkedAt'', JStr (toISOString now))]))"

text \<open>\<open>proof.create\<close>: the id, the credential hash and the superseded proof are unique columns.\<close>

definition insert_proof :: "proof_row \<Rightarrow> proofs_db \<Rightarrow> (http_error, proofs_db) result" where
  "insert_proof r db =
     (if \<exists>q\<in>set (proofs db). pf_id q = pf_id r \<or> pf_credentialHash q = pf_credentialHash r \<or>
           (pf_supersedesId r \<noteq> None \<and> pf_supersedesId q = pf_supersedesId r)
      then Inl UniqueViolation else Inr (db\<lparr>proofs := insert_row r (proofs db)\<rparr>))"

definition new_intent :: "ident \<Rightarrow> ident \<Rightarrow> anchoring_operation \<Rightarrow> time_ms \<Rightarrow> intent_row" where
  "new_intent iid pid oper now =
     \<lparr>in_id = iid, in_proofId = pid, in_operation = oper, in_status = AN_PENDING, in_attemptCount = 0,
      in_lastAttemptAt = None, in_nextRetryAt = None, in_transactionHash = None, in_ledger = None, in_lastErrorSafe = None,
      in_permanentError = False, in_quarantinedAt = None, in_quarantineReasonCode = None, in_quarantineDecision = QD_PENDING,
      in_decidedById = None, in_decidedAt = None, in_createdAt = now\<rparr>"

definition insert_intent :: "intent_row \<Rightarrow> proofs_db \<Rightarrow> (http_error, proofs_db) result" where
  "insert_intent r db =
     (if \<exists>q\<in>set (intents db). in_id q = in_id r \<or> (in_proofId q = in_proofId r \<and> in_operation q = in_operation r)
      then Inl UniqueViolation else Inr (db\<lparr>intents := insert_row r (intents db)\<rparr>))"

definition register_intent :: "proof_env \<Rightarrow> ident \<Rightarrow> ident \<Rightarrow> time_ms \<Rightarrow> proofs_db \<Rightarrow> (http_error, proofs_db) result" where
  "register_intent env iid pid now db =
     (if pe_anchoringEnabled env then insert_intent (new_intent iid pid AO_REGISTER now) db else Inr db)"

definition create_in_tx :: "proof_env \<Rightarrow> proof_row \<Rightarrow> ident \<Rightarrow> time_ms \<Rightarrow> proofs_db \<Rightarrow> (http_error, proofs_db) result" where
  "create_in_tx env row iid now db =
     (case insert_proof row db of Inl e \<Rightarrow> Inl e | Inr db1 \<Rightarrow> register_intent env iid (pf_id row) now db1)"

text \<open>The transaction of the charged proof types: quota, asset policy, the type's own checks, creation.\<close>

definition charged_tx ::
  "proof_env \<Rightarrow> ident \<Rightarrow> string \<Rightarrow> string option \<Rightarrow> (proofs_db \<Rightarrow> (http_error, proof_row) result) \<Rightarrow> ident \<Rightarrow> time_ms
   \<Rightarrow> proofs_db \<Rightarrow> (http_error, proof_row \<times> proofs_db) result" where
  "charged_tx env userId code issuer mk iid now db =
     (case consumeForUser (pe_limits env) userId Q_proof_requests now (organizations db) (quota_usage db) of
        (Inl e, _) \<Rightarrow> Inl e
      | (Inr _, usage) \<Rightarrow>
        case requireActiveAssetPolicy env code issuer now db of Inl e \<Rightarrow> Inl e | Inr (policyId, snapshot) \<Rightarrow>
        case mk db of Inl e \<Rightarrow> Inl e | Inr row \<Rightarrow>
          let row = row\<lparr>pf_assetPolicyId := Some policyId, pf_assetPolicySnapshot := Some snapshot\<rparr> in
          map_sum id (\<lambda>db'. (row, db')) (create_in_tx env row iid now (db\<lparr>quota_usage := usage\<rparr>)))"

definition new_proof ::
  "proof_env \<Rightarrow> ident \<Rightarrow> credential_head \<Rightarrow> proof_type \<Rightarrow> string \<Rightarrow> time_ms \<Rightarrow> time_ms \<Rightarrow> json \<Rightarrow> proof_claim \<Rightarrow> proof_row" where
  "new_proof env userId h typ schema s e credential claim =
     \<lparr>pf_id = ch_id h, pf_userId = userId, pf_proofType = typ, pf_schemaVersion = schema, pf_status = PS_ACTIVE,
      pf_network = pe_network env, pf_assetCode = ch_assetCode h, pf_assetIssuer = ch_assetIssuer h,
      pf_assetPolicyId = None, pf_assetPolicySnapshot = None, pf_periodStart = Some s, pf_periodEnd = Some e,
      pf_expiresAt = ch_expiresAt h, pf_createdAt = ch_issuedAt h, pf_credentialHash = credential_hash env credential,
      pf_commitment = Some (credential_commitment env (credential_hash env credential)), pf_contractTransactionHash = None,
      pf_revokedAt = None, pf_revokedByType = None, pf_revokedById = None, pf_revocationReasonCode = None,
      pf_revocationReasonPrivate = None, pf_revocationEvidenceHash = None, pf_supersedesId = None, pf_supersededAt = None,
      pf_renewalRequestHash = None, pf_claim = Some claim\<rparr>"

definition proof_created_of :: "proof_row \<Rightarrow> proof_created_source" where
  "proof_created_of p =
     \<lparr>pcs_proofId = pf_id p, pcs_proofType = pf_proofType p, pcs_credentialSchemaVersion = pf_schemaVersion p,
      pcs_status = pf_status p, pcs_network = pf_network p, pcs_assetCode = pf_assetCode p, pcs_assetIssuer = pf_assetIssuer p,
      pcs_periodStart = pf_periodStart p, pcs_periodEnd = pf_periodEnd p, pcs_expiresAt = pf_expiresAt p,
      pcs_credentialHash = pf_credentialHash p, pcs_contractTransactionHash = pf_contractTransactionHash p,
      pcs_issuedAt = pf_createdAt p\<rparr>"

definition emitWebhook :: "ident \<Rightarrow> domain_event \<Rightarrow> proofs_db \<Rightarrow> proofs_db" where
  "emitWebhook userId ev db = db\<lparr>outbox := outbox db @ [(userId, ev)]\<rparr>"

definition emitProofCreated :: "ident \<Rightarrow> proof_row \<Rightarrow> proofs_db \<Rightarrow> proofs_db" where
  "emitProofCreated userId p db = emitWebhook userId (Proof_created (proof_created_of p)) db"

definition verification_url :: "ident \<Rightarrow> string" where
  "verification_url pid = ''/api/v1/proofs/'' @ pid @ ''/verify''"

definition issued_response :: "proof_env \<Rightarrow> proof_row \<Rightarrow> json \<Rightarrow> issued" where
  "issued_response env p credential =
     \<lparr>is_proofId = pf_id p, is_status = pf_status p, is_verificationUrl = verification_url (pf_id p),
      is_credential = signCredential env credential,
      is_anchoring = (if pe_anchoringEnabled env then ''pending'' else ''disabled'')\<rparr>"

text \<open>After the transaction: the event, unless the type sends none, and the response.\<close>

definition finish ::
  "proof_env \<Rightarrow> ident \<Rightarrow> bool \<Rightarrow> json \<Rightarrow> (http_error, proof_row \<times> proofs_db) result \<Rightarrow> proofs_db \<Rightarrow> (http_error, issued) result \<times> proofs_db" where
  "finish env userId emits credential tx db =
     (case tx of
        Inl e \<Rightarrow> (Inl e, db)
      | Inr (p, db') \<Rightarrow> (Inr (issued_response env p credential), if emits then emitProofCreated userId p db' else db'))"

subsection \<open>Selected payments\<close>

text \<open>Comparisons of dates are false when either is invalid.\<close>

definition js_lt :: "time_ms option \<Rightarrow> time_ms option \<Rightarrow> bool" where
  "js_lt a b \<longleftrightarrow> (case (a, b) of (Some x, Some y) \<Rightarrow> x < y | _ \<Rightarrow> False)"

definition js_le :: "time_ms option \<Rightarrow> time_ms option \<Rightarrow> bool" where
  "js_le a b \<longleftrightarrow> (case (a, b) of (Some x, Some y) \<Rightarrow> x \<le> y | _ \<Rightarrow> False)"

definition selected_payments :: "ident \<Rightarrow> ident list \<Rightarrow> proofs_db \<Rightarrow> payment_row list" where
  "selected_payments userId ids db = find_many (\<lambda>p. y_id p \<in> set ids \<and> y_userId p = userId) (payments (earn db))"

fun first_error :: "('a \<Rightarrow> http_error option) \<Rightarrow> 'a list \<Rightarrow> http_error option" where
  "first_error f [] = None"
| "first_error f (x # xs) = (case f x of Some e \<Rightarrow> Some e | None \<Rightarrow> first_error f xs)"

text \<open>The loop over the selected payments; \<open>holds\<close> says whether the type refuses held payments.\<close>

definition income_payment_error ::
  "bool \<Rightarrow> string \<Rightarrow> string option \<Rightarrow> time_ms option \<Rightarrow> time_ms option \<Rightarrow> payment_row \<Rightarrow> http_error option" where
  "income_payment_error holds assetCode assetIssuer s e p =
     (if y_classification p \<noteq> CL_INCOME \<or> \<not> y_isEligible p
      then Some (BadRequest ''Selected payments must be eligible income payments'')
      else if holds \<and> y_finalityHoldAt p \<noteq> None
      then Some (BadRequest ''Selected payments are pending ledger reconciliation'')
      else if y_assetCode p \<noteq> assetCode \<or> y_assetIssuer p \<noteq> assetIssuer
      then Some (BadRequest ''Selected payments must use the requested asset'')
      else if js_lt (Some (y_occurredAt p)) s \<or> js_lt e (Some (y_occurredAt p))
      then Some (BadRequest ''Selected payments must fall inside the requested period'')
      else None)"

fun sum_amounts :: "proof_env \<Rightarrow> payment_row list \<Rightarrow> (http_error, int) result" where
  "sum_amounts env [] = Inr 0"
| "sum_amounts env (p # ps) =
     (case revealProtectedAmount env (y_amountEncrypted p) of Inl e \<Rightarrow> Inl e | Inr n \<Rightarrow>
      case sum_amounts env ps of Inl e \<Rightarrow> Inl e | Inr m \<Rightarrow> Inr (n + m))"

definition malformed_amount :: http_error where
  "malformed_amount = Internal ''SyntaxError''"

definition invalid_time :: http_error where
  "invalid_time = Internal ''RangeError''"

definition user_head :: "authenticated_user \<Rightarrow> ident \<Rightarrow> string \<Rightarrow> string option \<Rightarrow> time_ms \<Rightarrow> int option \<Rightarrow> credential_head" where
  "user_head user pid assetCode assetIssuer now expiresInDays =
     \<lparr>ch_id = pid, ch_walletHash = a_walletHash user, ch_assetCode = assetCode, ch_assetIssuer = assetIssuer,
      ch_issuedAt = now, ch_expiresAt = expiry_of now expiresInDays\<rparr>"

subsection \<open>Minimum income and income range\<close>

record minimum_income_input =
  mi_selectedPaymentIds :: "ident list"
  mi_thresholdAmount :: string
  mi_assetCode :: string
  mi_assetIssuer :: "string option"
  mi_periodStart :: "time_ms option"
  mi_periodEnd :: "time_ms option"
  mi_expiresInDays :: "int option"

definition income_policy :: "int \<Rightarrow> (string \<times> json) list" where
  "income_policy n = [hidden ''exactIncomeHidden'', hidden ''sourceTransactionsHidden'', (''qualifyingPaymentCount'', JInt n)]"

definition minimum_income_claim :: "string \<Rightarrow> int \<Rightarrow> proof_claim" where
  "minimum_income_claim thresholdAmount n =
     \<lparr>cl_operator = ''gte'', cl_thresholdEncrypted = Some (protectAmount thresholdAmount), cl_frequency = None,
      cl_result = True, cl_disclosurePolicy = JObj (income_policy n)\<rparr>"

definition createMinimumIncomeProof ::
  "proof_env \<Rightarrow> authenticated_user \<Rightarrow> minimum_income_input \<Rightarrow> ident \<Rightarrow> ident \<Rightarrow> time_ms \<Rightarrow> proofs_db \<Rightarrow> proofs_db
   \<Rightarrow> (http_error, issued) result \<times> proofs_db" where
  "createMinimumIncomeProof env user inp pid iid now db0 db =
     (if js_lt (mi_periodEnd inp) (mi_periodStart inp)
      then (Inl (BadRequest ''periodStart must be before periodEnd''), db)
      else
        let ids = uniq (mi_selectedPaymentIds inp); ps = selected_payments (a_id user) ids db0 in
        if length ps \<noteq> length ids then (Inl (BadRequest ''One or more selected payments are invalid''), db)
        else case first_error (income_payment_error True (mi_assetCode inp) (mi_assetIssuer inp) (mi_periodStart inp) (mi_periodEnd inp)) ps of
          Some e \<Rightarrow> (Inl e, db)
        | None \<Rightarrow>
          case sum_amounts env ps of Inl e \<Rightarrow> (Inl e, db) | Inr tot \<Rightarrow>
          case parseAmount (mi_thresholdAmount inp) of None \<Rightarrow> (Inl malformed_amount, db) | Some threshold \<Rightarrow>
          if tot < threshold
          then (Inl (BadRequest ''Selected payments do not satisfy the minimum income threshold''), db)
          else case (mi_periodStart inp, mi_periodEnd inp) of
            (Some st, Some fin) \<Rightarrow>
              let h = user_head user pid (mi_assetCode inp) (mi_assetIssuer inp) now (mi_expiresInDays inp);
                  credential = buildCredential h (mi_thresholdAmount inp) st fin (int (length ps));
                  claim = minimum_income_claim (mi_thresholdAmount inp) (int (length ps));
                  row = new_proof env (a_id user) h PT_MINIMUM_INCOME SCHEMA_VERSION st fin credential claim
              in finish env (a_id user) True credential
                   (charged_tx env (a_id user) (mi_assetCode inp) (mi_assetIssuer inp) (\<lambda>_. Inr row) iid now db) db
          | _ \<Rightarrow> (Inl invalid_time, db))"

record income_range_input =
  ir_selectedPaymentIds :: "ident list"
  ir_lowerBound :: string
  ir_upperBound :: string
  ir_assetCode :: string
  ir_assetIssuer :: "string option"
  ir_periodStart :: "time_ms option"
  ir_periodEnd :: "time_ms option"
  ir_expiresInDays :: "int option"

definition income_range_claim :: "string \<Rightarrow> string \<Rightarrow> int \<Rightarrow> proof_claim" where
  "income_range_claim lowerBound upperBound n =
     \<lparr>cl_operator = ''range'', cl_thresholdEncrypted = None, cl_frequency = None, cl_result = True,
      cl_disclosurePolicy = JObj (income_policy n @ [(''lowerBound'', JStr lowerBound), (''upperBound'', JStr upperBound)])\<rparr>"

definition createIncomeRangeProof ::
  "proof_env \<Rightarrow> authenticated_user \<Rightarrow> income_range_input \<Rightarrow> ident \<Rightarrow> ident \<Rightarrow> time_ms \<Rightarrow> proofs_db \<Rightarrow> proofs_db
   \<Rightarrow> (http_error, issued) result \<times> proofs_db" where
  "createIncomeRangeProof env user inp pid iid now db0 db =
     (if js_lt (ir_periodEnd inp) (ir_periodStart inp)
      then (Inl (BadRequest ''periodStart must be before periodEnd''), db)
      else case (parseAmount (ir_lowerBound inp), parseAmount (ir_upperBound inp)) of
        (Some lower, Some upper) \<Rightarrow>
          if lower \<ge> upper then (Inl (BadRequest ''lowerBound must be strictly less than upperBound''), db)
          else
            let ids = uniq (ir_selectedPaymentIds inp); ps = selected_payments (a_id user) ids db0 in
            if length ps \<noteq> length ids then (Inl (BadRequest ''One or more selected payments are invalid''), db)
            else case first_error (income_payment_error False (ir_assetCode inp) (ir_assetIssuer inp) (ir_periodStart inp) (ir_periodEnd inp)) ps of
              Some e \<Rightarrow> (Inl e, db)
            | None \<Rightarrow>
              case sum_amounts env ps of Inl e \<Rightarrow> (Inl e, db) | Inr tot \<Rightarrow>
              if tot < lower \<or> tot > upper
              then (Inl (BadRequest ''Selected payments do not fall within the requested income range''), db)
              else case (ir_periodStart inp, ir_periodEnd inp) of
                (Some st, Some fin) \<Rightarrow>
                  let h = user_head user pid (ir_assetCode inp) (ir_assetIssuer inp) now (ir_expiresInDays inp);
                      credential = buildIncomeRangeCredential h (ir_lowerBound inp) (ir_upperBound inp) st fin (int (length ps));
                      claim = income_range_claim (ir_lowerBound inp) (ir_upperBound inp) (int (length ps));
                      row = new_proof env (a_id user) h PT_INCOME_RANGE INCOME_RANGE_SCHEMA_VERSION st fin credential claim
                  in finish env (a_id user) True credential
                       (charged_tx env (a_id user) (ir_assetCode inp) (ir_assetIssuer inp) (\<lambda>_. Inr row) iid now db) db
              | _ \<Rightarrow> (Inl invalid_time, db)
      | _ \<Rightarrow> (Inl malformed_amount, db))"

subsection \<open>Recurring income\<close>

record recurring_income_input =
  rc_selectedPaymentIds :: "ident list"
  rc_intervalUnit :: interval_unit
  rc_intervalCount :: nat
  rc_assetCode :: string
  rc_assetIssuer :: "string option"
  rc_periodStart :: "time_ms option"
  rc_periodEnd :: "time_ms option"
  rc_expiresInDays :: "int option"

text \<open>\<open>setUTCDate\<close> and \<open>setUTCMonth\<close>: the day of the month is kept, so a short month runs over.\<close>

definition addIntervalUnit :: "time_ms \<Rightarrow> interval_unit \<Rightarrow> int \<Rightarrow> time_ms" where
  "addIntervalUnit t u amount =
     (case u of
        IU_day \<Rightarrow> date_utc (utc_year t) (utc_month t) (utc_date t + amount) + time_in_day t
      | IU_week \<Rightarrow> date_utc (utc_year t) (utc_month t) (utc_date t + amount * 7) + time_in_day t
      | IU_month \<Rightarrow> date_utc (utc_year t) (utc_month t + amount) (utc_date t) + time_in_day t)"

definition buildRecurringIntervals ::
  "time_ms option \<Rightarrow> time_ms option \<Rightarrow> interval_unit \<Rightarrow> nat \<Rightarrow> (http_error, (time_ms option \<times> time_ms option) list) result" where
  "buildRecurringIntervals st fin u n =
     (let add = (\<lambda>k. map_option (\<lambda>t. addIntervalUnit t u k) st) in
      if js_lt fin (add (int n - 1)) \<or> js_le (add (int n)) fin
      then Inl (BadRequest ''The overall period must contain exactly the requested number of cadence intervals'')
      else Inr (map (\<lambda>i. let naturalEnd = map_option (\<lambda>t. t - 1) (add (int i + 1))
                         in (add (int i), if js_lt naturalEnd fin then naturalEnd else fin)) [0..<n]))"

definition interval_paid :: "payment_row list \<Rightarrow> time_ms option \<times> time_ms option \<Rightarrow> bool" where
  "interval_paid ps i \<longleftrightarrow> (\<exists>p\<in>set ps. js_le (fst i) (Some (y_occurredAt p)) \<and> js_le (Some (y_occurredAt p)) (snd i))"

definition recurring_claim :: "string \<Rightarrow> interval_unit \<Rightarrow> nat \<Rightarrow> int \<Rightarrow> proof_claim" where
  "recurring_claim cadence u k n =
     \<lparr>cl_operator = ''recurring'', cl_thresholdEncrypted = None, cl_frequency = Some cadence, cl_result = True,
      cl_disclosurePolicy = JObj (income_policy n @
        [(''intervalUnit'', JStr (interval_name u)), (''intervalCount'', JInt (int k))])\<rparr>"

definition createRecurringIncomeProof ::
  "proof_env \<Rightarrow> authenticated_user \<Rightarrow> recurring_income_input \<Rightarrow> ident \<Rightarrow> ident \<Rightarrow> time_ms \<Rightarrow> proofs_db \<Rightarrow> proofs_db
   \<Rightarrow> (http_error, issued) result \<times> proofs_db" where
  "createRecurringIncomeProof env user inp pid iid now db0 db =
     (if js_le (rc_periodEnd inp) (rc_periodStart inp)
      then (Inl (BadRequest ''periodStart must be before periodEnd''), db)
      else case buildRecurringIntervals (rc_periodStart inp) (rc_periodEnd inp) (rc_intervalUnit inp) (rc_intervalCount inp) of
        Inl e \<Rightarrow> (Inl e, db)
      | Inr intervals \<Rightarrow>
        let ids = uniq (rc_selectedPaymentIds inp); ps = selected_payments (a_id user) ids db0 in
        if length ps \<noteq> length ids then (Inl (BadRequest ''One or more selected payments are invalid''), db)
        else case first_error (income_payment_error True (rc_assetCode inp) (rc_assetIssuer inp) (rc_periodStart inp) (rc_periodEnd inp)) ps of
          Some e \<Rightarrow> (Inl e, db)
        | None \<Rightarrow>
          let missing = filter (\<lambda>i. \<not> interval_paid ps i) intervals in
          if length missing > 0
          then (Inl (BadRequest (''Recurring income proof unsatisfied: '' @ show_nat (length missing) @ '' of '' @
                  show_nat (length intervals) @ '' interval(s) contain no qualifying payment'')), db)
          else case (rc_periodStart inp, rc_periodEnd inp) of
            (Some st, Some fin) \<Rightarrow>
              let cadence = interval_name (rc_intervalUnit inp) @ '':'' @ show_nat (rc_intervalCount inp);
                  h = user_head user pid (rc_assetCode inp) (rc_assetIssuer inp) now (rc_expiresInDays inp);
                  credential = buildRecurringIncomeCredential h cadence (rc_intervalUnit inp) (int (rc_intervalCount inp)) st fin (int (length ps));
                  claim = recurring_claim cadence (rc_intervalUnit inp) (rc_intervalCount inp) (int (length ps));
                  row = new_proof env (a_id user) h PT_RECURRING_INCOME RECURRING_INCOME_SCHEMA_VERSION st fin credential claim
              in finish env (a_id user) False credential
                   (charged_tx env (a_id user) (rc_assetCode inp) (rc_assetIssuer inp) (\<lambda>_. Inr row) iid now db) db
          | _ \<Rightarrow> (Inl invalid_time, db))"

subsection \<open>Payment receipt\<close>

record payment_receipt_input =
  pr_paymentId :: ident
  pr_discloseSender :: "bool option"
  pr_discloseAmount :: "bool option"
  pr_expiresInDays :: "int option"

definition disclose :: "bool \<Rightarrow> (http_error, string) result \<Rightarrow> (http_error, string option) result" where
  "disclose is_hidden revealed = (if is_hidden then Inr None else map_sum id Some revealed)"

definition receipt_claim :: "payment_row \<Rightarrow> string \<Rightarrow> bool \<Rightarrow> bool \<Rightarrow> string option \<Rightarrow> proof_claim" where
  "receipt_claim p reference senderHidden amountHidden sourceAddress =
     \<lparr>cl_operator = ''receipt'', cl_thresholdEncrypted = (if amountHidden then None else y_amountEncrypted p),
      cl_frequency = None, cl_result = True,
      cl_disclosurePolicy = JObj ([(''senderHidden'', JBool senderHidden), (''amountHidden'', JBool amountHidden),
        (''paymentReferenceHash'', JStr reference), (''occurredAt'', JStr (toISOString (y_occurredAt p)))] @
        (if senderHidden then [] else opt_entry ''sourceAddress'' (map_option JStr sourceAddress)))\<rparr>"

definition createPaymentReceiptProof ::
  "proof_env \<Rightarrow> authenticated_user \<Rightarrow> payment_receipt_input \<Rightarrow> ident \<Rightarrow> ident \<Rightarrow> time_ms \<Rightarrow> proofs_db \<Rightarrow> proofs_db
   \<Rightarrow> (http_error, issued) result \<times> proofs_db" where
  "createPaymentReceiptProof env user inp pid iid now db0 db =
     (case find_row (\<lambda>p. y_id p = pr_paymentId inp \<and> y_userId p = a_id user) (payments (earn db0)) of
        None \<Rightarrow> (Inl (NotFound ''Payment not found''), db)
      | Some p \<Rightarrow>
          if \<not> y_isEligible p then (Inl (Unprocessable ''Payment is not eligible for proof issuance''), db)
          else if y_finalityHoldAt p \<noteq> None then (Inl (Unprocessable ''Payment is pending ledger reconciliation''), db)
          else if y_classification p = CL_EXCLUDED then (Inl (Unprocessable ''Payment is excluded from proof issuance''), db)
          else
            let senderHidden = (pr_discloseSender inp \<noteq> Some True); amountHidden = (pr_discloseAmount inp \<noteq> Some True) in
            case disclose senderHidden (revealPaymentSender env p) of Inl e \<Rightarrow> (Inl e, db) | Inr sourceAddress \<Rightarrow>
            case disclose amountHidden (revealPaymentAmount env (y_amountEncrypted p)) of Inl e \<Rightarrow> (Inl e, db) | Inr amount \<Rightarrow>
              let reference = ''sha256:'' @ pe_sha256 env (y_operationId p);
                  h = user_head user pid (y_assetCode p) (y_assetIssuer p) now (pr_expiresInDays inp);
                  credential = buildPaymentReceiptCredential h (y_occurredAt p) reference senderHidden amountHidden sourceAddress amount;
                  claim = receipt_claim p reference senderHidden amountHidden sourceAddress;
                  row = new_proof env (a_id user) h PT_PAYMENT_RECEIPT PAYMENT_RECEIPT_SCHEMA_VERSION (y_occurredAt p) (y_occurredAt p) credential claim
              in finish env (a_id user) True credential
                   (charged_tx env (a_id user) (y_assetCode p) (y_assetIssuer p) (\<lambda>_. Inr row) iid now db) db)"

subsection \<open>Invoice settlement\<close>

record invoice_input =
  iv_invoiceReference :: string
  iv_issuerId :: ident
  iv_assetCode :: string
  iv_assetIssuer :: "string option"
  iv_expectedAmount :: string
  iv_periodStart :: "time_ms option option"
  iv_periodEnd :: "time_ms option option"
  iv_discloseAmount :: "bool option"
  iv_expiresInDays :: "int option"

fun collapse_spaces :: "string \<Rightarrow> string" where
  "collapse_spaces [] = []"
| "collapse_spaces [c] = (if is_space c then '' '' else [c])"
| "collapse_spaces (c # d # cs) =
     (if is_space c \<and> is_space d then collapse_spaces (d # cs) else (if is_space c then CHR '' '' else c) # collapse_spaces (d # cs))"

definition normalizeInvoiceReference :: "string \<Rightarrow> string" where
  "normalizeInvoiceReference raw = toLowerCase (collapse_spaces (trim raw))"

text \<open>The settlement's three unique keys; the result names the columns of the one violated.\<close>

definition insert_settlement :: "settlement_row \<Rightarrow> settlement_row table \<Rightarrow> (string list, settlement_row table) result" where
  "insert_settlement r t =
     (if \<exists>q\<in>set t. se_proofId q = se_proofId r then Inl [''proofId'']
      else if \<exists>q\<in>set t. se_paymentId q = se_paymentId r then Inl [''paymentId'']
      else if \<exists>q\<in>set t. se_issuerId q = se_issuerId r \<and> se_invoiceReferenceHash q = se_invoiceReferenceHash r
      then Inl [''issuerId'', ''invoiceReferenceHash'']
      else Inr (insert_row r t))"

definition invoice_conflict :: "string list \<Rightarrow> http_error" where
  "invoice_conflict target =
     (if ''paymentId'' \<in> set target then Conflict ''This payment has already been used to settle a different invoice.''
      else Conflict ''This invoice reference has already been settled for this issuer.'')"

definition bound_ok :: "time_ms option option \<Rightarrow> time_ms option option \<Rightarrow> time_ms \<Rightarrow> bool" where
  "bound_ok lo hi t \<longleftrightarrow> (case lo of Some l \<Rightarrow> js_le l (Some t) | None \<Rightarrow> True) \<and> (case hi of Some h \<Rightarrow> js_le (Some t) h | None \<Rightarrow> True)"

definition invoice_candidate :: "authenticated_user \<Rightarrow> invoice_input \<Rightarrow> string list \<Rightarrow> proofs_db \<Rightarrow> payment_row \<Rightarrow> bool" where
  "invoice_candidate user inp addresses db p \<longleftrightarrow>
     y_userId p = a_id user \<and> (case y_sourceAddress p of None \<Rightarrow> False | Some a \<Rightarrow> a \<in> set addresses) \<and>
     y_assetCode p = iv_assetCode inp \<and> y_assetIssuer p = iv_assetIssuer inp \<and> y_isEligible p \<and>
     y_classification p \<noteq> CL_EXCLUDED \<and> find_row (\<lambda>q. se_paymentId q = y_id p) (settlements db) = None \<and>
     bound_ok (iv_periodStart inp) (iv_periodEnd inp) (y_occurredAt p)"

definition invoice_tx ::
  "proof_env \<Rightarrow> proof_row \<Rightarrow> settlement_row \<Rightarrow> ident \<Rightarrow> time_ms \<Rightarrow> proofs_db \<Rightarrow> (http_error, proof_row \<times> proofs_db) result" where
  "invoice_tx env row st iid now db =
     (case insert_proof row db of Inl e \<Rightarrow> Inl (invoice_conflict []) | Inr db1 \<Rightarrow>
      case insert_settlement st (settlements db1) of Inl target \<Rightarrow> Inl (invoice_conflict target) | Inr ss \<Rightarrow>
      case register_intent env iid (pf_id row) now (db1\<lparr>settlements := ss\<rparr>) of
        Inl e \<Rightarrow> Inl (invoice_conflict []) | Inr db2 \<Rightarrow> Inr (row, db2))"

definition no_matching_payment :: http_error where
  "no_matching_payment = NotFound ''No confirmed payment matches the requested issuer, asset, and amount.''"

definition settlement_claim :: "payment_row \<Rightarrow> string \<Rightarrow> ident \<Rightarrow> bool \<Rightarrow> proof_claim" where
  "settlement_claim p reference issuerId amountHidden =
     \<lparr>cl_operator = ''settlement'', cl_thresholdEncrypted = (if amountHidden then None else y_amountEncrypted p),
      cl_frequency = None, cl_result = True,
      cl_disclosurePolicy = JObj [(''amountHidden'', JBool amountHidden), (''invoiceReferenceHash'', JStr reference),
        (''issuerId'', JStr issuerId), (''occurredAt'', JStr (toISOString (y_occurredAt p)))]\<rparr>"

definition createInvoiceSettlementProof ::
  "proof_env \<Rightarrow> authenticated_user \<Rightarrow> invoice_input \<Rightarrow> ident \<Rightarrow> ident \<Rightarrow> time_ms \<Rightarrow> proofs_db \<Rightarrow> proofs_db
   \<Rightarrow> (http_error, issued) result \<times> proofs_db" where
  "createInvoiceSettlementProof env user inp pid iid now db0 db =
     (let normalized = normalizeInvoiceReference (iv_invoiceReference inp);
          reference = ''sha256:'' @ pe_sha256 env normalized in
      if normalized = [] then (Inl (BadRequest ''invoiceReference must not be empty after normalization''), db)
      else if (case (iv_periodStart inp, iv_periodEnd inp) of (Some a, Some b) \<Rightarrow> js_lt b a | _ \<Rightarrow> False)
      then (Inl (BadRequest ''periodStart must be before periodEnd''), db)
      else if \<not> (case find_row (\<lambda>i. i_id i = iv_issuerId inp) (issuers (earn db0)) of None \<Rightarrow> False | Some i \<Rightarrow> i_status i = RS_ACTIVE)
      then (Inl (BadRequest ''The specified issuer does not exist or is not active.''), db)
      else if find_row (\<lambda>q. se_issuerId q = iv_issuerId inp \<and> se_invoiceReferenceHash q = reference) (settlements db0) \<noteq> None
      then (Inl (invoice_conflict []), db)
      else
        let sources = find_many (\<lambda>s. ts_userId s = a_id user \<and> ts_issuerId s = Some (iv_issuerId inp) \<and> ts_status s = RS_ACTIVE) (trusted_sources (earn db0)) in
        if sources = [] then (Inl no_matching_payment, db)
        else if iv_periodStart inp = Some None \<or> iv_periodEnd inp = Some None then (Inl invalid_time, db)
        else
          let candidates = find_many (invoice_candidate user inp (map ts_sourceAddress sources) db0) (payments (earn db0)) in
          case parseAmount (iv_expectedAmount inp) of None \<Rightarrow> (Inl malformed_amount, db) | Some expected \<Rightarrow>
          case filter (\<lambda>p. tryRevealProtectedAmount env (y_amountEncrypted p) = Some expected) candidates of
            [] \<Rightarrow> (Inl no_matching_payment, db)
          | [p] \<Rightarrow>
              let amountHidden = (iv_discloseAmount inp \<noteq> Some True) in
              (case disclose amountHidden (revealPaymentAmount env (y_amountEncrypted p)) of Inl e \<Rightarrow> (Inl e, db) | Inr amount \<Rightarrow>
                let h = user_head user pid (y_assetCode p) (y_assetIssuer p) now (iv_expiresInDays inp);
                    credential = buildInvoiceSettlementCredential h (iv_issuerId inp) (y_occurredAt p) reference amountHidden amount;
                    claim = settlement_claim p reference (iv_issuerId inp) amountHidden;
                    row = new_proof env (a_id user) h PT_INVOICE_SETTLEMENT INVOICE_SETTLEMENT_SCHEMA_VERSION (y_occurredAt p) (y_occurredAt p) credential claim;
                    st = \<lparr>se_proofId = pid, se_paymentId = y_id p, se_issuerId = iv_issuerId inp, se_invoiceReferenceHash = reference\<rparr>
                in finish env (a_id user) True credential (invoice_tx env row st iid now db) db)
          | _ \<Rightarrow> (Inl (Unprocessable ''Multiple confirmed payments match the requested criteria; narrow the period window or amount.''), db))"

subsection \<open>Aggregate earnings\<close>

record aggregate_input =
  ag_assets :: "asset_ref list"
  ag_periodStart :: "time_ms option"
  ag_periodEnd :: "time_ms option"
  ag_sourceScope :: "source_scope option"
  ag_issuerIds :: "ident list option"
  ag_roundingIncrement :: "rounding_increment option"
  ag_expiresInDays :: "int option"

fun scope_name :: "source_scope \<Rightarrow> string" where
  "scope_name Scope_income = ''income''"
| "scope_name Scope_trusted_sources = ''trusted_sources''"
| "scope_name Scope_verified_issuers = ''verified_issuers''"

definition DEFAULT_ROUNDING_INCREMENT :: rounding_increment where
  "DEFAULT_ROUNDING_INCREMENT = Inc_1"

definition aggregationException :: "policy_error \<Rightarrow> http_error" where
  "aggregationException err =
     (case fst err of
        invalid_period \<Rightarrow> BadRequest (snd err) | future_period \<Rightarrow> BadRequest (snd err)
      | period_too_long \<Rightarrow> BadRequest (snd err) | invalid_source \<Rightarrow> BadRequest (snd err)
      | _ \<Rightarrow> Unprocessable (snd err))"

definition aggregate_claim :: "earnings_computation \<Rightarrow> rounding_increment \<Rightarrow> source_scope \<Rightarrow> proof_claim" where
  "aggregate_claim c increment scope =
     \<lparr>cl_operator = ''sum'', cl_thresholdEncrypted = Some (protectAmount (ec_disclosedAmount c)), cl_frequency = None, cl_result = True,
      cl_disclosurePolicy = JObj [hidden ''exactIncomeHidden'', hidden ''sourceTransactionsHidden'', hidden ''sourceIdentitiesHidden'',
        (''qualifyingPaymentCount'', JInt (int (ec_paymentCount c))), (''policyVersion'', JStr AGGREGATE_EARNINGS_POLICY_VERSION),
        (''roundingIncrement'', JStr (increment_text increment)), (''sourceScope'', JStr (scope_name scope)),
        (''inputsDigest'', JStr (ec_inputsDigest c))]\<rparr>"

definition createAggregateEarningsProof ::
  "proof_env \<Rightarrow> authenticated_user \<Rightarrow> aggregate_input \<Rightarrow> ident \<Rightarrow> ident \<Rightarrow> time_ms \<Rightarrow> proofs_db \<Rightarrow> proofs_db
   \<Rightarrow> (http_error, issued) result \<times> proofs_db" where
  "createAggregateEarningsProof env user inp pid iid now db0 db =
     (let scope = nullish (ag_sourceScope inp) Scope_income; increment = nullish (ag_roundingIncrement inp) DEFAULT_ROUNDING_INCREMENT in
      if ag_issuerIds inp \<noteq> None \<and> scope \<noteq> Scope_verified_issuers
      then (Inl (BadRequest ''issuerIds is only allowed with sourceScope verified_issuers''), db)
      else case compute (pe_decrypt env) (pe_hmac env) (a_id user)
          \<lparr>eq_assets = ag_assets inp, eq_periodStart = ag_periodStart inp, eq_periodEnd = ag_periodEnd inp, eq_sourceScope = scope,
           eq_issuerIds = ag_issuerIds inp, eq_roundingIncrement = increment\<rparr> now (earn db0) of
        Inl err \<Rightarrow> (Inl (aggregationException err), db)
      | Inr c \<Rightarrow>
          let st = pd_start (ec_period c); fin = pd_end (ec_period c);
              h = user_head user pid (as_code (ec_asset c)) (as_issuer (ec_asset c)) now (ag_expiresInDays inp);
              credential = buildAggregateEarningsCredential h (ec_disclosedAmount c) (increment_text increment) st fin
                (scope_name scope) (int (ec_paymentCount c)) AGGREGATE_EARNINGS_POLICY_VERSION;
              claim = aggregate_claim c increment scope;
              row = new_proof env (a_id user) h PT_AGGREGATE_EARNINGS AGGREGATE_EARNINGS_SCHEMA_VERSION st fin credential claim
          in finish env (a_id user) True credential (map_sum id (\<lambda>db'. (row, db')) (create_in_tx env row iid now db)) db)"

subsection \<open>Employer payment and employment continuity\<close>

definition EMPLOYER_PAYMENT_POLICY_VERSION :: string where
  "EMPLOYER_PAYMENT_POLICY_VERSION = ''earnproof.employer-payment.policy.v1''"

definition EMPLOYMENT_CONTINUITY_POLICY_VERSION :: string where
  "EMPLOYMENT_CONTINUITY_POLICY_VERSION = ''earnproof.employment-continuity.policy.v1''"

definition CONTINUITY_PERIOD_UNIT :: string where "CONTINUITY_PERIOD_UNIT = ''calendar-month-utc''"
definition MAX_EMPLOYER_PAYMENT_CANDIDATES :: nat where "MAX_EMPLOYER_PAYMENT_CANDIDATES = 200"
definition MAX_CONTINUITY_PAYMENTS :: nat where "MAX_CONTINUITY_PAYMENTS = 2000"

fun employer_period_message :: "employer_period_violation \<Rightarrow> string" where
  "employer_period_message ev_invalid_date = ''periodStart and periodEnd must be valid dates''"
| "employer_period_message ev_empty_or_inverted = ''periodStart must be before periodEnd''"
| "employer_period_message ev_too_long = ''The period must not exceed '' @ show_int MAX_EMPLOYER_PAYMENT_PERIOD_DAYS @ '' days''"
| "employer_period_message ev_ends_in_future = ''periodEnd must not be in the future''"

fun continuity_window_message :: "continuity_violation \<Rightarrow> string" where
  "continuity_window_message cv_invalid_date = ''periodStart must be a valid date''"
| "continuity_window_message cv_not_period_aligned = ''periodStart must be the first instant of a UTC calendar month''"
| "continuity_window_message cv_invalid_period_count =
     ''observedPeriods must be an integer between '' @ show_int MIN_CONTINUITY_PERIODS @ '' and '' @ show_int MAX_CONTINUITY_PERIODS"
| "continuity_window_message cv_window_not_complete = ''The observed window must have ended''"

definition employerSourceError :: "source_rejection \<Rightarrow> http_error" where
  "employerSourceError reason =
     (if reason = ambiguous_issuer then Unprocessable ''The trusted source does not identify a single employer''
      else Unprocessable ''The trusted source is not linked to an active, verified employer'')"

definition issuer_org_status :: "issuer_row \<Rightarrow> proofs_db \<Rightarrow> resource_status option" where
  "issuer_org_status i db = map_option og_status (find_row (\<lambda>g. og_id g = i_organizationId i) (organizations db))"

definition employer_source_of :: "source_row \<Rightarrow> proofs_db \<Rightarrow> employer_source" where
  "employer_source_of s db =
     \<lparr>es_id = ts_id s, es_sourceAddress = ts_sourceAddress s, es_status = ts_status s, es_issuerId = ts_issuerId s,
      es_issuer = map_option (\<lambda>i. \<lparr>ei_id = i_id i, ei_status = i_status i, ei_stellarAddress = i_stellarAddress i,
                                    ei_organization = issuer_org_status i db\<rparr>)
                    (find_row (\<lambda>i. Some (i_id i) = ts_issuerId s) (issuers (earn db)))\<rparr>"

definition resolveTrustedEmployer :: "ident \<Rightarrow> ident \<Rightarrow> proofs_db \<Rightarrow> (http_error, ident \<times> employer_resolution) result" where
  "resolveTrustedEmployer userId trustedSourceId db =
     (case find_row (\<lambda>s. ts_id s = trustedSourceId \<and> ts_userId s = userId) (trusted_sources (earn db)) of
        None \<Rightarrow> Inl (NotFound ''Trusted source not found'')
      | Some s \<Rightarrow>
          let owner = map_option i_id (find_row (\<lambda>i. i_stellarAddress i = ts_sourceAddress s) (issuers (earn db))) in
          case resolveEmployerSource (employer_source_of s db) owner of
            Inl reason \<Rightarrow> Inl (employerSourceError reason)
          | Inr res \<Rightarrow> Inr (ts_id s, res))"

text \<open>The join of source, issuer and organization under \<open>FOR SHARE\<close>, inside the transaction.\<close>

definition employer_still_trusted :: "ident \<Rightarrow> ident \<Rightarrow> employer_resolution \<Rightarrow> proofs_db \<Rightarrow> bool" where
  "employer_still_trusted sourceId userId res db \<longleftrightarrow>
     (case find_row (\<lambda>s. ts_id s = sourceId \<and> ts_userId s = userId) (trusted_sources (earn db)) of
        None \<Rightarrow> False
      | Some s \<Rightarrow>
          (case find_row (\<lambda>i. Some (i_id i) = ts_issuerId s) (issuers (earn db)) of
             None \<Rightarrow> False
           | Some i \<Rightarrow>
               ts_status s = RS_ACTIVE \<and> i_status i = RS_ACTIVE \<and> issuer_org_status i db = Some RS_ACTIVE \<and>
               ts_issuerId s = Some (er_issuerId res) \<and> ts_sourceAddress s = er_sourceAddress res))"

definition attestation_live :: "time_ms \<Rightarrow> attestation_row \<Rightarrow> bool" where
  "attestation_live now a \<longleftrightarrow>
     at_status a = RS_ACTIVE \<and> at_revokedAt a = None \<and> (case at_expiresAt a of None \<Rightarrow> True | Some e \<Rightarrow> e > now)"

definition note_attestation :: "(string \<times> ident) list \<Rightarrow> attestation_row \<Rightarrow> (string \<times> ident) list" where
  "note_attestation m a =
     (if truthy (at_paymentReferenceHash a) \<and> map_of m (the (at_paymentReferenceHash a)) = None
      then AList.update (the (at_paymentReferenceHash a)) (at_id a) m else m)"

definition findPaymentAttestations ::
  "proof_env \<Rightarrow> ident \<Rightarrow> string \<Rightarrow> string list \<Rightarrow> time_ms \<Rightarrow> proofs_db \<Rightarrow> (string \<times> ident) list" where
  "findPaymentAttestations env issuerId walletHash operationIds now db =
     (if operationIds = [] then []
      else foldl note_attestation []
        (sort_key at_id (find_many (\<lambda>a. at_issuerId a = issuerId \<and> at_subjectWalletHash a = walletHash \<and> at_type a = AT_PAYMENT \<and>
           attestation_live now a \<and>
           (case at_paymentReferenceHash a of None \<Rightarrow> False | Some r \<Rightarrow> r \<in> set (map (paymentReferenceHash env) operationIds)))
          (attestations db))))"

text \<open>The income payments of one source, asset and half-open period.\<close>

definition employer_payment_where :: "ident \<Rightarrow> string \<Rightarrow> string \<Rightarrow> string option \<Rightarrow> time_ms \<Rightarrow> time_ms \<Rightarrow> payment_row \<Rightarrow> bool" where
  "employer_payment_where userId sourceAddress assetCode assetIssuer st fin p \<longleftrightarrow>
     y_userId p = userId \<and> y_sourceAddress p = Some sourceAddress \<and> y_assetCode p = assetCode \<and> y_assetIssuer p = assetIssuer \<and>
     y_classification p = CL_INCOME \<and> y_isEligible p \<and> st \<le> y_occurredAt p \<and> y_occurredAt p < fin"

definition payment_still_income :: "ident \<Rightarrow> ident \<Rightarrow> proofs_db \<Rightarrow> bool" where
  "payment_still_income pid userId db \<longleftrightarrow>
     (case find_row (\<lambda>p. y_id p = pid \<and> y_userId p = userId) (payments (earn db)) of
        None \<Rightarrow> False | Some p \<Rightarrow> y_classification p = CL_INCOME \<and> y_isEligible p)"

record employer_payment_input =
  em_trustedSourceId :: ident
  em_assetCode :: string
  em_assetIssuer :: "string option"
  em_periodStart :: "time_ms option"
  em_periodEnd :: "time_ms option"
  em_expiresInDays :: "int option"

definition no_employer_payment :: http_error where
  "no_employer_payment = Unprocessable ''No eligible income payment from this employer source falls inside the requested period''"

text \<open>The checks the transaction repeats on the rows it locks.\<close>

definition employer_recheck ::
  "ident \<Rightarrow> ident \<Rightarrow> employer_resolution \<Rightarrow> ident option \<Rightarrow> ident \<Rightarrow> time_ms \<Rightarrow> proof_row \<Rightarrow> proofs_db \<Rightarrow> (http_error, proof_row) result" where
  "employer_recheck sourceId userId res attestationId paymentId now row db =
     (if \<not> employer_still_trusted sourceId userId res db then Inl (employerSourceError source_inactive)
      else if truthy attestationId \<and>
        \<not> (case find_row (\<lambda>a. Some (at_id a) = attestationId) (attestations db) of None \<Rightarrow> False | Some a \<Rightarrow> attestation_live now a)
      then Inl (employerSourceError source_inactive)
      else if \<not> payment_still_income paymentId userId db then Inl no_employer_payment
      else Inr row)"

definition employer_claim :: "proof_env \<Rightarrow> employer_resolution \<Rightarrow> employer_corroboration \<Rightarrow> string \<Rightarrow> proof_claim" where
  "employer_claim env res corroboration operationId =
     \<lparr>cl_operator = ''employer_payment'', cl_thresholdEncrypted = None, cl_frequency = None, cl_result = True,
      cl_disclosurePolicy = JObj [(''policyVersion'', JStr EMPLOYER_PAYMENT_POLICY_VERSION),
        (''employerIssuerId'', JStr (er_issuerId res)), (''corroboration'', JStr (corroboration_name corroboration)),
        (''paymentReferenceDigest'', JStr (keyedDigest env operationId)),
        hidden ''amountHidden'', hidden ''senderHidden'', hidden ''memoHidden'', hidden ''sourceTransactionsHidden'']\<rparr>"

definition createEmployerPaymentProof ::
  "proof_env \<Rightarrow> authenticated_user \<Rightarrow> employer_payment_input \<Rightarrow> ident \<Rightarrow> ident \<Rightarrow> time_ms \<Rightarrow> proofs_db \<Rightarrow> proofs_db
   \<Rightarrow> (http_error, issued) result \<times> proofs_db" where
  "createEmployerPaymentProof env user inp pid iid now db0 db =
     (case validateEmployerPaymentPeriod (em_periodStart inp) (em_periodEnd inp) now of
        Some violation \<Rightarrow> (Inl (BadRequest (employer_period_message violation)), db)
      | None \<Rightarrow>
        case resolveTrustedEmployer (a_id user) (em_trustedSourceId inp) db0 of Inl e \<Rightarrow> (Inl e, db) | Inr (sourceId, res) \<Rightarrow>
        let st = the (em_periodStart inp); fin = the (em_periodEnd inp);
            rows = take MAX_EMPLOYER_PAYMENT_CANDIDATES (sort_key (\<lambda>p. - y_occurredAt p) (sort_key y_operationId
              (find_many (employer_payment_where (a_id user) (er_sourceAddress res) (em_assetCode inp) (em_assetIssuer inp) st fin) (payments (earn db0)))));
            candidates = map (\<lambda>p. \<lparr>ek_id = y_id p, ek_operationId = y_operationId p, ek_occurredAt = y_occurredAt p\<rparr>) rows in
        if candidates = [] then (Inl no_employer_payment, db)
        else
          let byReference = (if er_isIssuerAccount res then []
                else findPaymentAttestations env (er_issuerId res) (a_walletHash user) (map ek_operationId candidates) now db0) in
          case selectEmployerPayment candidates (er_isIssuerAccount res) (set (map fst byReference)) (\<lambda>c. paymentReferenceHash env (ek_operationId c)) of
            None \<Rightarrow> (Inl (Unprocessable ''No payment from this source is corroborated by the linked issuer''), db)
          | Some (payment, corroboration) \<Rightarrow>
              let attestationId = (if corroboration = issuer_attestation
                    then map_of byReference (paymentReferenceHash env (ek_operationId payment)) else None);
                  h = user_head user pid (em_assetCode inp) (em_assetIssuer inp) now (em_expiresInDays inp);
                  credential = buildEmployerPaymentCredential h (er_issuerId res) (corroboration_name corroboration) st fin EMPLOYER_PAYMENT_POLICY_VERSION;
                  claim = employer_claim env res corroboration (ek_operationId payment);
                  row = new_proof env (a_id user) h PT_EMPLOYER_PAYMENT EMPLOYER_PAYMENT_SCHEMA_VERSION st fin credential claim
              in finish env (a_id user) True credential
                   (charged_tx env (a_id user) (em_assetCode inp) (em_assetIssuer inp)
                     (employer_recheck sourceId (a_id user) res attestationId (ek_id payment) now row) iid now db) db)"

record continuity_input =
  ct_trustedSourceId :: ident
  ct_assetCode :: string
  ct_assetIssuer :: "string option"
  ct_periodStart :: "time_ms option"
  ct_observedPeriods :: "int option"
  ct_expiresInDays :: "int option"

record continuity_row = continuity_payment +
  cr_id :: ident

definition continuityNotSatisfied :: http_error where
  "continuityNotSatisfied =
     Unprocessable ''Corroborated payments from this employer source do not satisfy the continuity policy for the requested window''"

text \<open>The counted payments that still qualify on the locked rows, and the rule evaluated on them again.\<close>

definition still_qualifying ::
  "ident \<Rightarrow> employer_resolution \<Rightarrow> (continuity_row \<Rightarrow> ident option) \<Rightarrow> time_ms \<Rightarrow> continuity_row list \<Rightarrow> proofs_db \<Rightarrow> continuity_row list" where
  "still_qualifying userId res attestationFor now included db =
     filter (\<lambda>p. payment_still_income (cr_id p) userId db \<and>
        (er_isIssuerAccount res \<or>
         (\<exists>a\<in>set (attestations db). Some (at_id a) = attestationFor p \<and> attestation_live now a))) included"

definition continuity_claim :: "proof_env \<Rightarrow> employer_resolution \<Rightarrow> continuity_window \<Rightarrow> continuity_row list \<Rightarrow> proof_claim" where
  "continuity_claim env res w counted =
     \<lparr>cl_operator = ''employment_continuity'', cl_thresholdEncrypted = None, cl_frequency = Some CONTINUITY_PERIOD_UNIT, cl_result = True,
      cl_disclosurePolicy =
        JObj [(''policyVersion'', JStr EMPLOYMENT_CONTINUITY_POLICY_VERSION), (''employerIssuerId'', JStr (er_issuerId res)),
              (''periodUnit'', JStr CONTINUITY_PERIOD_UNIT), (''observedPeriods'', JInt (w_periods w)),
              (''toleratedMissingPeriods'', JInt MAX_MISSING_CONTINUITY_PERIODS),
              (''includedPaymentsDigest'', JStr (keyedDigest env (join newline (map cp_operationId counted)))),
              hidden ''amountHidden'', hidden ''senderHidden'', hidden ''memoHidden'', hidden ''sourceTransactionsHidden'', hidden ''paymentDatesHidden'']\<rparr>"

definition continuity_recheck ::
  "proof_env \<Rightarrow> ident \<Rightarrow> ident \<Rightarrow> employer_resolution \<Rightarrow> (continuity_row \<Rightarrow> ident option) \<Rightarrow> continuity_window \<Rightarrow> time_ms
   \<Rightarrow> continuity_row list \<Rightarrow> (continuity_row list \<Rightarrow> proof_row) \<Rightarrow> proofs_db \<Rightarrow> (http_error, proof_row) result" where
  "continuity_recheck env sourceId userId res attestationFor w now included mk db =
     (if \<not> employer_still_trusted sourceId userId res db then Inl (employerSourceError source_inactive)
      else
        let locked = evaluateContinuity (still_qualifying userId res attestationFor now included db) w in
        if \<not> ce_continuous locked then Inl continuityNotSatisfied
        else Inr (mk (ce_includedPayments locked)))"

definition createEmploymentContinuityProof ::
  "proof_env \<Rightarrow> authenticated_user \<Rightarrow> continuity_input \<Rightarrow> ident \<Rightarrow> ident \<Rightarrow> time_ms \<Rightarrow> proofs_db \<Rightarrow> proofs_db
   \<Rightarrow> (http_error, issued) result \<times> proofs_db" where
  "createEmploymentContinuityProof env user inp pid iid now db0 db =
     (case buildContinuityWindow (ct_periodStart inp) (ct_observedPeriods inp) now of
        Inl violation \<Rightarrow> (Inl (BadRequest (continuity_window_message violation)), db)
      | Inr w \<Rightarrow>
        case resolveTrustedEmployer (a_id user) (ct_trustedSourceId inp) db0 of Inl e \<Rightarrow> (Inl e, db) | Inr (sourceId, res) \<Rightarrow>
        let rows = take (MAX_CONTINUITY_PAYMENTS + 1) (sort_key y_occurredAt (sort_key y_operationId
              (find_many (employer_payment_where (a_id user) (er_sourceAddress res) (ct_assetCode inp) (ct_assetIssuer inp) (w_start w) (w_end w)) (payments (earn db0)))));
            ps = map (\<lambda>p. \<lparr>cp_operationId = y_operationId p, cp_occurredAt = y_occurredAt p, cr_id = y_id p\<rparr>) rows in
        if length ps > MAX_CONTINUITY_PAYMENTS
        then (Inl (Unprocessable (''The window contains more than '' @ show_nat MAX_CONTINUITY_PAYMENTS @ '' payments; request a shorter window'')), db)
        else
          let byReference = (if er_isIssuerAccount res then []
                else findPaymentAttestations env (er_issuerId res) (a_walletHash user) (map cp_operationId ps) now db0);
              attestationFor = (\<lambda>p. map_of byReference (paymentReferenceHash env (cp_operationId p)));
              evaluation = evaluateContinuity (filter (\<lambda>p. er_isIssuerAccount res \<or> attestationFor p \<noteq> None) ps) w in
          if \<not> ce_continuous evaluation then (Inl continuityNotSatisfied, db)
          else
            let h = user_head user pid (ct_assetCode inp) (ct_assetIssuer inp) now (ct_expiresInDays inp);
                credential = buildEmploymentContinuityCredential h (er_issuerId res) (w_start w) (w_end w) CONTINUITY_PERIOD_UNIT (w_periods w)
                  MAX_MISSING_CONTINUITY_PERIODS EMPLOYMENT_CONTINUITY_POLICY_VERSION;
                row = (\<lambda>counted. new_proof env (a_id user) h PT_EMPLOYMENT_CONTINUITY EMPLOYMENT_CONTINUITY_SCHEMA_VERSION (w_start w) (w_end w) credential
                  (continuity_claim env res w counted))
            in finish env (a_id user) True credential
                 (charged_tx env (a_id user) (ct_assetCode inp) (ct_assetIssuer inp)
                   (continuity_recheck env sourceId (a_id user) res attestationFor w now (ce_includedPayments evaluation) row) iid now db) db)"

end
