(* ===== verification/IssuedProofs.thy ===== *)
theory IssuedProofs
  imports Issuance
begin

text \<open>
  What issuing a proof establishes: the row each \<open>create...Proof\<close> appends, that the credential rebuilt
  from it is the one that was returned, and what the database satisfied when it was written.
\<close>

subsection \<open>Facts\<close>

lemma revealThreshold_protect [simp]: "revealThreshold (Some (protectAmount s)) = s"
  by (simp add: revealThreshold_def protectAmount_def starts_with_def base64url_text)

lemma show_nat_no_leading_zero: "0 < n \<Longrightarrow> hd (show_nat n) \<noteq> CHR ''0''"
proof (induction n rule: show_nat.induct)
  case (1 n)
  have d: "digit_char k \<noteq> CHR ''0''" if "0 < k" "k < 10" for k
  proof -
    have "digit_val (digit_char k) = k" using that by (simp add: digit_val_char)
    moreover have "digit_val CHR ''0'' = 0" by (simp add: digit_val_def)
    ultimately show ?thesis using that by (metis less_numeral_extra(3))
  qed
  show ?case
  proof (cases "n < 10")
    case True
    with 1 show ?thesis using d by (subst show_nat.simps) simp
  next
    case False
    with 1 show ?thesis by (subst show_nat.simps) (simp add: hd_append)
  qed
qed

lemma revealCadence_show:
  assumes "1 \<le> n" "n \<le> 120"
  shows "revealCadence (Some (interval_name u @ '':'' @ show_nat n)) = Some (u, int n)"
proof -
  have "CHR '':'' \<notin> set (interval_name u)" by (cases u) simp_all
  moreover have "CHR '':'' \<notin> set (show_nat n)"
    by (rule show_nat_no_char) (simp add: is_digit_def)
  ultimately have "split_on CHR '':'' (interval_name u @ '':'' @ show_nat n) = [interval_name u, show_nat n]"
    by (simp add: split_on_sep split_on_absent)
  moreover have "hd (show_nat n) \<noteq> CHR ''0''" using assms by (intro show_nat_no_leading_zero) simp
  moreover have "find (\<lambda>x. interval_name x = interval_name u) [IU_day, IU_week, IU_month] = Some u" by (cases u) simp_all
  ultimately show ?thesis
    using assms all_digits_show_nat [of n] by (simp add: revealCadence_def)
qed

lemma head_of_new_proof [simp]:
  "head_of w (new_proof env uid h typ schema s e cred claim) = h\<lparr>ch_walletHash := w\<rparr>"
  by (simp add: head_of_def new_proof_def)

lemma head_of_policy [simp]:
  "head_of w (p\<lparr>pf_assetPolicyId := a, pf_assetPolicySnapshot := b\<rparr>) = head_of w p"
  by (simp add: head_of_def)

text \<open>A stored row whose hash is that of the credential rebuilt from it.\<close>

definition sound_row :: "proof_env \<Rightarrow> string \<Rightarrow> proof_row \<Rightarrow> json \<Rightarrow> bool" where
  "sound_row env w p credential \<longleftrightarrow>
     (case pf_claim p of None \<Rightarrow> False | Some c \<Rightarrow> rebuildCredential env w p c = credential \<and> pf_credentialHash p = credential_hash env credential)"

text \<open>What the transactions leave behind when they commit.\<close>

definition fresh_row :: "proof_row \<Rightarrow> ident \<Rightarrow> ident \<Rightarrow> time_ms \<Rightarrow> bool" where
  "fresh_row p pid uid expires \<longleftrightarrow>
     pf_id p = pid \<and> pf_userId p = uid \<and> pf_status p = PS_ACTIVE \<and> pf_expiresAt p = expires \<and>
     pf_contractTransactionHash p = None \<and> pf_supersedesId p = None \<and> pf_supersededAt p = None"

lemma fresh_new_proof [simp]:
  "fresh_row (new_proof env uid h typ schema s e cred claim) pid uid' expires \<longleftrightarrow> ch_id h = pid \<and> uid = uid' \<and> ch_expiresAt h = expires"
  by (auto simp: fresh_row_def new_proof_def)

lemma insert_proof_Inr:
  assumes "insert_proof r db = Inr db'"
  shows "db' = db\<lparr>proofs := proofs db @ [r]\<rparr>" "\<And>q. q \<in> set (proofs db) \<Longrightarrow> pf_id q \<noteq> pf_id r"
  using assms by (auto simp: insert_proof_def insert_row_def split: if_splits)

lemma register_intent_Inr:
  assumes "register_intent env iid pid now db = Inr db'"
  shows "proofs db' = proofs db" "auth db' = auth db" "earn db' = earn db" "quota_usage db' = quota_usage db"
    "attestations db' = attestations db" "settlements db' = settlements db"
  using assms by (auto simp: register_intent_def insert_intent_def split: if_splits)

lemma create_in_tx_Inr:
  assumes "create_in_tx env row iid now db = Inr db'"
  shows "proofs db' = proofs db @ [row]" "auth db' = auth db" "\<And>q. q \<in> set (proofs db) \<Longrightarrow> pf_id q \<noteq> pf_id row"
    "quota_usage db' = quota_usage db"
proof -
  obtain db1 where i: "insert_proof row db = Inr db1" "register_intent env iid (pf_id row) now db1 = Inr db'"
    using assms by (auto simp: create_in_tx_def split: sum.splits)
  show "proofs db' = proofs db @ [row]" "auth db' = auth db" "\<And>q. q \<in> set (proofs db) \<Longrightarrow> pf_id q \<noteq> pf_id row"
    "quota_usage db' = quota_usage db"
    using insert_proof_Inr [OF i(1)] register_intent_Inr [OF i(2)] by auto
qed

lemma charged_tx_Inr:
  assumes "charged_tx env uid code issuer mk iid now db = Inr (p, db')"
  obtains row a b where "mk db = Inr row" "p = row\<lparr>pf_assetPolicyId := a, pf_assetPolicySnapshot := b\<rparr>"
    "proofs db' = proofs db @ [p]" "auth db' = auth db" "\<And>q. q \<in> set (proofs db) \<Longrightarrow> pf_id q \<noteq> pf_id p"
    "\<exists>policy. requireActiveAssetPolicy env code issuer now db = Inr policy"
    "\<exists>org. consumeForUser (pe_limits env) uid Q_proof_requests now (organizations db) (quota_usage db) = (Inr org, quota_usage db')"
proof -
  obtain org usage policyId snapshot row where
    c: "consumeForUser (pe_limits env) uid Q_proof_requests now (organizations db) (quota_usage db) = (Inr org, usage)"
    "requireActiveAssetPolicy env code issuer now db = Inr (policyId, snapshot)" "mk db = Inr row"
    "create_in_tx env (row\<lparr>pf_assetPolicyId := Some policyId, pf_assetPolicySnapshot := Some snapshot\<rparr>) iid now (db\<lparr>quota_usage := usage\<rparr>) = Inr db'"
    "p = row\<lparr>pf_assetPolicyId := Some policyId, pf_assetPolicySnapshot := Some snapshot\<rparr>"
    using assms by (auto simp: charged_tx_def Let_def split: prod.splits sum.splits)
  from create_in_tx_Inr [OF c(4)] c show ?thesis by (intro that) auto
qed

text \<open>An issuance that succeeds: exactly one row is appended, sound for the owner's wallet.\<close>

definition issues ::
  "proof_env \<Rightarrow> authenticated_user \<Rightarrow> ident \<Rightarrow> time_ms \<Rightarrow> proofs_db \<Rightarrow> issued \<Rightarrow> proofs_db \<Rightarrow> bool" where
  "issues env user pid expires db resp db' \<longleftrightarrow>
     (\<exists>p credential. proofs db' = proofs db @ [p] \<and> auth db' = auth db \<and> fresh_row p pid (a_id user) expires \<and>
        sound_row env (a_walletHash user) p credential \<and> is_credential resp = signCredential env credential \<and>
        (\<forall>q\<in>set (proofs db). pf_id q \<noteq> pid))"

lemma finish_Inr:
  assumes "finish env uid emits credential tx db = (Inr resp, db')"
  obtains p db1 where "tx = Inr (p, db1)" "proofs db' = proofs db1" "auth db' = auth db1" "quota_usage db' = quota_usage db1"
    "is_credential resp = signCredential env credential"
  using assms by (cases tx) (auto simp: finish_def emitProofCreated_def emitWebhook_def issued_response_def split: if_splits)

lemma issues_charged:
  assumes "finish env (a_id user) emits credential (charged_tx env (a_id user) code issuer mk iid now db) db = (Inr resp, db')"
    and "\<And>row. mk db = Inr row \<Longrightarrow> fresh_row row pid (a_id user) expires"
    and "\<And>row a b. mk db = Inr row \<Longrightarrow>
      sound_row env (a_walletHash user) (row\<lparr>pf_assetPolicyId := a, pf_assetPolicySnapshot := b\<rparr>) credential"
  shows "issues env user pid expires db resp db'"
proof -
  obtain p db1 where f: "charged_tx env (a_id user) code issuer mk iid now db = Inr (p, db1)" "proofs db' = proofs db1" "auth db' = auth db1"
    "is_credential resp = signCredential env credential"
    using finish_Inr [OF assms(1)] by metis
  obtain row a b where c: "mk db = Inr row" "p = row\<lparr>pf_assetPolicyId := a, pf_assetPolicySnapshot := b\<rparr>"
    "proofs db1 = proofs db @ [p]" "auth db1 = auth db" "\<And>q. q \<in> set (proofs db) \<Longrightarrow> pf_id q \<noteq> pf_id p"
    using charged_tx_Inr [OF f(1)] by metis
  have "fresh_row p pid (a_id user) expires" using assms(2) [OF c(1)] by (simp add: c(2) fresh_row_def)
  with f c(3-5) assms(3) [OF c(1)] show ?thesis
    unfolding issues_def by (intro exI [of _ p] exI [of _ credential]) (auto simp: c(2) fresh_row_def)
qed

text \<open>The credential rebuilt from a new row is the credential it was created with, type by type.\<close>

lemma new_proof_fields [simp]:
  "pf_proofType (new_proof env uid h typ schema s e cred claim) = typ"
  "pf_periodStart (new_proof env uid h typ schema s e cred claim) = Some s"
  "pf_periodEnd (new_proof env uid h typ schema s e cred claim) = Some e"
  "pf_claim (new_proof env uid h typ schema s e cred claim) = Some claim"
  "pf_credentialHash (new_proof env uid h typ schema s e cred claim) = credential_hash env cred"
  by (simp_all add: new_proof_def)

lemmas rebuild_simps = sound_row_def rebuildCredential_def rebuildAggregateEarningsCredential_def rebuildPaymentReceiptCredential_def
  rebuildInvoiceSettlementCredential_def rebuildEmploymentContinuityCredential_def rebuildEmployerPaymentCredential_def
  qualifyingPaymentCount_def income_policy_def user_head_def policy_flag_def policy_occurredAt_def

abbreviation mi_head :: "authenticated_user \<Rightarrow> minimum_income_input \<Rightarrow> ident \<Rightarrow> time_ms \<Rightarrow> credential_head" where
  "mi_head user inp pid now \<equiv> user_head user pid (mi_assetCode inp) (mi_assetIssuer inp) now (mi_expiresInDays inp)"

lemma createMinimumIncomeProof_Inr:
  assumes "createMinimumIncomeProof env user inp pid iid now db0 db = (Inr resp, db')"
  obtains st fin ps tot threshold where
    "mi_periodStart inp = Some st" "mi_periodEnd inp = Some fin"
    "ps = selected_payments (a_id user) (uniq (mi_selectedPaymentIds inp)) db0" "length ps = length (uniq (mi_selectedPaymentIds inp))"
    "first_error (income_payment_error True (mi_assetCode inp) (mi_assetIssuer inp) (Some st) (Some fin)) ps = None"
    "sum_amounts env ps = Inr tot" "parseAmount (mi_thresholdAmount inp) = Some threshold" "threshold \<le> tot"
    "finish env (a_id user) True (buildCredential (mi_head user inp pid now) (mi_thresholdAmount inp) st fin (int (length ps)))
       (charged_tx env (a_id user) (mi_assetCode inp) (mi_assetIssuer inp)
         (\<lambda>_. Inr (new_proof env (a_id user) (mi_head user inp pid now) PT_MINIMUM_INCOME SCHEMA_VERSION st fin
           (buildCredential (mi_head user inp pid now) (mi_thresholdAmount inp) st fin (int (length ps)))
           (minimum_income_claim (mi_thresholdAmount inp) (int (length ps))))) iid now db) db = (Inr resp, db')"
  using assms by (auto simp: createMinimumIncomeProof_def Let_def split: if_splits option.splits sum.splits)

lemma createMinimumIncomeProof_issues:
  assumes "createMinimumIncomeProof env user inp pid iid now db0 db = (Inr resp, db')"
  shows "issues env user pid (expiry_of now (mi_expiresInDays inp)) db resp db'"
  by (rule createMinimumIncomeProof_Inr [OF assms], erule issues_charged)
    (auto simp: fresh_row_def new_proof_def minimum_income_claim_def rebuild_simps head_of_def)

lemma createIncomeRangeProof_Inr:
  assumes "createIncomeRangeProof env user inp pid iid now db0 db = (Inr resp, db')"
  defines "h \<equiv> user_head user pid (ir_assetCode inp) (ir_assetIssuer inp) now (ir_expiresInDays inp)"
  obtains st fin ps tot lower upper where
    "ir_periodStart inp = Some st" "ir_periodEnd inp = Some fin"
    "ps = selected_payments (a_id user) (uniq (ir_selectedPaymentIds inp)) db0" "length ps = length (uniq (ir_selectedPaymentIds inp))"
    "first_error (income_payment_error False (ir_assetCode inp) (ir_assetIssuer inp) (Some st) (Some fin)) ps = None"
    "sum_amounts env ps = Inr tot" "parseAmount (ir_lowerBound inp) = Some lower" "parseAmount (ir_upperBound inp) = Some upper"
    "lower \<le> tot" "tot \<le> upper" "lower < upper"
    "finish env (a_id user) True (buildIncomeRangeCredential h (ir_lowerBound inp) (ir_upperBound inp) st fin (int (length ps)))
       (charged_tx env (a_id user) (ir_assetCode inp) (ir_assetIssuer inp)
         (\<lambda>_. Inr (new_proof env (a_id user) h PT_INCOME_RANGE INCOME_RANGE_SCHEMA_VERSION st fin
           (buildIncomeRangeCredential h (ir_lowerBound inp) (ir_upperBound inp) st fin (int (length ps)))
           (income_range_claim (ir_lowerBound inp) (ir_upperBound inp) (int (length ps))))) iid now db) db = (Inr resp, db')"
  using assms(1) by (auto simp: createIncomeRangeProof_def Let_def h_def split: if_splits option.splits sum.splits)

lemma createIncomeRangeProof_issues:
  assumes "createIncomeRangeProof env user inp pid iid now db0 db = (Inr resp, db')"
  shows "issues env user pid (expiry_of now (ir_expiresInDays inp)) db resp db'"
  by (rule createIncomeRangeProof_Inr [OF assms], erule issues_charged)
    (auto simp: fresh_row_def new_proof_def income_range_claim_def rebuild_simps head_of_def)

lemma createRecurringIncomeProof_issues:
  assumes "createRecurringIncomeProof env user inp pid iid now db0 db = (Inr resp, db')" "1 \<le> rc_intervalCount inp" "rc_intervalCount inp \<le> 120"
  shows "issues env user pid (expiry_of now (rc_expiresInDays inp)) db resp db'"
proof -
  let ?h = "user_head user pid (rc_assetCode inp) (rc_assetIssuer inp) now (rc_expiresInDays inp)"
  let ?cadence = "interval_name (rc_intervalUnit inp) @ '':'' @ show_nat (rc_intervalCount inp)"
  obtain st fin n where f: "finish env (a_id user) False (buildRecurringIncomeCredential ?h ?cadence (rc_intervalUnit inp) (int (rc_intervalCount inp)) st fin n)
       (charged_tx env (a_id user) (rc_assetCode inp) (rc_assetIssuer inp)
         (\<lambda>_. Inr (new_proof env (a_id user) ?h PT_RECURRING_INCOME RECURRING_INCOME_SCHEMA_VERSION st fin
           (buildRecurringIncomeCredential ?h ?cadence (rc_intervalUnit inp) (int (rc_intervalCount inp)) st fin n)
           (recurring_claim ?cadence (rc_intervalUnit inp) (rc_intervalCount inp) n))) iid now db) db = (Inr resp, db')"
    using assms(1) by (auto simp: createRecurringIncomeProof_def Let_def split: if_splits option.splits sum.splits)
  show ?thesis
    using revealCadence_show [OF assms(2,3), of "rc_intervalUnit inp"]
    by (intro issues_charged [OF f]) (auto simp: fresh_row_def new_proof_def recurring_claim_def rebuild_simps head_of_def)
qed

text \<open>A disclosed value, and how it reappears when the row is read back.\<close>

lemma disclose_Inr:
  assumes "disclose is_hidden r = Inr v"
  obtains "is_hidden" "v = None" | s where "\<not> is_hidden" "r = Inr s" "v = Some s"
  using assms by (auto simp: disclose_def split: if_splits)

lemma revealPaymentAmount_Inr:
  "revealPaymentAmount env enc = Inr s \<Longrightarrow> revealPaymentAmountForVerification env enc = s"
  by (auto simp: revealPaymentAmount_def revealPaymentAmountForVerification_def split: option.splits if_splits)

lemma receipt_sound:
  assumes "disclose sh (revealPaymentSender env p) = Inr src" "disclose ah (revealPaymentAmount env (y_amountEncrypted p)) = Inr amt"
    and dt: "pe_parseDate env (toISOString (y_occurredAt p)) = Some (y_occurredAt p)"
  shows "sound_row env (ch_walletHash h) ((new_proof env uid h PT_PAYMENT_RECEIPT PAYMENT_RECEIPT_SCHEMA_VERSION (y_occurredAt p) (y_occurredAt p)
     (buildPaymentReceiptCredential h (y_occurredAt p) ref sh ah src amt) (receipt_claim p ref sh ah src))\<lparr>pf_assetPolicyId := a, pf_assetPolicySnapshot := b\<rparr>)
     (buildPaymentReceiptCredential h (y_occurredAt p) ref sh ah src amt)"
proof -
  have "amt = (if ah then None else Some (revealPaymentAmountForVerification env (y_amountEncrypted p)))"
    by (rule disclose_Inr [OF assms(2)]) (auto dest: revealPaymentAmount_Inr)
  moreover have "sh \<Longrightarrow> src = None" "\<not> sh \<Longrightarrow> \<exists>s. src = Some s" by (rule disclose_Inr [OF assms(1)]; simp)+
  ultimately show ?thesis
    using dt by (cases sh; cases ah) (auto simp: rebuild_simps receipt_claim_def opt_entry_def buildPaymentReceiptCredential_def)
qed

lemma createPaymentReceiptProof_issues:
  assumes "createPaymentReceiptProof env user inp pid iid now db0 db = (Inr resp, db')"
    and date: "\<And>p. p \<in> set (payments (earn db0)) \<Longrightarrow> pe_parseDate env (toISOString (y_occurredAt p)) = Some (y_occurredAt p)"
  shows "issues env user pid (expiry_of now (pr_expiresInDays inp)) db resp db'"
proof -
  define sh where "sh = (pr_discloseSender inp \<noteq> Some True)"
  define ah where "ah = (pr_discloseAmount inp \<noteq> Some True)"
  obtain p where p: "find_row (\<lambda>p. y_id p = pr_paymentId inp \<and> y_userId p = a_id user) (payments (earn db0)) = Some p"
    using assms(1) by (auto simp: createPaymentReceiptProof_def split: option.splits)
  define h where "h = user_head user pid (y_assetCode p) (y_assetIssuer p) now (pr_expiresInDays inp)"
  define ref where "ref = ''sha256:'' @ pe_sha256 env (y_operationId p)"
  obtain src amt where d: "disclose sh (revealPaymentSender env p) = Inr src" "disclose ah (revealPaymentAmount env (y_amountEncrypted p)) = Inr amt"
    and f: "finish env (a_id user) True (buildPaymentReceiptCredential h (y_occurredAt p) ref sh ah src amt)
       (charged_tx env (a_id user) (y_assetCode p) (y_assetIssuer p)
         (\<lambda>_. Inr (new_proof env (a_id user) h PT_PAYMENT_RECEIPT PAYMENT_RECEIPT_SCHEMA_VERSION (y_occurredAt p) (y_occurredAt p)
           (buildPaymentReceiptCredential h (y_occurredAt p) ref sh ah src amt) (receipt_claim p ref sh ah src))) iid now db) db = (Inr resp, db')"
    using assms(1) p unfolding createPaymentReceiptProof_def Let_def sh_def ah_def h_def ref_def
    by (simp split: if_splits sum.splits)
  have "pe_parseDate env (toISOString (y_occurredAt p)) = Some (y_occurredAt p)"
    using p by (intro date) (auto dest: find_row_Some)
  note sound = receipt_sound [OF d this, where h = h and uid = "a_id user" and ref = ref]
  have h: "ch_walletHash h = a_walletHash user" "ch_id h = pid" "ch_expiresAt h = expiry_of now (pr_expiresInDays inp)"
    by (simp_all add: h_def user_head_def)
  show ?thesis
    using sound unfolding h by (intro issues_charged [OF f]) (auto simp: h)
qed

lemma issues_created:
  assumes "finish env (a_id user) emits credential tx db = (Inr resp, db')"
    and "\<And>p db1. tx = Inr (p, db1) \<Longrightarrow> p = row \<and> proofs db1 = proofs db @ [row] \<and> auth db1 = auth db \<and> (\<forall>q\<in>set (proofs db). pf_id q \<noteq> pf_id row)"
    and "fresh_row row pid (a_id user) expires" "sound_row env (a_walletHash user) row credential"
  shows "issues env user pid expires db resp db'"
proof -
  obtain p db1 where "tx = Inr (p, db1)" "proofs db' = proofs db1" "auth db' = auth db1" "is_credential resp = signCredential env credential"
    using finish_Inr [OF assms(1)] by metis
  with assms(2) [of p db1] assms(3,4) show ?thesis
    unfolding issues_def by (intro exI [of _ row] exI [of _ credential]) (auto simp: fresh_row_def)
qed

lemma invoice_tx_Inr:
  assumes "invoice_tx env row st iid now db = Inr (p, db1)"
  shows "p = row" "proofs db1 = proofs db @ [row]" "auth db1 = auth db" "\<forall>q\<in>set (proofs db). pf_id q \<noteq> pf_id row"
    "settlements db1 = settlements db @ [st]" "\<forall>q\<in>set (settlements db). se_paymentId q \<noteq> se_paymentId st"
    "\<forall>q\<in>set (settlements db). \<not> (se_issuerId q = se_issuerId st \<and> se_invoiceReferenceHash q = se_invoiceReferenceHash st)"
proof -
  obtain da where i1: "insert_proof row db = Inr da"
    using assms unfolding invoice_tx_def by (cases "insert_proof row db") simp_all
  obtain ss where i2: "insert_settlement st (settlements da) = Inr ss"
    using assms unfolding invoice_tx_def i1 by (cases "insert_settlement st (settlements da)") simp_all
  have i3: "register_intent env iid (pf_id row) now (da\<lparr>settlements := ss\<rparr>) = Inr db1" "p = row"
    using assms unfolding invoice_tx_def i1 i2 sum.case by (cases "register_intent env iid (pf_id row) now (da\<lparr>settlements := ss\<rparr>)"; simp)+
  note i = i1 i2 i3
  note a = insert_proof_Inr [OF i(1)] and r = register_intent_Inr [OF i(3)]
  show "p = row" by (rule i(4))
  have da: "proofs da = proofs db @ [row]" "auth da = auth db" "settlements da = settlements db" by (simp_all add: a(1))
  show "proofs db1 = proofs db @ [row]" "auth db1 = auth db" using r(1,2) da by simp_all
  show "\<forall>q\<in>set (proofs db). pf_id q \<noteq> pf_id row" using a(2) by blast
  have ss: "ss = settlements db @ [st]" "\<forall>q\<in>set (settlements db). se_paymentId q \<noteq> se_paymentId st"
    "\<forall>q\<in>set (settlements db). \<not> (se_issuerId q = se_issuerId st \<and> se_invoiceReferenceHash q = se_invoiceReferenceHash st)"
    using i(2) unfolding insert_settlement_def da(3) by (auto simp: insert_row_def split: if_split_asm)
  then show "settlements db1 = settlements db @ [st]" using r(6) by simp
  show "\<forall>q\<in>set (settlements db). se_paymentId q \<noteq> se_paymentId st"
    "\<forall>q\<in>set (settlements db). \<not> (se_issuerId q = se_issuerId st \<and> se_invoiceReferenceHash q = se_invoiceReferenceHash st)"
    using ss by simp_all
qed

lemma createInvoiceSettlementProof_Inr:
  assumes "createInvoiceSettlementProof env user inp pid iid now db0 db = (Inr resp, db')"
  defines "ah \<equiv> (iv_discloseAmount inp \<noteq> Some True)"
  defines "ref \<equiv> ''sha256:'' @ pe_sha256 env (normalizeInvoiceReference (iv_invoiceReference inp))"
  obtains p amt expected where "p \<in> set (payments (earn db0))" "y_userId p = a_id user" "y_isEligible p" "y_classification p \<noteq> CL_EXCLUDED"
    "parseAmount (iv_expectedAmount inp) = Some expected" "tryRevealProtectedAmount env (y_amountEncrypted p) = Some expected"
    "disclose ah (revealPaymentAmount env (y_amountEncrypted p)) = Inr amt"
    "finish env (a_id user) True
       (buildInvoiceSettlementCredential (user_head user pid (y_assetCode p) (y_assetIssuer p) now (iv_expiresInDays inp)) (iv_issuerId inp) (y_occurredAt p) ref ah amt)
       (invoice_tx env (new_proof env (a_id user) (user_head user pid (y_assetCode p) (y_assetIssuer p) now (iv_expiresInDays inp))
           PT_INVOICE_SETTLEMENT INVOICE_SETTLEMENT_SCHEMA_VERSION (y_occurredAt p) (y_occurredAt p)
           (buildInvoiceSettlementCredential (user_head user pid (y_assetCode p) (y_assetIssuer p) now (iv_expiresInDays inp)) (iv_issuerId inp) (y_occurredAt p) ref ah amt)
           (settlement_claim p ref (iv_issuerId inp) ah))
         \<lparr>se_proofId = pid, se_paymentId = y_id p, se_issuerId = iv_issuerId inp, se_invoiceReferenceHash = ref\<rparr> iid now db) db = (Inr resp, db')"
proof -
  define sources where "sources = find_many (\<lambda>s. ts_userId s = a_id user \<and> ts_issuerId s = Some (iv_issuerId inp) \<and> ts_status s = RS_ACTIVE) (trusted_sources (earn db0))"
  define candidates where "candidates = find_many (invoice_candidate user inp (map ts_sourceAddress sources) db0) (payments (earn db0))"
  obtain p amt expected where
    e: "parseAmount (iv_expectedAmount inp) = Some expected"
      "filter (\<lambda>p. tryRevealProtectedAmount env (y_amountEncrypted p) = Some expected) candidates = [p]"
      "disclose ah (revealPaymentAmount env (y_amountEncrypted p)) = Inr amt"
    and f: "finish env (a_id user) True
       (buildInvoiceSettlementCredential (user_head user pid (y_assetCode p) (y_assetIssuer p) now (iv_expiresInDays inp)) (iv_issuerId inp) (y_occurredAt p) ref ah amt)
       (invoice_tx env (new_proof env (a_id user) (user_head user pid (y_assetCode p) (y_assetIssuer p) now (iv_expiresInDays inp))
           PT_INVOICE_SETTLEMENT INVOICE_SETTLEMENT_SCHEMA_VERSION (y_occurredAt p) (y_occurredAt p)
           (buildInvoiceSettlementCredential (user_head user pid (y_assetCode p) (y_assetIssuer p) now (iv_expiresInDays inp)) (iv_issuerId inp) (y_occurredAt p) ref ah amt)
           (settlement_claim p ref (iv_issuerId inp) ah))
         \<lparr>se_proofId = pid, se_paymentId = y_id p, se_issuerId = iv_issuerId inp, se_invoiceReferenceHash = ref\<rparr> iid now db) db = (Inr resp, db')"
    using assms(1) unfolding createInvoiceSettlementProof_def Let_def ah_def ref_def sources_def [symmetric] candidates_def [symmetric]
    by (simp split: if_split_asm option.split_asm list.split_asm sum.split_asm)
  from e(2) have "p \<in> set (filter (\<lambda>p. tryRevealProtectedAmount env (y_amountEncrypted p) = Some expected) candidates)" by simp
  then have p: "tryRevealProtectedAmount env (y_amountEncrypted p) = Some expected" "p \<in> set candidates" by auto
  have "p \<in> set (payments (earn db0))" "y_userId p = a_id user" "y_isEligible p" "y_classification p \<noteq> CL_EXCLUDED"
    using p(2) by (auto simp: candidates_def find_many_def invoice_candidate_def)
  from that [OF this e(1) p(1) e(3) f] show ?thesis .
qed

lemma settlement_sound:
  assumes "disclose ah (revealPaymentAmount env (y_amountEncrypted p)) = Inr amt"
    and dt: "pe_parseDate env (toISOString (y_occurredAt p)) = Some (y_occurredAt p)"
  shows "sound_row env (ch_walletHash h) (new_proof env uid h PT_INVOICE_SETTLEMENT INVOICE_SETTLEMENT_SCHEMA_VERSION (y_occurredAt p) (y_occurredAt p)
     (buildInvoiceSettlementCredential h issuer (y_occurredAt p) ref ah amt) (settlement_claim p ref issuer ah))
     (buildInvoiceSettlementCredential h issuer (y_occurredAt p) ref ah amt)"
proof -
  have "amt = (if ah then None else Some (revealPaymentAmountForVerification env (y_amountEncrypted p)))"
    by (rule disclose_Inr [OF assms(1)]) (auto dest: revealPaymentAmount_Inr)
  then show ?thesis
    using dt by (cases ah) (auto simp: rebuild_simps settlement_claim_def)
qed

lemma createInvoiceSettlementProof_issues:
  assumes "createInvoiceSettlementProof env user inp pid iid now db0 db = (Inr resp, db')"
    and date: "\<And>p. p \<in> set (payments (earn db0)) \<Longrightarrow> pe_parseDate env (toISOString (y_occurredAt p)) = Some (y_occurredAt p)"
  shows "issues env user pid (expiry_of now (iv_expiresInDays inp)) db resp db'"
proof (rule createInvoiceSettlementProof_Inr [OF assms(1)])
  fix p :: payment_row and amt :: "string option" and expected :: int
  let ?h = "user_head user pid (y_assetCode p) (y_assetIssuer p) now (iv_expiresInDays inp)"
  let ?ref = "''sha256:'' @ pe_sha256 env (normalizeInvoiceReference (iv_invoiceReference inp))"
  let ?ah = "iv_discloseAmount inp \<noteq> Some True"
  let ?cred = "buildInvoiceSettlementCredential ?h (iv_issuerId inp) (y_occurredAt p) ?ref ?ah amt"
  let ?row = "new_proof env (a_id user) ?h PT_INVOICE_SETTLEMENT INVOICE_SETTLEMENT_SCHEMA_VERSION (y_occurredAt p) (y_occurredAt p) ?cred
    (settlement_claim p ?ref (iv_issuerId inp) ?ah)"
  assume p: "p \<in> set (payments (earn db0))" and d: "disclose ?ah (revealPaymentAmount env (y_amountEncrypted p)) = Inr amt"
    and f: "finish env (a_id user) True ?cred (invoice_tx env ?row
      \<lparr>se_proofId = pid, se_paymentId = y_id p, se_issuerId = iv_issuerId inp, se_invoiceReferenceHash = ?ref\<rparr> iid now db) db = (Inr resp, db')"
  have h: "ch_walletHash ?h = a_walletHash user" "ch_id ?h = pid" "ch_expiresAt ?h = expiry_of now (iv_expiresInDays inp)"
    by (simp_all add: user_head_def)
  show ?thesis
    using settlement_sound [OF d date [OF p], of ?h "a_id user" "iv_issuerId inp" ?ref] unfolding h
    by (intro issues_created [OF f, where row = ?row]) (auto simp: h dest: invoice_tx_Inr)
qed

lemma createAggregateEarningsProof_issues:
  assumes "createAggregateEarningsProof env user inp pid iid now db0 db = (Inr resp, db')"
  shows "issues env user pid (expiry_of now (ag_expiresInDays inp)) db resp db'"
proof -
  define scope where "scope = nullish (ag_sourceScope inp) Scope_income"
  define inc where "inc = nullish (ag_roundingIncrement inp) DEFAULT_ROUNDING_INCREMENT"
  let ?h = "\<lambda>c. user_head user pid (as_code (ec_asset c)) (as_issuer (ec_asset c)) now (ag_expiresInDays inp)"
  let ?cred = "\<lambda>c. buildAggregateEarningsCredential (?h c) (ec_disclosedAmount c) (increment_text inc) (pd_start (ec_period c)) (pd_end (ec_period c))
    (scope_name scope) (int (ec_paymentCount c)) AGGREGATE_EARNINGS_POLICY_VERSION"
  let ?row = "\<lambda>c. new_proof env (a_id user) (?h c) PT_AGGREGATE_EARNINGS AGGREGATE_EARNINGS_SCHEMA_VERSION (pd_start (ec_period c)) (pd_end (ec_period c))
    (?cred c) (aggregate_claim c inc scope)"
  obtain c where f: "finish env (a_id user) True (?cred c) (map_sum id (\<lambda>db'. (?row c, db')) (create_in_tx env (?row c) iid now db)) db = (Inr resp, db')"
    using assms unfolding createAggregateEarningsProof_def Let_def scope_def [symmetric] inc_def [symmetric]
    by (simp split: if_split_asm sum.split_asm)
  have "scope_name scope \<in> set SOURCE_SCOPES" by (cases scope) (simp_all add: SOURCE_SCOPES_def)
  moreover have "increment_text inc \<in> set ROUNDING_INCREMENTS" by (cases inc) (simp_all add: ROUNDING_INCREMENTS_def)
  ultimately have "sound_row env (a_walletHash user) (?row c) (?cred c)"
    by (simp add: rebuild_simps aggregate_claim_def one_of_def)
  then show ?thesis
    by (intro issues_created [OF f, where row = "?row c"]) (auto simp: user_head_def dest: create_in_tx_Inr)
qed

lemma employer_recheck_Inr:
  assumes "employer_recheck sourceId uid res att paymentId now row db = Inr r"
  shows "r = row" "employer_still_trusted sourceId uid res db" "payment_still_income paymentId uid db"
    "truthy att \<Longrightarrow> \<exists>a\<in>set (attestations db). Some (at_id a) = att \<and> attestation_live now a"
  using assms by (auto simp: employer_recheck_def split: if_splits option.splits dest!: find_row_Some)

lemma createEmployerPaymentProof_Inr:
  assumes "createEmployerPaymentProof env user inp pid iid now db0 db = (Inr resp, db')"
  defines "h \<equiv> user_head user pid (em_assetCode inp) (em_assetIssuer inp) now (em_expiresInDays inp)"
  obtains st fin sourceId res and payment :: employer_candidate and corroboration attestationId where
    "em_periodStart inp = Some st" "em_periodEnd inp = Some fin" "st < fin" "fin \<le> now"
    "resolveTrustedEmployer (a_id user) (em_trustedSourceId inp) db0 = Inr (sourceId, res)"
    "er_isIssuerAccount res \<or> (\<exists>a. attestationId = Some a)"
    "\<exists>p\<in>set (payments (earn db0)). y_id p = ek_id payment \<and>
       employer_payment_where (a_id user) (er_sourceAddress res) (em_assetCode inp) (em_assetIssuer inp) st fin p"
    "finish env (a_id user) True (buildEmployerPaymentCredential h (er_issuerId res) (corroboration_name corroboration) st fin EMPLOYER_PAYMENT_POLICY_VERSION)
       (charged_tx env (a_id user) (em_assetCode inp) (em_assetIssuer inp)
         (employer_recheck sourceId (a_id user) res attestationId (ek_id payment) now
           (new_proof env (a_id user) h PT_EMPLOYER_PAYMENT EMPLOYER_PAYMENT_SCHEMA_VERSION st fin
             (buildEmployerPaymentCredential h (er_issuerId res) (corroboration_name corroboration) st fin EMPLOYER_PAYMENT_POLICY_VERSION)
             (employer_claim env res corroboration (ek_operationId payment)))) iid now db) db = (Inr resp, db')"
proof -
  obtain st fin where v: "em_periodStart inp = Some st" "em_periodEnd inp = Some fin" "st < fin" "fin \<le> now"
    "validateEmployerPaymentPeriod (em_periodStart inp) (em_periodEnd inp) now = None"
    using assms(1) by (auto simp: createEmployerPaymentProof_def validateEmployerPaymentPeriod_def split: option.splits if_splits)
  obtain sourceId res where r: "resolveTrustedEmployer (a_id user) (em_trustedSourceId inp) db0 = Inr (sourceId, res)"
    using assms(1) v(5) by (auto simp: createEmployerPaymentProof_def split: sum.splits)
  define rows where "rows = take MAX_EMPLOYER_PAYMENT_CANDIDATES (sort_key (\<lambda>p. - y_occurredAt p) (sort_key y_operationId
    (find_many (employer_payment_where (a_id user) (er_sourceAddress res) (em_assetCode inp) (em_assetIssuer inp) st fin) (payments (earn db0)))))"
  define cs where "cs = map (\<lambda>p. \<lparr>ek_id = y_id p, ek_operationId = y_operationId p, ek_occurredAt = y_occurredAt p\<rparr>) rows"
  define refs where "refs = (if er_isIssuerAccount res then []
    else findPaymentAttestations env (er_issuerId res) (a_walletHash user) (map ek_operationId cs) now db0)"
  let ?ref = "\<lambda>c :: employer_candidate. paymentReferenceHash env (ek_operationId c)"
  obtain payment corroboration where sel: "selectEmployerPayment cs (er_isIssuerAccount res) (set (map fst refs)) ?ref = Some (payment, corroboration)"
    and f: "finish env (a_id user) True (buildEmployerPaymentCredential h (er_issuerId res) (corroboration_name corroboration) st fin EMPLOYER_PAYMENT_POLICY_VERSION)
       (charged_tx env (a_id user) (em_assetCode inp) (em_assetIssuer inp)
         (employer_recheck sourceId (a_id user) res (if corroboration = issuer_attestation then map_of refs (?ref payment) else None) (ek_id payment) now
           (new_proof env (a_id user) h PT_EMPLOYER_PAYMENT EMPLOYER_PAYMENT_SCHEMA_VERSION st fin
             (buildEmployerPaymentCredential h (er_issuerId res) (corroboration_name corroboration) st fin EMPLOYER_PAYMENT_POLICY_VERSION)
             (employer_claim env res corroboration (ek_operationId payment)))) iid now db) db = (Inr resp, db')"
    using assms(1) unfolding createEmployerPaymentProof_def Let_def v(5) option.case r sum.case prod.case h_def v(1,2) option.sel
      rows_def [symmetric] cs_def [symmetric] refs_def [symmetric]
    by (simp split: if_split_asm option.split_asm prod.split_asm)
  have s: "payment \<in> set cs" "corroborated (er_isIssuerAccount res) (set (map fst refs)) ?ref payment"
    "corroboration = (if er_isIssuerAccount res then issuer_account else issuer_attestation)"
    using first_corroborated_spec [OF order_sorted, of cs "er_isIssuerAccount res" "set (map fst refs)" ?ref] sel
    by (auto simp: selectEmployerPayment_def)
  from s(1) have p: "\<exists>p\<in>set (payments (earn db0)). y_id p = ek_id payment \<and>
       employer_payment_where (a_id user) (er_sourceAddress res) (em_assetCode inp) (em_assetIssuer inp) st fin p"
    by (auto simp: cs_def rows_def find_many_def dest!: in_set_takeD)
  have a: "er_isIssuerAccount res \<or> (\<exists>a. (if corroboration = issuer_attestation then map_of refs (?ref payment) else None) = Some a)"
    using s(2,3) by (auto simp: corroborated_def dest: weak_map_of_SomeI)
  show ?thesis by (rule that [OF v(1-4) r a p f])
qed

lemma createEmployerPaymentProof_issues:
  assumes "createEmployerPaymentProof env user inp pid iid now db0 db = (Inr resp, db')"
  shows "issues env user pid (expiry_of now (em_expiresInDays inp)) db resp db'"
proof (rule createEmployerPaymentProof_Inr [OF assms])
  fix st fin sourceId and res :: employer_resolution and payment :: employer_candidate and corroboration attestationId
  let ?h = "user_head user pid (em_assetCode inp) (em_assetIssuer inp) now (em_expiresInDays inp)"
  assume f: "finish env (a_id user) True (buildEmployerPaymentCredential ?h (er_issuerId res) (corroboration_name corroboration) st fin EMPLOYER_PAYMENT_POLICY_VERSION)
       (charged_tx env (a_id user) (em_assetCode inp) (em_assetIssuer inp)
         (employer_recheck sourceId (a_id user) res attestationId (ek_id payment) now
           (new_proof env (a_id user) ?h PT_EMPLOYER_PAYMENT EMPLOYER_PAYMENT_SCHEMA_VERSION st fin
             (buildEmployerPaymentCredential ?h (er_issuerId res) (corroboration_name corroboration) st fin EMPLOYER_PAYMENT_POLICY_VERSION)
             (employer_claim env res corroboration (ek_operationId payment)))) iid now db) db = (Inr resp, db')"
  show ?thesis
    by (rule issues_charged [OF f]; drule employer_recheck_Inr(1); cases corroboration)
      (simp_all add: employer_claim_def rebuild_simps)
qed

lemma continuity_recheck_Inr:
  assumes "continuity_recheck env sourceId uid res att w now included mk db = Inr r"
  shows "\<exists>counted. r = mk counted" "employer_still_trusted sourceId uid res db"
    "ce_continuous (evaluateContinuity (still_qualifying uid res att now included db) w)"
  using assms by (auto simp: continuity_recheck_def Let_def split: if_splits)

lemma createEmploymentContinuityProof_Inr:
  assumes "createEmploymentContinuityProof env user inp pid iid now db0 db = (Inr resp, db')"
  defines "h \<equiv> user_head user pid (ct_assetCode inp) (ct_assetIssuer inp) now (ct_expiresInDays inp)"
  obtains w sourceId res att included where
    "buildContinuityWindow (ct_periodStart inp) (ct_observedPeriods inp) now = Inr w"
    "resolveTrustedEmployer (a_id user) (ct_trustedSourceId inp) db0 = Inr (sourceId, res)"
    "finish env (a_id user) True (buildEmploymentContinuityCredential h (er_issuerId res) (w_start w) (w_end w) CONTINUITY_PERIOD_UNIT (w_periods w)
         MAX_MISSING_CONTINUITY_PERIODS EMPLOYMENT_CONTINUITY_POLICY_VERSION)
       (charged_tx env (a_id user) (ct_assetCode inp) (ct_assetIssuer inp)
         (continuity_recheck env sourceId (a_id user) res att w now included
           (\<lambda>counted. new_proof env (a_id user) h PT_EMPLOYMENT_CONTINUITY EMPLOYMENT_CONTINUITY_SCHEMA_VERSION (w_start w) (w_end w)
             (buildEmploymentContinuityCredential h (er_issuerId res) (w_start w) (w_end w) CONTINUITY_PERIOD_UNIT (w_periods w)
               MAX_MISSING_CONTINUITY_PERIODS EMPLOYMENT_CONTINUITY_POLICY_VERSION) (continuity_claim env res w counted))) iid now db) db = (Inr resp, db')"
proof -
  obtain w where w: "buildContinuityWindow (ct_periodStart inp) (ct_observedPeriods inp) now = Inr w"
    using assms(1) by (auto simp: createEmploymentContinuityProof_def split: sum.splits)
  obtain sourceId res where r: "resolveTrustedEmployer (a_id user) (ct_trustedSourceId inp) db0 = Inr (sourceId, res)"
    using assms(1) w by (auto simp: createEmploymentContinuityProof_def split: sum.splits)
  show ?thesis
    using assms(1) unfolding createEmploymentContinuityProof_def Let_def w r sum.case prod.case h_def [symmetric]
    by (auto intro: that [OF w r] split: if_split_asm)
qed

lemma createEmploymentContinuityProof_issues:
  assumes "createEmploymentContinuityProof env user inp pid iid now db0 db = (Inr resp, db')"
  shows "issues env user pid (expiry_of now (ct_expiresInDays inp)) db resp db'"
proof (rule createEmploymentContinuityProof_Inr [OF assms])
  fix w :: continuity_window and sourceId and res :: employer_resolution and att included
  let ?h = "user_head user pid (ct_assetCode inp) (ct_assetIssuer inp) now (ct_expiresInDays inp)"
  let ?cred = "buildEmploymentContinuityCredential ?h (er_issuerId res) (w_start w) (w_end w) CONTINUITY_PERIOD_UNIT (w_periods w)
         MAX_MISSING_CONTINUITY_PERIODS EMPLOYMENT_CONTINUITY_POLICY_VERSION"
  assume f: "finish env (a_id user) True ?cred
       (charged_tx env (a_id user) (ct_assetCode inp) (ct_assetIssuer inp)
         (continuity_recheck env sourceId (a_id user) res att w now included
           (\<lambda>counted. new_proof env (a_id user) ?h PT_EMPLOYMENT_CONTINUITY EMPLOYMENT_CONTINUITY_SCHEMA_VERSION (w_start w) (w_end w)
             ?cred (continuity_claim env res w counted))) iid now db) db = (Inr resp, db')"
  show ?thesis
    by (rule issues_charged [OF f]; drule continuity_recheck_Inr(1); elim exE)
      (simp_all add: continuity_claim_def rebuild_simps)
qed

end
