(* ===== verification/AbuseLimiter.thy ===== *)
theory AbuseLimiter
  imports Store "HOL-Library.AList"
begin

text \<open>
  The verification budgets of \<open>common/rate-limit/proof-verification-abuse.service.ts\<close>: how many distinct
  proofs a client may ask for, and how often it may repeat one, within a sliding window.  The keys are
  HMACs of the client address and the proof id; the MAC is a parameter.
\<close>

record abuse_config =
  ab_windowMs :: int
  ab_unknownLimit :: nat
  ab_repeatedLimit :: nat
  ab_distinctClientLimit :: nat
  ab_hash :: "string \<Rightarrow> string"

record abuse_state =
  ab_repeated :: "(string \<times> time_ms list) list"
  ab_distinct :: "(string \<times> (string \<times> time_ms) list) list"

definition limited :: http_error where
  "limited = TooManyRequests ''Verification temporarily unavailable'' 0"

definition client_key :: "abuse_config \<Rightarrow> string option \<Rightarrow> string" where
  "client_key c ip = ab_hash c (nullish ip ''unknown-client'')"

definition checkClientCardinality ::
  "abuse_config \<Rightarrow> string option \<Rightarrow> ident \<Rightarrow> time_ms \<Rightarrow> abuse_state \<Rightarrow> (http_error, unit) result \<times> abuse_state" where
  "checkClientCardinality c ip proofId now st =
     (let clientKey = client_key c ip; proofKey = ab_hash c (take 256 proofId);
          known = map_of (ab_distinct st) clientKey;
          entries = filter (\<lambda>e. \<not> snd e + ab_windowMs c \<le> now) (nullish known []);
          kept = (case known of None \<Rightarrow> st | Some _ \<Rightarrow> st\<lparr>ab_distinct := AList.update clientKey entries (ab_distinct st)\<rparr>)
      in if map_of entries proofKey = None \<and> length entries \<ge> ab_distinctClientLimit c then (Inl limited, kept)
         else (Inr (), st\<lparr>ab_distinct := AList.update clientKey (AList.update proofKey now entries) (ab_distinct st)\<rparr>))"

definition verification_key :: "abuse_config \<Rightarrow> string option \<Rightarrow> ident \<Rightarrow> bool \<Rightarrow> string" where
  "verification_key c ip proofId knownProof =
     client_key c ip @ '':'' @ ab_hash c (take 256 proofId) @ '':'' @ (if knownProof then ''known'' else ''unknown'')"

text \<open>A counter that is found is shared with the map, so its pruned timestamps stay even on refusal.\<close>

definition checkVerification ::
  "abuse_config \<Rightarrow> string option \<Rightarrow> ident \<Rightarrow> bool \<Rightarrow> time_ms \<Rightarrow> abuse_state \<Rightarrow> (http_error, unit) result \<times> abuse_state" where
  "checkVerification c ip proofId knownProof now st =
     (let key = verification_key c ip proofId knownProof;
          found = map_of (ab_repeated st) key;
          timestamps = filter (\<lambda>t. t + ab_windowMs c > now) (nullish found []);
          kept = (case found of None \<Rightarrow> st | Some _ \<Rightarrow> st\<lparr>ab_repeated := AList.update key timestamps (ab_repeated st)\<rparr>);
          limit = (if knownProof then ab_repeatedLimit c else ab_unknownLimit c)
      in if length timestamps \<ge> limit then (Inl limited, kept)
         else (Inr (), st\<lparr>ab_repeated := AList.update key (timestamps @ [now]) (ab_repeated st)\<rparr>))"

definition pruneExpired :: "abuse_config \<Rightarrow> time_ms \<Rightarrow> abuse_state \<Rightarrow> abuse_state" where
  "pruneExpired c now st =
     \<lparr>ab_repeated = filter (\<lambda>e. snd e \<noteq> []) (map (\<lambda>(k, ts). (k, filter (\<lambda>t. t + ab_windowMs c > now) ts)) (ab_repeated st)),
      ab_distinct = filter (\<lambda>e. snd e \<noteq> []) (map (\<lambda>(k, es). (k, filter (\<lambda>e. \<not> snd e + ab_windowMs c \<le> now) es)) (ab_distinct st))\<rparr>"

subsection \<open>Facts\<close>

text \<open>The instants at which a key was granted within the window that ends at \<open>now\<close>.\<close>

definition grants :: "abuse_config \<Rightarrow> string \<Rightarrow> time_ms \<Rightarrow> abuse_state \<Rightarrow> time_ms list" where
  "grants c key now st = filter (\<lambda>t. t + ab_windowMs c > now) (nullish (map_of (ab_repeated st) key) [])"

lemma map_of_update: "map_of (AList.update k v m) k' = (if k' = k then Some v else map_of m k')"
  by (simp add: update_conv)

text \<open>L. A verification is granted exactly when the key has fewer grants in the window than its limit,
  and the grants of the window are then one more; no other key changes.\<close>

lemma checkVerification_grants:
  fixes ip :: "string option" and pid :: ident and known :: bool
  assumes "0 < ab_windowMs c"
  defines "k \<equiv> verification_key c ip pid known"
  defines "limit \<equiv> if known then ab_repeatedLimit c else ab_unknownLimit c"
  shows "fst (checkVerification c ip pid known now st) = Inr () \<longleftrightarrow> length (grants c k now st) < limit"
    "grants c k' now (snd (checkVerification c ip pid known now st)) =
       grants c k' now st @ (if k' = k \<and> length (grants c k now st) < limit then [now] else [])"
  using assms(1)
  by (auto simp: checkVerification_def Let_def grants_def k_def limit_def map_of_update split: option.splits)

lemma grants_within_limit:
  assumes "0 < ab_windowMs c" "length (grants c (verification_key c ip pid known) now st) \<le> (if known then ab_repeatedLimit c else ab_unknownLimit c)"
  shows "length (grants c (verification_key c ip pid known) now (snd (checkVerification c ip pid known now st)))
    \<le> (if known then ab_repeatedLimit c else ab_unknownLimit c)"
  using assms by (cases known) (simp_all add: checkVerification_grants)

end
