(* ===== verification/Verification.thy ===== *)
theory Verification
  imports Issuance AbuseLimiter
begin

text \<open>
  Verifying and revoking proofs, and how \<open>ProofsService\<close> is wired (\<open>proofs/proofs.service.ts\<close>).

  What the anchoring contract answers, and whether the privacy budget of the verification events has
  room, are arguments.  The analytics record of \<open>recordEvent\<close> and the provenance record are written
  without being awaited and never affect the answer; they are not part of the state.
\<close>

subsection \<open>Wiring\<close>

text \<open>The constructor sorts the injected services by the methods they have.\<close>

datatype service_slot = Slot_events | Slot_quotas | Slot_attestations | Slot_commitments | Slot_provenance | Slot_anchoring | Slot_webhooks | Slot_keys | Slot_abuse

definition has_method :: "string list \<Rightarrow> string list \<Rightarrow> bool" where
  "has_method methods names \<longleftrightarrow> (\<exists>n\<in>set names. n \<in> set methods)"

definition service_slot_of :: "string list \<Rightarrow> service_slot option" where
  "service_slot_of methods =
     (if has_method methods [''recordEvent'', ''recordVerificationEvent''] then Some Slot_events
      else if has_method methods [''consumeForUser'', ''checkQuota''] then Some Slot_quotas
      else if has_method methods [''getValidAttestationsForSubject'', ''isAttestationValid''] then Some Slot_attestations
      else if has_method methods [''captureOrReuse'', ''getCurrentCommitment''] then Some Slot_commitments
      else if has_method methods [''recordProvenance''] then Some Slot_provenance
      else if has_method methods [''anchor'', ''enqueueIntent'', ''getProofStatus''] then Some Slot_anchoring
      else if has_method methods [''enqueueForUser'', ''enqueueDelivery''] then Some Slot_webhooks
      else if has_method methods [''resolveKey'', ''verifyKey''] then Some Slot_keys
      else if has_method methods [''recordAttempt'', ''checkAbuse''] then Some Slot_abuse
      else None)"

text \<open>The last service that matches a slot fills it.\<close>

definition wire :: "(string \<times> string list) list \<Rightarrow> (service_slot \<times> string) list" where
  "wire services =
     foldl (\<lambda>m (name, methods). case service_slot_of methods of None \<Rightarrow> m | Some sl \<Rightarrow> AList.update sl name m) [] services"

definition VerificationEventService :: "string \<times> string list" where
  "VerificationEventService = (''VerificationEventService'',
     [''recordEvent'', ''tryConsumePrivacyBudget'', ''hashBudgetKey'', ''hashMetadata'', ''cleanupExpiredEvents'',
      ''runExpiredEventsCleanup'', ''prunePrivacyBudget'', ''getAggregateStats''])"

definition OrganizationQuotaService :: "string \<times> string list" where
  "OrganizationQuotaService = (''OrganizationQuotaService'',
     [''limitFor'', ''assertCapacity'', ''consume'', ''consumeForUser'', ''resolveOrganizationForUser'', ''getUsage'', ''countConcurrent'', ''reject''])"

definition AttestationsService :: "string \<times> string list" where
  "AttestationsService = (''AttestationsService'',
     [''createAttestation'', ''getAttestation'', ''listAttestations'', ''revokeAttestation'', ''isAttestationValid'',
      ''getAttestationLifecycleState'', ''getValidAttestationsForSubject'', ''toResponseDto''])"

definition ContractAnchoringService :: "string \<times> string list" where
  "ContractAnchoringService = (''ContractAnchoringService'',
     [''circuitState'', ''breakerFor'', ''guarded'', ''anchorProof'', ''circuitOpenResult'', ''revokeProof'', ''getProofStatus'', ''invokeMutation'',
      ''invokeRead'', ''contractInvokeArgs'', ''hasRequiredConfig'', ''lastOutputLine'', ''parseBoolean''])"

definition WebhookDeliveryService :: "string \<times> string list" where
  "WebhookDeliveryService = (''WebhookDeliveryService'',
     [''onModuleInit'', ''enqueueForUser'', ''enqueueForOrganization'', ''enqueueForOrganizations'', ''dispatch'', ''replay'', ''scheduleDelivery'',
      ''runDelivery'', ''deadLetter'', ''sendTestDelivery'', ''sendSignedRequest'', ''parseEvents''])"

definition CredentialVerificationKeyService :: "string \<times> string list" where
  "CredentialVerificationKeyService = (''CredentialVerificationKeyService'',
     [''getPublicKeySet'', ''getEtag'', ''hasKey'', ''signCredential'', ''verifyCredential'', ''createSigningKey'', ''findAvailableKey''])"

definition ProofVerificationAbuseService :: "string \<times> string list" where
  "ProofVerificationAbuseService = (''ProofVerificationAbuseService'',
     [''checkClientCardinality'', ''checkVerification'', ''pruneExpired'', ''hash'', ''limited''])"

definition IssuerPolicyCommitmentsService :: "string \<times> string list" where
  "IssuerPolicyCommitmentsService = (''IssuerPolicyCommitmentsService'',
     [''captureOrReuse'', ''createNewCommitment'', ''getCurrentCommitment'', ''getCommitmentById'', ''getCommitmentAt'', ''listCommitments'',
      ''assertCanReadCommitments'', ''toDto''])"

definition VerificationProvenanceService :: "string \<times> string list" where
  "VerificationProvenanceService = (''VerificationProvenanceService'',
     [''recordProvenance'', ''getProvenanceForProof'', ''listProvenanceForProof'', ''getSourcesByType'', ''toResponseDto'', ''toProvenanceRecord''])"

text \<open>The parameters of the constructor, in order.\<close>

definition injected_services :: "(string \<times> string list) list" where
  "injected_services =
     [VerificationEventService, OrganizationQuotaService, AttestationsService, ContractAnchoringService, WebhookDeliveryService,
      CredentialVerificationKeyService, ProofVerificationAbuseService, IssuerPolicyCommitmentsService, VerificationProvenanceService]"

subsection \<open>Verification\<close>

record contract_status =
  ks_checked :: bool
  ks_revoked :: bool
  ks_valid :: bool
  ks_reason :: string

type_synonym chain_service = "ident \<Rightarrow> (http_error, contract_status) result"

record verified_proof =
  vp_id :: ident
  vp_type :: proof_type
  vp_schemaVersion :: string
  vp_network :: string
  vp_issuedAt :: string
  vp_expiresAt :: string
  vp_revokedAt :: "string option"
  vp_revocationReasonCode :: "revocation_reason_code option"
  vp_contractStatus :: contract_status

record verification =
  vf_result :: verification_result
  vf_status :: string
  vf_credential :: "json option"
  vf_proof :: "verified_proof option"

fun publicStatus :: "verification_result \<Rightarrow> string" where
  "publicStatus VR_VALID = ''valid''"
| "publicStatus VR_EXPIRED = ''expired''"
| "publicStatus VR_REVOKED = ''revoked''"
| "publicStatus VR_UNKNOWN_PROOF = ''unknown''"
| "publicStatus _ = ''invalid''"

datatype verification_outcome = VO_VALID | VO_EXPIRED | VO_REVOKED | VO_UNKNOWN | VO_INVALID_SIGNATURE | VO_ISSUER_WARNING

fun mapResultToOutcome :: "verification_result \<Rightarrow> verification_outcome" where
  "mapResultToOutcome VR_VALID = VO_VALID"
| "mapResultToOutcome VR_EXPIRED = VO_EXPIRED"
| "mapResultToOutcome VR_REVOKED = VO_REVOKED"
| "mapResultToOutcome VR_INVALID_SIGNATURE = VO_INVALID_SIGNATURE"
| "mapResultToOutcome VR_UNKNOWN_PROOF = VO_UNKNOWN"
| "mapResultToOutcome VR_UNVERIFIED_ISSUER = VO_ISSUER_WARNING"

definition wallet_of :: "proof_row \<Rightarrow> proofs_db \<Rightarrow> string option" where
  "wallet_of p db = map_option u_walletHash (find_row (\<lambda>u. u_id u = pf_userId p) (users (auth db)))"

text \<open>The first verdict, from the stored row alone.\<close>

definition local_result :: "proof_env \<Rightarrow> string \<Rightarrow> proof_row \<Rightarrow> proof_claim \<Rightarrow> time_ms \<Rightarrow> verification_result" where
  "local_result env w p c now =
     (if pf_credentialHash p \<noteq> credential_hash env (rebuildCredential env w p c) then VR_INVALID_SIGNATURE
      else if pf_status p = PS_REVOKED then VR_REVOKED
      else if pf_expiresAt p \<le> now then VR_EXPIRED
      else if pf_status p \<noteq> PS_ACTIVE then VR_INVALID_SIGNATURE
      else VR_VALID)"

definition contract_result :: "contract_status option \<Rightarrow> verification_result \<Rightarrow> verification_result" where
  "contract_result ks r =
     (case ks of
        None \<Rightarrow> r
      | Some k \<Rightarrow>
          if \<not> ks_checked k then r
          else if ks_revoked k then VR_REVOKED
          else if r = VR_VALID \<and> \<not> ks_valid k then VR_INVALID_SIGNATURE
          else r)"

definition anchoring_result :: "proof_env \<Rightarrow> proof_row \<Rightarrow> verification_result \<Rightarrow> verification_result" where
  "anchoring_result env p r =
     (if r = VR_VALID \<and> pe_anchoringRequired env \<and> \<not> truthy (pf_contractTransactionHash p) then VR_UNVERIFIED_ISSUER else r)"

text \<open>\<open>contractAnchoringService?.getProofStatus\<close>, which is asked only about a proof that has been anchored.\<close>

definition contract_status_of :: "chain_service option \<Rightarrow> proof_row \<Rightarrow> (http_error, contract_status option) result" where
  "contract_status_of chain p =
     (if truthy (pf_contractTransactionHash p)
      then (case chain of None \<Rightarrow> Inr None | Some f \<Rightarrow> map_sum id Some (f (pf_id p)))
      else Inr None)"

definition unknown_proof :: verification where
  "unknown_proof = \<lparr>vf_result = VR_UNKNOWN_PROOF, vf_status = ''unknown'', vf_credential = None, vf_proof = None\<rparr>"

definition verified_view :: "proof_row \<Rightarrow> contract_status option \<Rightarrow> verified_proof" where
  "verified_view p ks =
     \<lparr>vp_id = pf_id p, vp_type = pf_proofType p, vp_schemaVersion = pf_schemaVersion p, vp_network = pf_network p,
      vp_issuedAt = toISOString (pf_createdAt p), vp_expiresAt = toISOString (pf_expiresAt p),
      vp_revokedAt = map_option toISOString (pf_revokedAt p), vp_revocationReasonCode = pf_revocationReasonCode p,
      vp_contractStatus = nullish ks \<lparr>ks_checked = False, ks_revoked = False, ks_valid = False, ks_reason = ''disabled''\<rparr>\<rparr>"

definition verify_found ::
  "proof_env \<Rightarrow> chain_service option \<Rightarrow> bool \<Rightarrow> string \<Rightarrow> proof_row \<Rightarrow> proof_claim \<Rightarrow> time_ms \<Rightarrow> proofs_db
   \<Rightarrow> (http_error, verification) result \<times> proofs_db" where
  "verify_found env chain budget w p c now db =
     (let signed = signCredential env (rebuildCredential env w p c) in
      case contract_status_of chain p of Inl e \<Rightarrow> (Inl e, db) | Inr ks \<Rightarrow>
        let r = anchoring_result env p (contract_result ks (local_result env w p c now));
            db1 = (if budget then db\<lparr>verification_events := insert_row (pf_id p, r) (verification_events db)\<rparr> else db)
        in (Inr \<lparr>vf_result = r, vf_status = publicStatus r, vf_credential = Some signed, vf_proof = Some (verified_view p ks)\<rparr>,
            emitWebhook (pf_userId p) (Proof_verified (pf_id p) r now) db1))"

text \<open>The row with its claim and the owner's current wallet hash.\<close>

definition load_proof :: "ident \<Rightarrow> proofs_db \<Rightarrow> (proof_row \<times> proof_claim \<times> string) option" where
  "load_proof pid db =
     (case find_row (\<lambda>p. pf_id p = pid) (proofs db) of
        None \<Rightarrow> None
      | Some p \<Rightarrow> (case (pf_claim p, wallet_of p db) of (Some c, Some w) \<Rightarrow> Some (p, c, w) | _ \<Rightarrow> None))"

definition verifyProof ::
  "proof_env \<Rightarrow> (abuse_config \<times> abuse_state) option \<Rightarrow> chain_service option \<Rightarrow> bool \<Rightarrow> string option \<Rightarrow> ident \<Rightarrow> time_ms \<Rightarrow> proofs_db
   \<Rightarrow> (http_error, verification) result \<times> abuse_state option \<times> proofs_db" where
  "verifyProof env abuse chain budget ip pid now db =
     (let found = load_proof pid db;
          answer = (case found of None \<Rightarrow> (Inr unknown_proof, db) | Some (p, c, w) \<Rightarrow> verify_found env chain budget w p c now db) in
      case abuse of
        None \<Rightarrow> (fst answer, None, snd answer)
      | Some (cfg, st) \<Rightarrow>
          (case checkClientCardinality cfg ip pid now st of
             (Inl e, st1) \<Rightarrow> (Inl e, Some st1, db)
           | (Inr _, st1) \<Rightarrow>
               (case checkVerification cfg ip pid (found \<noteq> None) now st1 of
                  (Inl e, st2) \<Rightarrow> (Inl e, Some st2, db)
                | (Inr _, st2) \<Rightarrow> (fst answer, Some st2, snd answer))))"

text \<open>
  \<open>verifyProofsBatch\<close>: every distinct id once, through \<open>verifyProof\<close>, in the order given; the
  calls of the source run concurrently and only read proofs.
\<close>

record batch_item =
  bi_id :: ident
  bi_result :: verification_result
  bi_status :: string
  bi_contractStatus :: contract_status

fun verify_each ::
  "proof_env \<Rightarrow> chain_service option \<Rightarrow> (ident \<Rightarrow> bool) \<Rightarrow> ident list \<Rightarrow> time_ms \<Rightarrow> proofs_db
   \<Rightarrow> (http_error, (ident \<times> verification) list) result \<times> proofs_db" where
  "verify_each env chain budget [] now db = (Inr [], db)"
| "verify_each env chain budget (i # ids) now db =
     (case verifyProof env None chain (budget i) None i now db of
        (Inl e, _, db1) \<Rightarrow> (Inl e, db1)
      | (Inr v, _, db1) \<Rightarrow>
          (case verify_each env chain budget ids now db1 of
             (Inl e, db2) \<Rightarrow> (Inl e, db2)
           | (Inr vs, db2) \<Rightarrow> (Inr ((i, v) # vs), db2)))"

definition batch_item_of :: "ident \<Rightarrow> verification \<Rightarrow> batch_item" where
  "batch_item_of i v =
     \<lparr>bi_id = i, bi_result = vf_result v, bi_status = vf_status v,
      bi_contractStatus = (case vf_proof v of
        Some vp \<Rightarrow> vp_contractStatus vp
      | None \<Rightarrow> \<lparr>ks_checked = False, ks_revoked = False, ks_valid = False, ks_reason = ''unknown''\<rparr>)\<rparr>"

definition verifyProofsBatch ::
  "proof_env \<Rightarrow> chain_service option \<Rightarrow> (ident \<Rightarrow> bool) \<Rightarrow> ident list \<Rightarrow> time_ms \<Rightarrow> proofs_db
   \<Rightarrow> (http_error, batch_item list) result \<times> proofs_db" where
  "verifyProofsBatch env chain budget ids now db =
     (case verify_each env chain budget (uniq ids) now db of
        (Inl e, db1) \<Rightarrow> (Inl e, db1)
      | (Inr vs, db1) \<Rightarrow> (Inr (map (\<lambda>i. batch_item_of i (the (map_of vs i))) ids), db1))"

subsection \<open>Revocation\<close>

record revoke_input =
  rv_reasonCode :: "revocation_reason_code option"
  rv_reasonPrivate :: "string option"
  rv_evidenceHash :: "string option"

record revocation =
  ro_id :: ident
  ro_status :: proof_status
  ro_revokedAt :: string
  ro_revokedByType :: "revocation_actor option"
  ro_reasonCode :: "revocation_reason_code option"
  ro_reasonPrivate :: "string option"
  ro_evidenceHash :: "string option"
  ro_anchoring :: string

fun reason_name :: "revocation_reason_code \<Rightarrow> string" where
  "reason_name RR_OWNER_REQUESTED = ''OWNER_REQUESTED''"
| "reason_name RR_DATA_CORRECTION = ''DATA_CORRECTION''"
| "reason_name RR_FRAUD_SUSPECTED = ''FRAUD_SUSPECTED''"
| "reason_name RR_COMPLIANCE_HOLD = ''COMPLIANCE_HOLD''"
| "reason_name RR_DUPLICATE_PROOF = ''DUPLICATE_PROOF''"
| "reason_name RR_OTHER = ''OTHER''"

fun actor_name :: "revocation_actor \<Rightarrow> string" where
  "actor_name RA_OWNER = ''OWNER''"
| "actor_name RA_ADMIN = ''ADMIN''"

definition mark_revoked :: "time_ms \<Rightarrow> revocation_actor \<Rightarrow> ident \<Rightarrow> revocation_reason_code \<Rightarrow> revoke_input option \<Rightarrow> proof_row \<Rightarrow> proof_row" where
  "mark_revoked now byType actor reason body p =
     p\<lparr>pf_status := PS_REVOKED, pf_revokedAt := Some now, pf_revokedByType := Some byType, pf_revokedById := Some actor,
       pf_revocationReasonCode := Some reason, pf_revocationReasonPrivate := Option.bind body rv_reasonPrivate,
       pf_revocationEvidenceHash := Option.bind body rv_evidenceHash\<rparr>"

definition proof_audit :: "ident \<Rightarrow> string \<Rightarrow> ident \<Rightarrow> (string \<times> json) list \<Rightarrow> audit_data" where
  "proof_audit actor action pid meta =
     \<lparr>d_actorType = ''user'', d_actorId = Some actor, d_action = action, d_resourceType = ''proof'', d_resourceId = Some pid,
      d_metadata = Some (JObj meta), d_organizationId = None\<rparr>"

text \<open>The proof read before the transaction comes from \<open>db0\<close>; the update itself is unconditional.\<close>

definition revokeProof ::
  "proof_env \<Rightarrow> authenticated_user \<Rightarrow> ident \<Rightarrow> revoke_input option \<Rightarrow> ident \<Rightarrow> ident \<Rightarrow> time_ms \<Rightarrow> proofs_db \<Rightarrow> proofs_db
   \<Rightarrow> (http_error, revocation) result \<times> proofs_db" where
  "revokeProof env user pid body aid iid now db0 db =
     (case find_row (\<lambda>p. pf_id p = pid) (proofs db0) of
        None \<Rightarrow> (Inl (NotFound ''Proof not found''), db)
      | Some p \<Rightarrow>
          let isOwner = (pf_userId p = a_id user); isAdmin = (a_role user = ADMIN) in
          if \<not> isOwner \<and> \<not> isAdmin then (Inl (Forbidden ''Proof does not belong to this user''), db)
          else if pf_status p = PS_REVOKED
          then (Inr \<lparr>ro_id = pf_id p, ro_status = pf_status p, ro_revokedAt = toISOString (nullish (pf_revokedAt p) now),
                  ro_revokedByType = Some (nullish (pf_revokedByType p) RA_OWNER),
                  ro_reasonCode = Some (nullish (pf_revocationReasonCode p) RR_OTHER),
                  ro_reasonPrivate = pf_revocationReasonPrivate p, ro_evidenceHash = pf_revocationEvidenceHash p, ro_anchoring = ''disabled''\<rparr>, db)
          else
            let byType = (if isAdmin \<and> \<not> isOwner then RA_ADMIN else RA_OWNER);
                reason = nullish (Option.bind body rv_reasonCode) RR_OWNER_REQUESTED;
                mark = mark_revoked now byType (a_id user) reason body;
                anchors = (pe_anchoringEnabled env \<and> truthy (pf_contractTransactionHash p)) in
            case find_row (\<lambda>q. pf_id q = pid) (proofs db) of
              None \<Rightarrow> (Inl (Internal ''P2025''), db)
            | Some q \<Rightarrow>
                case tx_audit_create aid (proof_audit (a_id user) ''proof.revoked'' pid
                       [(''revokedByType'', JStr (actor_name byType)), (''reasonCode'', JStr (reason_name reason)),
                        (''revokedAt'', JStr (toISOString now))]) now (audit_logs (auth db)) of
                  Inl e \<Rightarrow> (Inl e, db)
                | Inr logs \<Rightarrow>
                    let db1 = db\<lparr>proofs := upd_rows (\<lambda>q. pf_id q = pid) mark (proofs db), auth := (auth db)\<lparr>audit_logs := logs\<rparr>\<rparr> in
                    case (if anchors then insert_intent (new_intent iid pid AO_REVOKE now) db1 else Inr db1) of
                      Inl e \<Rightarrow> (Inl e, db)
                    | Inr db2 \<Rightarrow>
                        (Inr \<lparr>ro_id = pid, ro_status = PS_REVOKED, ro_revokedAt = toISOString now, ro_revokedByType = Some byType,
                              ro_reasonCode = Some reason, ro_reasonPrivate = Option.bind body rv_reasonPrivate,
                              ro_evidenceHash = Option.bind body rv_evidenceHash,
                              ro_anchoring = (if anchors then ''pending'' else ''disabled'')\<rparr>,
                         emitWebhook (pf_userId p) (Proof_revoked pid PS_REVOKED now) db2))"

end
