(* ===== verification/CanonicalJson.thy ===== *)
theory CanonicalJson
  imports Json
begin

text \<open>
  \<open>JSON.stringify\<close> is injective on finite values, so a canonical string determines the value it was
  made from up to the order of its keys.  The proof reads values off the front of a string: two
  renderings followed by text that cannot continue a number agree only when the values do.
\<close>

subsection \<open>Strings\<close>

lemma hex_digit_inj: "a < 16 \<Longrightarrow> b < 16 \<Longrightarrow> hex_digit a = hex_digit b \<longleftrightarrow> a = b"
proof -
  have "distinct ''0123456789abcdef''" by simp
  then show "a < 16 \<Longrightarrow> b < 16 \<Longrightarrow> hex_digit a = hex_digit b \<longleftrightarrow> a = b"
    unfolding hex_digit_def by (subst nth_eq_iff_index_eq) simp_all
qed

definition plain_char :: "char \<Rightarrow> bool" where
  "plain_char c \<longleftrightarrow> (of_char c :: nat) \<notin> {34, 92} \<and> (of_char c :: nat) \<ge> 32"

lemma quote_plain: "plain_char c \<Longrightarrow> quote_char c = [c]"
  by (auto simp: plain_char_def quote_char_def Let_def)

lemma quote_escape: "\<not> plain_char c \<Longrightarrow> \<exists>d r. quote_char c = CHR 0x5C # d # r"
  by (auto simp: plain_char_def quote_char_def Let_def)

lemma plain_not_special: "plain_char c \<Longrightarrow> c \<noteq> CHR 0x5C \<and> c \<noteq> CHR 0x22"
  by (auto simp: plain_char_def)

definition short_escapes :: "(nat \<times> char) set" where
  "short_escapes = {(34, CHR 0x22), (92, CHR 0x5C), (8, CHR ''b''), (12, CHR ''f''), (10, CHR ''n''), (13, CHR ''r''), (9, CHR ''t'')}"

lemma short_escapes_inj: "(n, e) \<in> short_escapes \<Longrightarrow> (m, e) \<in> short_escapes \<Longrightarrow> n = m"
  unfolding short_escapes_def by auto

lemma short_escapes_not_u: "(n, CHR ''u'') \<notin> short_escapes"
  unfolding short_escapes_def by simp

lemma escape_cases:
  assumes "\<not> plain_char c"
  obtains e where "(of_char c, e) \<in> short_escapes"
      "quote_char c = [CHR 0x5C, e]"
    | "(of_char c :: nat) < 32"
      "quote_char c = [CHR 0x5C, CHR ''u'', CHR ''0'', CHR ''0'', hex_digit (of_char c div 16), hex_digit (of_char c mod 16)]"
proof (cases "(of_char c :: nat) \<in> {34, 92, 8, 12, 10, 13, 9}")
  case True
  then show ?thesis
    by (elim insertE emptyE) (rule that(1), simp_all add: quote_char_def Let_def short_escapes_def)+
next
  case False
  then show ?thesis using assms by (intro that(2)) (simp_all add: plain_char_def quote_char_def Let_def)
qed

lemma hex_pair_inj:
  assumes "n < 32" "m < 32" "hex_digit (n div 16) = hex_digit (m div 16)" "hex_digit (n mod 16) = hex_digit (m mod 16)"
  shows "n = m"
proof -
  have "n div 16 = m div 16" using assms(1-3) by (subst (asm) hex_digit_inj) auto
  moreover have "n mod 16 = m mod 16" using assms(4) by (subst (asm) hex_digit_inj) auto
  ultimately show ?thesis by (metis div_mult_mod_eq)
qed

lemma escape_inj:
  assumes c: "\<not> plain_char c" and d: "\<not> plain_char d" and eq: "quote_char c @ x = quote_char d @ y"
  shows "c = d \<and> x = y"
proof -
  have "(of_char c :: nat) = of_char d \<and> x = y"
  proof (cases rule: escape_cases [OF c])
    case 1
    note c1 = this
    show ?thesis
    proof (cases rule: escape_cases [OF d])
      case 1
      with c1 eq show ?thesis using short_escapes_inj [OF c1(1)] by auto
    next
      case 2
      with c1 eq short_escapes_not_u show ?thesis by auto
    qed
  next
    case 2
    note c2 = this
    show ?thesis
    proof (cases rule: escape_cases [OF d])
      case 1
      with c2 eq short_escapes_not_u show ?thesis by auto
    next
      case 2
      with c2 eq show ?thesis using hex_pair_inj [OF c2(1) 2(1)] by auto
    qed
  qed
  then show ?thesis by simp
qed

lemma plain_escape_differ:
  assumes "plain_char c" "\<not> plain_char d"
  shows "quote_char c @ x \<noteq> quote_char d @ y"
proof -
  obtain e r where "quote_char d = CHR 0x5C # e # r" using quote_escape [OF assms(2)] by blast
  with quote_plain [OF assms(1)] plain_not_special [OF assms(1)] show ?thesis by simp
qed

lemma quote_char_inj:
  assumes "quote_char c @ x = quote_char d @ y"
  shows "c = d \<and> x = y"
proof (cases "plain_char c"; cases "plain_char d")
  assume "plain_char c" "plain_char d"
  with assms show ?thesis by (simp add: quote_plain)
next
  assume "plain_char c" "\<not> plain_char d"
  with assms plain_escape_differ show ?thesis by blast
next
  assume "\<not> plain_char c" "plain_char d"
  with assms [symmetric] plain_escape_differ show ?thesis by blast
next
  assume "\<not> plain_char c" "\<not> plain_char d"
  with assms escape_inj show ?thesis by blast
qed

lemma quote_char_hd: "\<exists>a r. quote_char c = a # r \<and> a \<noteq> CHR 0x22"
proof (cases "plain_char c")
  case True
  with quote_plain plain_not_special show ?thesis by simp
next
  case False
  then obtain e r where "quote_char c = CHR 0x5C # e # r" using quote_escape by blast
  then show ?thesis by simp
qed

lemma quote_inj: "quote s @ x = quote t @ y \<Longrightarrow> s = t \<and> x = y"
proof -
  have "concat (map quote_char s) @ CHR 0x22 # x = concat (map quote_char t) @ CHR 0x22 # y \<Longrightarrow> s = t \<and> x = y"
  proof (induction s arbitrary: t)
    case Nil
    then show ?case using quote_char_hd [of "hd t"] by (cases t) auto
  next
    case (Cons c s)
    obtain d t' where t: "t = d # t'" using Cons.prems quote_char_hd [of c] by (cases t) auto
    from Cons.prems have "c = d \<and> concat (map quote_char s) @ CHR 0x22 # x = concat (map quote_char t') @ CHR 0x22 # y"
      unfolding t by (intro quote_char_inj) simp
    with Cons.IH [of t'] t show ?case by simp
  qed
  then show "quote s @ x = quote t @ y \<Longrightarrow> s = t \<and> x = y" by (simp add: quote_def)
qed

subsection \<open>Values\<close>

text \<open>What may follow a value: nothing, or one of the characters that close or separate.\<close>

definition delim :: "string \<Rightarrow> bool" where
  "delim x \<longleftrightarrow> x = [] \<or> hd x \<in> {CHR '','', CHR '']'', CHR ''}''}"

lemma delim_simps [simp]: "delim []" "delim (CHR '','' # x)" "delim (CHR '']'' # x)" "delim (CHR ''}'' # x)"
  by (simp_all add: delim_def)

definition int_char :: "char \<Rightarrow> bool" where
  "int_char c \<longleftrightarrow> is_digit c \<or> c = CHR ''-''"

lemma show_int_chars: "list_all int_char (show_int i)" "show_int i \<noteq> []"
proof -
  have "list_all int_char (show_nat n)" for n
    using all_digits_show_nat [of n] by (auto simp: all_digits_def list_all_iff int_char_def)
  then show "list_all int_char (show_int i)" "show_int i \<noteq> []" by (auto simp: show_int_def int_char_def)
qed

lemma delim_not_int: "delim x \<Longrightarrow> takeWhile int_char x = []"
  by (cases x) (auto simp: delim_def int_char_def is_digit_def)

lemma show_int_inj: "show_int i = show_int j \<longleftrightarrow> i = j"
proof -
  have m: "CHR ''-'' \<notin> set (show_nat n)" for n by (rule show_nat_no_char) (simp add: is_digit_def)
  have "show_nat a \<noteq> CHR ''-'' # show_nat b" for a b using m [of a] by (metis list.set_intros(1))
  then show ?thesis by (auto simp: show_int_def show_nat_inj dest: sym)
qed

lemma show_int_delim: "show_int i @ x = show_int j @ y \<Longrightarrow> delim x \<Longrightarrow> delim y \<Longrightarrow> i = j \<and> x = y"
proof -
  assume a: "show_int i @ x = show_int j @ y" "delim x" "delim y"
  have t: "takeWhile int_char (show_int k @ z) = show_int k" if "delim z" for k z
    using show_int_chars(1) [of k] delim_not_int [OF that] by (simp add: list_all_iff takeWhile_append2)
  have "show_int i = show_int j" using t [OF a(2), of i] t [OF a(3), of j] a(1) by simp
  with a(1) show "i = j \<and> x = y" by (simp add: show_int_inj)
qed

text \<open>The first character tells the kind of value.\<close>

fun kind_char :: "json \<Rightarrow> char" where
  "kind_char JNull = CHR ''n''"
| "kind_char (JBool b) = (if b then CHR ''t'' else CHR ''f'')"
| "kind_char (JInt i) = CHR ''0''"
| "kind_char JNonFinite = CHR ''n''"
| "kind_char (JStr s) = CHR 0x22"
| "kind_char (JArr xs) = CHR ''[''"
| "kind_char (JObj es) = CHR ''{''"

definition kind_of :: "char \<Rightarrow> char" where
  "kind_of c = (if int_char c then CHR ''0'' else c)"

lemma kind_stringify: "\<exists>c r. stringify j = c # r \<and> kind_of c = kind_char j"
proof (cases j)
  case (JInt i)
  obtain c r where "show_int i = c # r" using show_int_chars(2) [of i] by (cases "show_int i") auto
  then show ?thesis using show_int_chars(1) [of i] JInt by (auto simp: kind_of_def)
qed (auto simp: kind_of_def int_char_def is_digit_def quote_def)

lemma kind_eq: "stringify j @ x = stringify k @ y \<Longrightarrow> kind_char j = kind_char k"
  using kind_stringify [of j] kind_stringify [of k] by auto

lemma stringify_hd: "hd (stringify j @ x) \<notin> {CHR '']'', CHR ''}'', CHR '',''}" "stringify j \<noteq> []"
proof -
  obtain c r where c: "stringify j = c # r" "kind_of c = kind_char j" using kind_stringify by blast
  have "kind_char j \<notin> {CHR '']'', CHR ''}'', CHR '',''}" by (cases j) auto
  moreover have "kind_of d = d" if "d \<in> {CHR '']'', CHR ''}'', CHR '',''}" for d
    using that by (elim insertE emptyE) (simp_all add: kind_of_def int_char_def is_digit_def)
  ultimately have "c \<notin> {CHR '']'', CHR ''}'', CHR '',''}" using c(2) by metis
  with c(1) show "hd (stringify j @ x) \<notin> {CHR '']'', CHR ''}'', CHR '',''}" by simp
  from c(1) show "stringify j \<noteq> []" by simp
qed

definition reads :: "json \<Rightarrow> bool" where
  "reads j \<longleftrightarrow> (\<forall>k x y. finite_json k \<longrightarrow> stringify j @ x = stringify k @ y \<longrightarrow> delim x \<longrightarrow> delim y \<longrightarrow> j = k \<and> x = y)"

text \<open>A list of elements, each rendered and separated by commas, up to its closing bracket.\<close>

lemma join_map_Cons: "join sep (map f (a # as)) = f a @ (if as = [] then [] else sep @ join sep (map f as))"
  by (cases as) auto

definition after_element :: "('a \<Rightarrow> string) \<Rightarrow> char \<Rightarrow> 'a list \<Rightarrow> string \<Rightarrow> string" where
  "after_element f c as x = (if as = [] then c # x else CHR '','' # join '','' (map f as) @ c # x)"

lemma elements_Cons: "join '','' (map f (a # as)) @ c # x = f a @ after_element f c as x"
  unfolding after_element_def join_map_Cons by simp

lemma after_element_inj:
  assumes "after_element f c as x = after_element f c bs y" "c \<noteq> CHR '',''"
  obtains "as = []" "bs = []" "x = y"
    | "as \<noteq> []" "bs \<noteq> []" "join '','' (map f as) @ c # x = join '','' (map f bs) @ c # y"
  using assms unfolding after_element_def by (cases "as = []"; cases "bs = []") simp_all

lemma elements_inj:
  fixes f :: "'a \<Rightarrow> string"
  assumes el: "\<And>a b x y. a \<in> set as \<Longrightarrow> P b \<Longrightarrow> f a @ x = f b @ y \<Longrightarrow> delim x \<Longrightarrow> delim y \<Longrightarrow> a = b \<and> x = y"
    and bs: "list_all P bs" and hd: "\<And>b z. hd (f b @ z) \<noteq> c" and c: "c = CHR '']'' \<or> c = CHR ''}''"
    and eq: "join '','' (map f as) @ c # x = join '','' (map f bs) @ c # y"
  shows "as = bs \<and> x = y"
  using el bs eq
proof (induction as arbitrary: bs)
  case Nil
  show ?case
  proof (cases bs)
    case (Cons b bs')
    from Nil.prems(3) have "f b @ after_element f c bs' y = c # x" unfolding Cons elements_Cons by simp
    with hd [of b "after_element f c bs' y"] show ?thesis by simp
  qed (use Nil.prems(3) in simp)
next
  case (Cons a as)
  have eq: "f a @ after_element f c as x = join '','' (map f bs) @ c # y"
    using Cons.prems(3) unfolding elements_Cons .
  obtain b bs' where b: "bs = b # bs'" using eq hd [of a "after_element f c as x"] by (cases bs) simp_all
  have d: "delim (after_element f c zs z)" for zs z using c by (auto simp: after_element_def)
  have e: "a = b" "after_element f c as x = after_element f c bs' y"
    using Cons.prems(1) [OF _ _ eq [unfolded b elements_Cons] d d] Cons.prems(2) b by simp_all
  have "as = bs' \<and> x = y"
  proof (cases rule: after_element_inj [OF e(2)])
    case 3
    show ?thesis by (rule Cons.IH [OF Cons.prems(1) _ 3(3)]) (use Cons.prems(2) b in simp_all)
  qed (use c in auto)
  with e(1) b show ?case by simp
qed

lemma entry_inj:
  assumes "reads v" "finite_json w"
    and "quote k @ '':'' @ stringify v @ x = quote l @ '':'' @ stringify w @ y" "delim x" "delim y"
  shows "k = l \<and> v = w \<and> x = y"
proof -
  from quote_inj [OF assms(3)] have "k = l" "stringify v @ x = stringify w @ y" by simp_all
  with assms show ?thesis unfolding reads_def by blast
qed

lemma reads_arr:
  assumes "\<And>v. v \<in> set vs \<Longrightarrow> reads v"
  shows "reads (JArr vs)"
  unfolding reads_def
proof (intro allI impI)
  fix k x y
  assume k: "finite_json k" and eq: "stringify (JArr vs) @ x = stringify k @ y"
  from kind_eq [OF eq] obtain ws where ws: "k = JArr ws" by (cases k) (simp_all split: if_splits)
  have "vs = ws \<and> x = y"
  proof (rule elements_inj [where f = stringify and P = finite_json and c = "CHR '']''"])
    show "v = w \<and> x' = y'" if "v \<in> set vs" "finite_json w" "stringify v @ x' = stringify w @ y'" "delim x'" "delim y'" for v w x' y'
      using assms [OF that(1)] that(2-) unfolding reads_def by blast
    show "join '','' (map stringify vs) @ CHR '']'' # x = join '','' (map stringify ws) @ CHR '']'' # y"
      using eq ws by simp
  qed (use k ws stringify_hd in \<open>auto\<close>)
  with ws show "JArr vs = k \<and> x = y" by simp
qed

lemma reads_obj:
  assumes "\<And>a. a \<in> set es \<Longrightarrow> reads (snd a)"
  shows "reads (JObj es)"
  unfolding reads_def
proof (intro allI impI)
  fix k x y
  assume k: "finite_json k" and eq: "stringify (JObj es) @ x = stringify k @ y"
  let ?f = "\<lambda>(k, v). quote k @ '':'' @ stringify v"
  from kind_eq [OF eq] obtain fs where fs: "k = JObj fs" by (cases k) (simp_all split: if_splits)
  have "es = fs \<and> x = y"
  proof (rule elements_inj [where f = ?f and P = "\<lambda>(k, v). finite_json v" and c = "CHR ''}''"])
    show "a = b \<and> x' = y'"
      if "a \<in> set es" "case b of (k, v) \<Rightarrow> finite_json v" "?f a @ x' = ?f b @ y'" "delim x'" "delim y'" for a b x' y'
      using entry_inj [OF assms [OF that(1)], of "snd b" "fst a" x' "fst b" y'] that(2-)
      by (auto simp: case_prod_beta prod_eq_iff)
    show "join '','' (map ?f es) @ CHR ''}'' # x = join '','' (map ?f fs) @ CHR ''}'' # y"
      using eq fs by simp
    show "hd (?f b @ z) \<noteq> CHR ''}''" for b z by (auto simp: quote_def case_prod_beta)
  qed (use k fs in auto)
  with fs show "JObj es = k \<and> x = y" by simp
qed

lemma stringify_reads: "finite_json j \<Longrightarrow> reads j"
proof (induction j)
  case (JInt i)
  show ?case unfolding reads_def
  proof (intro allI impI)
    fix k x y
    assume eq: "stringify (JInt i) @ x = stringify k @ y" and d: "delim x" "delim y"
    from kind_eq [OF eq] obtain l where l: "k = JInt l" by (cases k) (simp_all split: if_splits)
    with show_int_delim [of i x l y] eq d show "JInt i = k \<and> x = y" by simp
  qed
next
  case (JStr s)
  show ?case unfolding reads_def
  proof (intro allI impI)
    fix k x y
    assume eq: "stringify (JStr s) @ x = stringify k @ y"
    from kind_eq [OF eq] obtain t where t: "k = JStr t" by (cases k) (simp_all split: if_splits)
    with quote_inj [of s x t y] eq show "JStr s = k \<and> x = y" by simp
  qed
next
  case (JArr vs)
  then show ?case by (intro reads_arr) (auto simp: list_all_iff)
next
  case (JObj es)
  then show ?case by (intro reads_obj) (fastforce simp: list_all_iff)
next
  case JNull
  show ?case unfolding reads_def
  proof (intro allI impI)
    fix k x y
    assume k: "finite_json k" and eq: "stringify JNull @ x = stringify k @ y"
    from kind_eq [OF eq] k have "k = JNull" by (cases k) (simp_all split: if_splits)
    with eq show "JNull = k \<and> x = y" by simp
  qed
next
  case (JBool b)
  show ?case unfolding reads_def
  proof (intro allI impI)
    fix k x y
    assume k: "finite_json k" and eq: "stringify (JBool b) @ x = stringify k @ y"
    from kind_eq [OF eq] k obtain c where "k = JBool c" "b = c" by (cases k) (simp_all split: if_splits)
    with eq show "JBool b = k \<and> x = y" by simp
  qed
qed simp

theorem stringify_inj:
  assumes "finite_json j" "finite_json k"
  shows "stringify j = stringify k \<longleftrightarrow> j = k"
  using stringify_reads [OF assms(1)] assms(2) unfolding reads_def
  by (metis append_Nil2 delim_simps(1))

lemma set_own_order [simp]: "set (own_order es) = set es"
  unfolding own_order_def by auto

lemma finite_sortKeysDeep [simp]: "finite_json (sortKeysDeep j) = finite_json j"
proof (induction j)
  case (JObj es)
  then have "finite_json (sortKeysDeep (snd a)) = finite_json (snd a)" if "a \<in> set es" for a
    using that by (cases a) auto
  then show ?case by (auto simp: list_all_iff case_prod_beta)
qed (auto simp: list_all_iff)

lemma canonicalize_sorted:
  assumes "canonicalize j = Some c"
  shows "finite_json j" "c = stringify (sortKeysDeep j)"
  using assms by (auto simp: canonicalize_def sortObject_finite split: if_splits)

lemma canonicalize_inj:
  assumes "canonicalize j = Some c" "canonicalize k = Some c"
  shows "sortKeysDeep j = sortKeysDeep k"
  using canonicalize_sorted [OF assms(1)] canonicalize_sorted [OF assms(2)] stringify_inj [of "sortKeysDeep j" "sortKeysDeep k"]
  by simp

end
