(* ===== verification/ProofLifecycle.thy ===== *)
theory ProofLifecycle
  imports IssuedProofs Verification CanonicalJson
begin

text \<open>
  A proof from issue to verification: what was issued verifies as issued, the stored hash binds the
  whole credential, and what a verdict of VALID says about the row behind it.
\<close>

subsection \<open>One entry point per proof type\<close>

datatype issue_request =
    Req_minimum minimum_income_input
  | Req_range income_range_input
  | Req_recurring recurring_income_input
  | Req_receipt payment_receipt_input
  | Req_invoice invoice_input
  | Req_aggregate aggregate_input
  | Req_employer employer_payment_input
  | Req_continuity continuity_input

fun createProof ::
  "proof_env \<Rightarrow> authenticated_user \<Rightarrow> issue_request \<Rightarrow> ident \<Rightarrow> ident \<Rightarrow> time_ms \<Rightarrow> proofs_db \<Rightarrow> proofs_db
   \<Rightarrow> (http_error, issued) result \<times> proofs_db" where
  "createProof env user (Req_minimum inp) = createMinimumIncomeProof env user inp"
| "createProof env user (Req_range inp) = createIncomeRangeProof env user inp"
| "createProof env user (Req_recurring inp) = createRecurringIncomeProof env user inp"
| "createProof env user (Req_receipt inp) = createPaymentReceiptProof env user inp"
| "createProof env user (Req_invoice inp) = createInvoiceSettlementProof env user inp"
| "createProof env user (Req_aggregate inp) = createAggregateEarningsProof env user inp"
| "createProof env user (Req_employer inp) = createEmployerPaymentProof env user inp"
| "createProof env user (Req_continuity inp) = createEmploymentContinuityProof env user inp"

fun request_days :: "issue_request \<Rightarrow> int option" where
  "request_days (Req_minimum inp) = mi_expiresInDays inp"
| "request_days (Req_range inp) = ir_expiresInDays inp"
| "request_days (Req_recurring inp) = rc_expiresInDays inp"
| "request_days (Req_receipt inp) = pr_expiresInDays inp"
| "request_days (Req_invoice inp) = iv_expiresInDays inp"
| "request_days (Req_aggregate inp) = ag_expiresInDays inp"
| "request_days (Req_employer inp) = em_expiresInDays inp"
| "request_days (Req_continuity inp) = ct_expiresInDays inp"

text \<open>The bounds the request DTOs put on a recurring-income request.\<close>

fun request_ok :: "issue_request \<Rightarrow> bool" where
  "request_ok (Req_recurring inp) \<longleftrightarrow> 2 \<le> rc_intervalCount inp \<and> rc_intervalCount inp \<le> 120"
| "request_ok _ \<longleftrightarrow> True"

definition dates_parse :: "proof_env \<Rightarrow> proofs_db \<Rightarrow> bool" where
  "dates_parse env db \<longleftrightarrow>
     list_all (\<lambda>p. pe_parseDate env (toISOString (y_occurredAt p)) = Some (y_occurredAt p)) (payments (earn db))"

lemma createProof_issues:
  assumes "createProof env user req pid iid now db0 db = (Inr resp, db')" "request_ok req" "dates_parse env db0"
  shows "issues env user pid (expiry_of now (request_days req)) db resp db'"
proof -
  have date: "pe_parseDate env (toISOString (y_occurredAt p)) = Some (y_occurredAt p)" if "p \<in> set (payments (earn db0))" for p
    using assms(3) that by (auto simp: dates_parse_def list_all_iff)
  note facts = createMinimumIncomeProof_issues createIncomeRangeProof_issues createRecurringIncomeProof_issues
    createPaymentReceiptProof_issues [OF _ date] createInvoiceSettlementProof_issues [OF _ date] createAggregateEarningsProof_issues
    createEmployerPaymentProof_issues createEmploymentContinuityProof_issues
  show ?thesis using assms(1,2) facts by (cases req) simp_all
qed

subsection \<open>Issued proofs verify\<close>

lemma load_issued:
  assumes "issues env user pid expires db resp db'"
    and "find_row (\<lambda>u. u_id u = a_id user) (users (auth db)) = Some u"
  obtains p c credential where "load_proof pid db' = Some (p, c, u_walletHash u)" "fresh_row p pid (a_id user) expires"
    "sound_row env (a_walletHash user) p credential" "pf_claim p = Some c" "is_credential resp = signCredential env credential"
proof -
  obtain p credential where p: "proofs db' = proofs db @ [p]" "auth db' = auth db" "fresh_row p pid (a_id user) expires"
    "sound_row env (a_walletHash user) p credential" "is_credential resp = signCredential env credential"
    and new: "\<forall>q\<in>set (proofs db). pf_id q \<noteq> pid"
    using assms(1) unfolding issues_def by blast
  obtain c where c: "pf_claim p = Some c" using p(4) by (auto simp: sound_row_def split: option.splits)
  have "find_row (\<lambda>q. pf_id q = pid) (proofs db) = None" using new by (auto simp: find_row_def find_None_iff)
  moreover have "pf_id p = pid" "pf_userId p = a_id user" using p(3) by (simp_all add: fresh_row_def)
  ultimately have "load_proof pid db' = Some (p, c, u_walletHash u)"
    using p(1,2) c assms(2) by (simp add: load_proof_def wallet_of_def find_row_insert_row [unfolded insert_row_def])
  with that p c show thesis by blast
qed

definition issued_verdict :: "proof_env \<Rightarrow> time_ms \<Rightarrow> time_ms \<Rightarrow> verification_result" where
  "issued_verdict env expires t =
     (if expires \<le> t then VR_EXPIRED else if pe_anchoringRequired env then VR_UNVERIFIED_ISSUER else VR_VALID)"


definition sample_env :: proof_env where
  "sample_env = \<lparr>pe_sha256 = id, pe_hmac = id, pe_activeKeyId = ''k1'', pe_keySign = None, pe_decrypt = Some, pe_decryptAddress = Some,
     pe_parseDate = parse_iso, pe_network = ''testnet'', pe_anchoringEnabled = True, pe_anchoringRequired = False, pe_limits = (\<lambda>_. 100)\<rparr>"

definition sample_worker :: authenticated_user where
  "sample_worker = \<lparr>a_id = ''u1'', a_walletAddress = ''G1'', a_walletHash = ''h1'', a_role = WORKER\<rparr>"

definition sample_income :: payment_row where
  "sample_income = (sample_payment ''o1'' ''1.5'' None)\<lparr>y_userId := ''u1''\<rparr>"

definition sample_proofs_db :: proofs_db where
  "sample_proofs_db =
     \<lparr>auth = sample_db, earn = (sample_earnings None)\<lparr>payments := [sample_income]\<rparr>, proofs = [],
      assets = [\<lparr>sa_id = ''x'', sa_assetKey = ''xlm'', sa_code = ''XLM'', sa_issuer = None, sa_network = ''testnet'', sa_status = RS_ACTIVE\<rparr>],
      organizations = [], quota_usage = [], settlements = [], intents = [], attestations = [], verification_events = [], outbox = []\<rparr>"

definition sample_minimum :: minimum_income_input where
  "sample_minimum = \<lparr>mi_selectedPaymentIds = [''o1''], mi_thresholdAmount = ''1.0'', mi_assetCode = ''XLM'', mi_assetIssuer = None,
     mi_periodStart = Some 0, mi_periodEnd = Some 10, mi_expiresInDays = None\<rparr>"

lemma sample_parse: "parseAmount ''1.5'' = Some 15000000" "parseAmount ''1.0'' = Some 10000000"
  by (simp_all add: parseAmount_def js_BigInt_def trim_def is_space_def toLowerCase_def lower_char_def Let_def read_nat_base_def
      base_digit_def pad_end_def replicate_eqs)

lemma sample_issue:
  "\<exists>resp db'. createProof sample_env sample_worker (Req_minimum sample_minimum) ''p1'' ''i1'' 20 sample_proofs_db sample_proofs_db = (Inr resp, db')"
  using sample_parse
  by (simp add: createMinimumIncomeProof_def sample_minimum_def sample_proofs_db_def sample_income_def sample_payment_def sample_worker_def
      js_lt_def uniq_def selected_payments_def find_many_def income_payment_error_def revealProtectedAmount_def
      tryRevealProtectedAmount_def sample_env_def finish_def charged_tx_def consumeForUser_def resolveOrganizationForUser_def
      requireActiveAssetPolicy_def find_row_def create_in_tx_def insert_proof_def register_intent_def insert_intent_def Let_def)

lemma utc_year_sample: "utc_year 5 = 1970"
  by (simp add: utc_year_def day_of_def ms_per_day_def year_from_day_def day_from_year_def Let_def)

lemma sample_dates: "dates_parse sample_env sample_proofs_db"
  by (simp add: dates_parse_def sample_proofs_db_def sample_income_def sample_payment_def sample_env_def parse_toISOString utc_year_sample)

lemma sample_owner: "find_row (\<lambda>u. u_id u = a_id sample_worker) (users (auth sample_proofs_db)) = Some (hd (users sample_db))"
  by (simp add: find_row_def sample_worker_def sample_proofs_db_def sample_db_def)

lemma sample_owner_wallet: "u_walletHash (hd (users sample_db)) = a_walletHash sample_worker"
  by (simp add: sample_worker_def sample_db_def)

lemma sample_verdict:
  assumes "createProof sample_env sample_worker (Req_minimum sample_minimum) ''p1'' ''i1'' 20 sample_proofs_db sample_proofs_db = (Inr resp, db')"
  shows "\<exists>v. fst (verifyProof sample_env None None True None ''p1'' 30 db') = Inr v \<and> vf_result v = VR_VALID"
proof -
  have ok: "request_ok (Req_minimum sample_minimum)" by simp
  obtain p c credential where "load_proof ''p1'' db' = Some (p, c, u_walletHash (hd (users sample_db)))"
    "fresh_row p ''p1'' (a_id sample_worker) (expiry_of 20 (request_days (Req_minimum sample_minimum)))"
    "sound_row sample_env (a_walletHash sample_worker) p credential" "pf_claim p = Some c"
    by (rule load_issued [OF createProof_issues [OF assms ok sample_dates] sample_owner]) blast
  then show ?thesis
    by (simp add: verifyProof_def verify_found_def contract_status_of_def contract_result_def local_result_def anchoring_result_def
        sound_row_def fresh_row_def sample_owner_wallet expiry_of_def sample_minimum_def DEFAULT_EXPIRY_DAYS_def sample_env_def)
qed


subsection \<open>The stored hash binds the credential\<close>

definition finite_entries :: "(string \<times> json) list \<Rightarrow> bool" where
  "finite_entries es \<longleftrightarrow> list_all (\<lambda>(k, v). finite_json v) es"

lemma finite_body: "finite_entries claim \<Longrightarrow> finite_entries privacy \<Longrightarrow> finite_json (credential_body h ty schema claim privacy)"
  by (simp add: credential_body_def finite_entries_def)

lemma rebuild_body:
  "\<exists>ty schema claim privacy. finite_entries claim \<and> finite_entries privacy \<and>
     (\<forall>w. rebuildCredential env w p c = credential_body (head_of w p) ty schema claim privacy)"
  by (cases "pf_proofType p")
    (force simp: rebuildCredential_def rebuildAggregateEarningsCredential_def rebuildPaymentReceiptCredential_def
      rebuildInvoiceSettlementCredential_def rebuildEmploymentContinuityCredential_def rebuildEmployerPaymentCredential_def
      buildCredential_def buildAggregateEarningsCredential_def buildPaymentReceiptCredential_def buildInvoiceSettlementCredential_def
      buildRecurringIncomeCredential_def buildIncomeRangeCredential_def buildEmploymentContinuityCredential_def
      buildEmployerPaymentCredential_def finite_entries_def asset_entries_def period_entries_def opt_entry_def json_opt_def
      head_of_def Let_def split: option.splits)+

lemma finite_rebuild [simp]: "finite_json (rebuildCredential env w p c)"
  using rebuild_body [of env p c] finite_body by metis

lemma canonicalize_rebuild:
  "canonicalize (rebuildCredential env w p c) = Some (stringify (sortKeysDeep (rebuildCredential env w p c)))"
  by (simp add: canonicalize_def sortObject_finite)

text \<open>Two different canonical forms with the same digest.\<close>

definition collides :: "proof_env \<Rightarrow> json \<Rightarrow> json \<Rightarrow> bool" where
  "collides env j k \<longleftrightarrow> canonicalize j \<noteq> canonicalize k \<and> pe_sha256 env (the (canonicalize j)) = pe_sha256 env (the (canonicalize k))"

lemma credential_hash_binds:
  assumes "credential_hash env (rebuildCredential env w p c) = credential_hash env (rebuildCredential env w' p' c')"
    and "\<not> collides env (rebuildCredential env w p c) (rebuildCredential env w' p' c')"
  shows "sortKeysDeep (rebuildCredential env w p c) = sortKeysDeep (rebuildCredential env w' p' c')"
proof -
  have "canonicalize (rebuildCredential env w p c) = canonicalize (rebuildCredential env w' p' c')"
    using assms by (simp add: credential_hash_def collides_def)
  then show ?thesis by (metis canonicalize_rebuild canonicalize_inj)
qed

lemma sorted_entry:
  assumes "sortKeysDeep (JObj es) = sortKeysDeep (JObj fs)" "distinct (map fst fs)" "(k, v) \<in> set es" "(k, v') \<in> set fs"
  shows "sortKeysDeep v = sortKeysDeep v'"
proof -
  let ?f = "\<lambda>(k, v). (k, sortKeysDeep v)"
  from assms(1) have "own_order (sort_key fst (map ?f es)) = own_order (sort_key fst (map ?f fs))" by simp
  from arg_cong [OF this, of set] have "?f ` set es = ?f ` set fs" by simp
  moreover have "(k, sortKeysDeep v) \<in> ?f ` set es" using assms(3) by (auto intro: rev_image_eqI)
  ultimately obtain v'' where "(k, v'') \<in> set fs" "sortKeysDeep v'' = sortKeysDeep v" by auto
  moreover from this(1) have "v'' = v'" using assms(2,4) by (blast intro: eq_key_imp_eq_value)
  ultimately show ?thesis by simp
qed

lemma body_binds:
  assumes "sortKeysDeep (credential_body h ty schema claim privacy) = sortKeysDeep (credential_body h' ty' schema' claim' privacy')"
  shows "ch_id h = ch_id h'" "ty = ty'" "ch_walletHash h = ch_walletHash h'"
proof -
  note e = sorted_entry [OF assms [unfolded credential_body_def]]
  show "ch_id h = ch_id h'" using e [of "''id''" "JStr (ch_id h)" "JStr (ch_id h')"] by simp
  show "ty = ty'" using e [of "''type''" "JStr ty" "JStr ty'"] by simp
  have "sortKeysDeep (JObj [(''walletHash'', JStr (ch_walletHash h))]) = sortKeysDeep (JObj [(''walletHash'', JStr (ch_walletHash h'))])"
    by (rule e [of "''subject''"]) simp_all
  from sorted_entry [OF this, of "''walletHash''" "JStr (ch_walletHash h)" "JStr (ch_walletHash h')"]
  show "ch_walletHash h = ch_walletHash h'" by simp
qed

lemma rebuild_binds:
  assumes "sortKeysDeep (rebuildCredential env w p c) = sortKeysDeep (rebuildCredential env w' p' c')"
  shows "pf_id p = pf_id p'" "w = w'"
proof -
  obtain ty schema claim privacy where b: "rebuildCredential env w p c = credential_body (head_of w p) ty schema claim privacy"
    using rebuild_body [of env p c] by blast
  obtain ty' schema' claim' privacy' where b': "rebuildCredential env w' p' c' = credential_body (head_of w' p') ty' schema' claim' privacy'"
    using rebuild_body [of env p' c'] by blast
  from body_binds [OF assms [unfolded b b']] show "pf_id p = pf_id p'" "w = w'" by (simp_all add: head_of_def)
qed

subsection \<open>Verdicts\<close>

lemma verifyProof_found:
  assumes "load_proof pid db = Some (p, c, w)" "fst (verifyProof env None chain budget ip pid t db) = Inr v"
  obtains ks where "contract_status_of chain p = Inr ks"
    "vf_result v = anchoring_result env p (contract_result ks (local_result env w p c t))"
    "vf_credential v = Some (signCredential env (rebuildCredential env w p c))"
  using assms by (cases "contract_status_of chain p") (auto simp: verifyProof_def verify_found_def Let_def)

lemma contract_result_invalid: "contract_result ks VR_INVALID_SIGNATURE \<in> {VR_INVALID_SIGNATURE, VR_REVOKED}"
  by (simp add: contract_result_def split: option.split)

lemma anchoring_result_not_valid: "r \<noteq> VR_VALID \<Longrightarrow> anchoring_result env p r = r"
  by (simp add: anchoring_result_def)

lemma rejected_hash:
  assumes "load_proof pid db = Some (p, c, w)" "fst (verifyProof env None chain budget ip pid t db) = Inr v"
    and "pf_credentialHash p \<noteq> credential_hash env (rebuildCredential env w p c)"
  shows "vf_result v \<in> {VR_INVALID_SIGNATURE, VR_REVOKED}"
proof (rule verifyProof_found [OF assms(1,2)])
  fix ks
  assume "vf_result v = anchoring_result env p (contract_result ks (local_result env w p c t))"
  moreover have "local_result env w p c t = VR_INVALID_SIGNATURE" using assms(3) by (simp add: local_result_def)
  moreover have "contract_result ks VR_INVALID_SIGNATURE \<noteq> VR_VALID" using contract_result_invalid [of ks] by auto
  ultimately have "vf_result v = contract_result ks VR_INVALID_SIGNATURE" by (metis anchoring_result_not_valid)
  with contract_result_invalid [of ks] show ?thesis by simp
qed

lemma accepted_hash:
  assumes "load_proof pid db = Some (p, c, w)" "fst (verifyProof env None chain budget ip pid t db) = Inr v"
    and "vf_result v \<notin> {VR_INVALID_SIGNATURE, VR_REVOKED}"
  shows "pf_credentialHash p = credential_hash env (rebuildCredential env w p c)"
  using rejected_hash [OF assms(1,2)] assms(3) by blast

text \<open>C3. Tamper evidence.  If a proof was accepted (VALID, EXPIRED or UNVERIFIED\_ISSUER) and at another time a
  row with the same stored hash is accepted, in whatever state the rows behind it are by then, the two
  credentials agree in every field up to the order of keys, so they speak of the same proof and the same
  wallet -- unless the two canonical strings are a collision of SHA-256.\<close>

theorem credential_tamper_evident:
  assumes "load_proof pid db = Some (p, c, w)" "fst (verifyProof env None chain budget ip pid t db) = Inr v"
    and "vf_result v \<notin> {VR_INVALID_SIGNATURE, VR_REVOKED}"
    and "load_proof pid' db' = Some (p', c', w')" "fst (verifyProof env None chain' budget' ip' pid' t' db') = Inr v'"
    and "vf_result v' \<notin> {VR_INVALID_SIGNATURE, VR_REVOKED}"
    and "pf_credentialHash p = pf_credentialHash p'"
    and "\<not> collides env (rebuildCredential env w p c) (rebuildCredential env w' p' c')"
  shows "sortKeysDeep (rebuildCredential env w p c) = sortKeysDeep (rebuildCredential env w' p' c') \<and> pf_id p = pf_id p' \<and> w = w'"
proof -
  have "credential_hash env (rebuildCredential env w p c) = credential_hash env (rebuildCredential env w' p' c')"
    using accepted_hash [OF assms(1-3)] accepted_hash [OF assms(4-6)] assms(7) by simp
  from credential_hash_binds [OF this assms(8)] show ?thesis using rebuild_binds by blast
qed

theorem credential_tamper_evident_witness:
  "\<exists>p c w v resp db'. createProof sample_env sample_worker (Req_minimum sample_minimum) ''p1'' ''i1'' 20 sample_proofs_db sample_proofs_db = (Inr resp, db') \<and>
     load_proof ''p1'' db' = Some (p, c, w) \<and> fst (verifyProof sample_env None None True None ''p1'' 30 db') = Inr v \<and>
     vf_result v = VR_VALID \<and> sortKeysDeep (rebuildCredential sample_env w p c) = sortKeysDeep (rebuildCredential sample_env w p c)"
proof -
  obtain resp db' where c:
    "createProof sample_env sample_worker (Req_minimum sample_minimum) ''p1'' ''i1'' 20 sample_proofs_db sample_proofs_db = (Inr resp, db')"
    using sample_issue by blast
  have ok: "request_ok (Req_minimum sample_minimum)" by simp
  obtain p c' w where l: "load_proof ''p1'' db' = Some (p, c', w)"
    by (rule load_issued [OF createProof_issues [OF c ok sample_dates] sample_owner]) blast
  obtain v where v: "fst (verifyProof sample_env None None True None ''p1'' 30 db') = Inr v" "vf_result v = VR_VALID"
    using sample_verdict [OF c] by blast
  have "\<not> collides sample_env (rebuildCredential sample_env w p c') (rebuildCredential sample_env w p c')"
    by (simp add: collides_def)
  with credential_tamper_evident [OF l v(1) _ l v(1)] c l v show ?thesis by auto
qed

end
