(* ===== verification/Renewal.thy ===== *)
theory Renewal
  imports ProofLifecycle
begin

text \<open>
  Renewal and supersession: \<open>proofs/proof-renewal.policy.ts\<close> and the renewal operations of
  \<open>proofs/proofs.service.ts\<close>.

  As for issuance, \<open>db0\<close> is the state the checks read and \<open>db\<close> the one the transaction starts from.
  When the transaction fails, \<open>replayOrConflict\<close> reads \<open>db\<close>.
\<close>

subsection \<open>The policy\<close>

definition RENEWAL_GRACE_PERIOD_DAYS :: int where "RENEWAL_GRACE_PERIOD_DAYS = 30"
definition MAX_SUPERSESSION_CHAIN_DEPTH :: nat where "MAX_SUPERSESSION_CHAIN_DEPTH = 256"
definition MAX_IDEMPOTENCY_KEY_LENGTH :: nat where "MAX_IDEMPOTENCY_KEY_LENGTH = 128"

datatype renewal_ineligibility = Inel_revoked | Inel_invalid | Inel_expired_beyond_grace | Inel_already_superseded

fun ineligibility_code :: "renewal_ineligibility \<Rightarrow> string" where
  "ineligibility_code Inel_revoked = ''revoked''"
| "ineligibility_code Inel_invalid = ''invalid''"
| "ineligibility_code Inel_expired_beyond_grace = ''expired_beyond_grace''"
| "ineligibility_code Inel_already_superseded = ''already_superseded''"

datatype supersession_incompatibility =
    Inc_same_proof | Inc_owner_mismatch | Inc_proof_type_mismatch | Inc_asset_mismatch | Inc_network_mismatch
  | Inc_policy_mismatch | Inc_successor_not_active | Inc_successor_expired | Inc_successor_already_linked
  | Inc_successor_superseded | Inc_successor_predates | Inc_cycle

fun incompatibility_code :: "supersession_incompatibility \<Rightarrow> string" where
  "incompatibility_code Inc_same_proof = ''same_proof''"
| "incompatibility_code Inc_owner_mismatch = ''owner_mismatch''"
| "incompatibility_code Inc_proof_type_mismatch = ''proof_type_mismatch''"
| "incompatibility_code Inc_asset_mismatch = ''asset_mismatch''"
| "incompatibility_code Inc_network_mismatch = ''network_mismatch''"
| "incompatibility_code Inc_policy_mismatch = ''policy_mismatch''"
| "incompatibility_code Inc_successor_not_active = ''successor_not_active''"
| "incompatibility_code Inc_successor_expired = ''successor_expired''"
| "incompatibility_code Inc_successor_already_linked = ''successor_already_linked''"
| "incompatibility_code Inc_successor_superseded = ''successor_superseded''"
| "incompatibility_code Inc_successor_predates = ''successor_predates_predecessor''"
| "incompatibility_code Inc_cycle = ''supersession_cycle''"

definition renewable_until :: "proof_row \<Rightarrow> time_ms" where
  "renewable_until p = pf_expiresAt p + RENEWAL_GRACE_PERIOD_DAYS * 86400000"

definition evaluateRenewalEligibility :: "proof_row \<Rightarrow> time_ms \<Rightarrow> bool \<Rightarrow> renewal_ineligibility list" where
  "evaluateRenewalEligibility p now hasSuccessor =
     (if pf_status p = PS_REVOKED then [Inel_revoked]
      else if pf_status p = PS_INVALID then [Inel_invalid]
      else if renewable_until p \<le> now then [Inel_expired_beyond_grace] else []) @
     (if hasSuccessor \<or> pf_supersededAt p \<noteq> None then [Inel_already_superseded] else [])"

definition POLICY_FLAGS :: "string list" where
  "POLICY_FLAGS = [''senderHidden'', ''amountHidden'', ''exactIncomeHidden'', ''sourceTransactionsHidden'']"

text \<open>Stored policies are JSON columns, so \<open>canonicalize\<close> never throws on them.\<close>

definition policyFingerprint :: "proof_row \<Rightarrow> string option" where
  "policyFingerprint p =
     (let policy = (case pf_claim p of None \<Rightarrow> [] | Some c \<Rightarrow> jsonPolicy (cl_disclosurePolicy c)) in
      canonicalize (JObj [
        (''schemaVersion'', JStr (pf_schemaVersion p)),
        (''operator'', json_opt (map_option cl_operator (pf_claim p))),
        (''frequency'', json_opt (Option.bind (pf_claim p) cl_frequency)),
        (''flags'', JObj (map (\<lambda>flag. (flag, nullish (map_of policy flag) JNull)) POLICY_FLAGS))]))"

text \<open>
  Rows have no issuer column, so the issuer comparison of the source, between twice
  \<open>PROOF_CREDENTIAL_ISSUER\<close>, never adds a reason.
\<close>

definition evaluateSupersessionCompatibility :: "proof_row \<Rightarrow> proof_row \<Rightarrow> time_ms \<Rightarrow> bool \<Rightarrow> supersession_incompatibility list" where
  "evaluateSupersessionCompatibility p q now successorHasSuccessor =
     (if pf_id p = pf_id q then [Inc_same_proof]
      else
        (if pf_userId p \<noteq> pf_userId q then [Inc_owner_mismatch] else []) @
        (if pf_proofType p \<noteq> pf_proofType q then [Inc_proof_type_mismatch] else []) @
        (if pf_assetCode p \<noteq> pf_assetCode q \<or> pf_assetIssuer p \<noteq> pf_assetIssuer q then [Inc_asset_mismatch] else []) @
        (if pf_network p \<noteq> pf_network q then [Inc_network_mismatch] else []) @
        (if policyFingerprint p \<noteq> policyFingerprint q then [Inc_policy_mismatch] else []) @
        (if pf_status q \<noteq> PS_ACTIVE then [Inc_successor_not_active]
         else if pf_expiresAt q \<le> now then [Inc_successor_expired] else []) @
        (if truthy (pf_supersedesId q) then [Inc_successor_already_linked] else []) @
        (if pf_supersededAt q \<noteq> None \<or> successorHasSuccessor then [Inc_successor_superseded] else []) @
        (if pf_createdAt q < pf_createdAt p then [Inc_successor_predates] else []))"

text \<open>
  The walk along the ancestry.  The loop has no bound of its own but the depth test in its body, so it
  is a partial function, and that it returns is a theorem.
\<close>

partial_function (option) cycle_walk :: "(ident \<Rightarrow> ident option) \<Rightarrow> ident \<Rightarrow> ident list \<Rightarrow> nat \<Rightarrow> ident option \<Rightarrow> bool option" where
  "cycle_walk load candidate seen depth current =
     (case current of
        None \<Rightarrow> Some False
      | Some c \<Rightarrow>
          if c = [] then Some False
          else if c = candidate \<or> c \<in> set seen then Some True
          else if depth \<ge> MAX_SUPERSESSION_CHAIN_DEPTH then Some True
          else cycle_walk load candidate (c # seen) (depth + 1) (load c))"

definition wouldCreateCycle :: "ident \<Rightarrow> ident \<Rightarrow> (ident \<Rightarrow> ident option) \<Rightarrow> bool option" where
  "wouldCreateCycle predecessorId candidate load = cycle_walk load candidate [] 0 (Some predecessorId)"

definition renewalRequestHash :: "proof_env \<Rightarrow> ident \<Rightarrow> ident \<Rightarrow> ident option \<Rightarrow> int option \<Rightarrow> string option \<Rightarrow> string" where
  "renewalRequestHash env userId predecessorId successorProofId expiresInDays idempotencyKey =
     ''sha256:'' @ pe_sha256 env (the (canonicalize (JObj [
        (''userId'', JStr userId), (''predecessorId'', JStr predecessorId), (''successorProofId'', json_opt successorProofId),
        (''expiresInDays'', case expiresInDays of None \<Rightarrow> JNull | Some n \<Rightarrow> JInt n), (''idempotencyKey'', json_opt idempotencyKey)])))"

subsection \<open>The operations\<close>

definition supersededBy :: "ident \<Rightarrow> proofs_db \<Rightarrow> proof_row option" where
  "supersededBy pid db = find_row (\<lambda>q. pf_supersedesId q = Some pid) (proofs db)"

definition loadOwnedRenewableProof :: "ident \<Rightarrow> ident \<Rightarrow> proofs_db \<Rightarrow> (http_error, proof_row) result" where
  "loadOwnedRenewableProof userId pid db =
     (case find_row (\<lambda>p. pf_id p = pid) (proofs db) of
        None \<Rightarrow> Inl (NotFound ''Proof not found'')
      | Some p \<Rightarrow> if pf_userId p \<noteq> userId then Inl (Forbidden ''Proof does not belong to this user'') else Inr p)"

definition loadPredecessorId :: "proofs_db \<Rightarrow> ident \<Rightarrow> ident option" where
  "loadPredecessorId db pid = Option.bind (find_row (\<lambda>p. pf_id p = pid) (proofs db)) pf_supersedesId"

record renewal_eligibility =
  re_proofId :: ident
  re_eligible :: bool
  re_reasons :: "renewal_ineligibility list"
  re_renewableUntil :: string
  re_supersedesId :: "ident option"
  re_supersededById :: "ident option"
  re_supersededAt :: "string option"

definition getRenewalEligibility :: "ident \<Rightarrow> ident \<Rightarrow> time_ms \<Rightarrow> proofs_db \<Rightarrow> (http_error, renewal_eligibility) result" where
  "getRenewalEligibility userId pid now db =
     map_sum id (\<lambda>p.
       let reasons = evaluateRenewalEligibility p now (supersededBy (pf_id p) db \<noteq> None) in
       \<lparr>re_proofId = pf_id p, re_eligible = (reasons = []), re_reasons = reasons, re_renewableUntil = toISOString (renewable_until p),
        re_supersedesId = pf_supersedesId p, re_supersededById = map_option pf_id (supersededBy (pf_id p) db),
        re_supersededAt = map_option toISOString (pf_supersededAt p)\<rparr>)
     (loadOwnedRenewableProof userId pid db)"

datatype anchoring_view = Anchored string | Not_anchored string
datatype renewal_mode = Mode_issued | Mode_linked

record renewal =
  rn_predecessorId :: ident
  rn_proofId :: ident
  rn_status :: proof_status
  rn_mode :: renewal_mode
  rn_replayed :: bool
  rn_verificationUrl :: string
  rn_supersededAt :: string
  rn_credential :: json
  rn_anchoring :: anchoring_view

definition renewalResponse :: "proof_env \<Rightarrow> ident \<Rightarrow> time_ms \<Rightarrow> proof_row \<Rightarrow> json \<Rightarrow> renewal_mode \<Rightarrow> bool \<Rightarrow> renewal" where
  "renewalResponse env predecessorId supersededAt q credential mode replayed =
     \<lparr>rn_predecessorId = predecessorId, rn_proofId = pf_id q, rn_status = pf_status q, rn_mode = mode, rn_replayed = replayed,
      rn_verificationUrl = verification_url (pf_id q), rn_supersededAt = toISOString supersededAt, rn_credential = credential,
      rn_anchoring = (if truthy (pf_contractTransactionHash q) then Anchored (the (pf_contractTransactionHash q))
        else Not_anchored (if pe_anchoringEnabled env then ''pending'' else ''disabled''))\<rparr>"

definition claim_guard :: "proof_row \<Rightarrow> proof_row \<Rightarrow> bool" where
  "claim_guard p r \<longleftrightarrow>
     pf_id r = pf_id p \<and> pf_userId r = pf_userId p \<and> pf_supersededAt r = None \<and> pf_status r \<notin> {PS_REVOKED, PS_INVALID}"

definition claim_mark :: "time_ms \<Rightarrow> proof_row \<Rightarrow> proof_row" where
  "claim_mark now r = r\<lparr>pf_supersededAt := Some now\<rparr>"

definition claimPredecessor :: "proof_row \<Rightarrow> time_ms \<Rightarrow> proofs_db \<Rightarrow> (http_error, proofs_db) result" where
  "claimPredecessor p now db =
     (let (ps, n) = update_many (claim_guard p) (claim_mark now) (proofs db) in
      if n \<noteq> 1 then Inl (Conflict ''Proof was renewed or changed concurrently'') else Inr (db\<lparr>proofs := ps\<rparr>))"

text \<open>The owner's wallet hash; the foreign key gives every proof an owner.\<close>

abbreviation owner_wallet :: "proof_row \<Rightarrow> proofs_db \<Rightarrow> string" where
  "owner_wallet p db \<equiv> nullish (wallet_of p db) []"

definition renewed_row :: "proof_env \<Rightarrow> ident \<Rightarrow> proof_row \<Rightarrow> ident \<Rightarrow> time_ms \<Rightarrow> time_ms \<Rightarrow> json \<Rightarrow> string \<Rightarrow> proof_row" where
  "renewed_row env userId p sid now expires credential requestHash =
     \<lparr>pf_id = sid, pf_userId = userId, pf_proofType = pf_proofType p, pf_schemaVersion = pf_schemaVersion p, pf_status = PS_ACTIVE,
      pf_network = pf_network p, pf_assetCode = pf_assetCode p, pf_assetIssuer = pf_assetIssuer p,
      pf_assetPolicyId = None, pf_assetPolicySnapshot = None, pf_periodStart = pf_periodStart p, pf_periodEnd = pf_periodEnd p,
      pf_expiresAt = expires, pf_createdAt = now, pf_credentialHash = credential_hash env credential,
      pf_commitment = Some (credential_commitment env (credential_hash env credential)), pf_contractTransactionHash = None,
      pf_revokedAt = None, pf_revokedByType = None, pf_revokedById = None, pf_revocationReasonCode = None,
      pf_revocationReasonPrivate = None, pf_revocationEvidenceHash = None, pf_supersedesId = Some (pf_id p), pf_supersededAt = None,
      pf_renewalRequestHash = Some requestHash, pf_claim = pf_claim p\<rparr>"

definition issueSuccessor ::
  "proof_env \<Rightarrow> ident \<Rightarrow> proof_row \<Rightarrow> int option \<Rightarrow> string \<Rightarrow> ident \<Rightarrow> ident \<Rightarrow> time_ms \<Rightarrow> proofs_db \<Rightarrow> proofs_db
   \<Rightarrow> (http_error, renewal \<times> proofs_db) result" where
  "issueSuccessor env userId p expiresInDays requestHash sid iid now db0 db =
     (case pf_claim p of
        None \<Rightarrow> Inl (Unprocessable ''Proof is not eligible for renewal: invalid'')
      | Some c \<Rightarrow>
          let expires = expiry_of now expiresInDays;
              credential = rebuildCredential env (owner_wallet p db0) (p\<lparr>pf_id := sid, pf_createdAt := now, pf_expiresAt := expires\<rparr>) c;
              row = renewed_row env userId p sid now expires credential requestHash in
          case claimPredecessor p now db of Inl e \<Rightarrow> Inl e | Inr db1 \<Rightarrow>
          case create_in_tx env row iid now db1 of Inl e \<Rightarrow> Inl e | Inr db2 \<Rightarrow>
            Inr (renewalResponse env (pf_id p) now row (signCredential env credential) Mode_issued False, emitProofCreated userId row db2))"

definition link_guard :: "ident \<Rightarrow> ident \<Rightarrow> proof_row \<Rightarrow> bool" where
  "link_guard sid userId r \<longleftrightarrow>
     pf_id r = sid \<and> pf_userId r = userId \<and> pf_status r = PS_ACTIVE \<and> pf_supersedesId r = None \<and> pf_supersededAt r = None"

definition link_mark :: "ident \<Rightarrow> string \<Rightarrow> proof_row \<Rightarrow> proof_row" where
  "link_mark pid requestHash r = r\<lparr>pf_supersedesId := Some pid, pf_renewalRequestHash := Some requestHash\<rparr>"

text \<open>The conditional update; \<open>supersedesId\<close> is a unique column.\<close>

definition attach_successor :: "ident \<Rightarrow> ident \<Rightarrow> ident \<Rightarrow> string \<Rightarrow> proofs_db \<Rightarrow> (http_error, proofs_db) result" where
  "attach_successor sid userId pid requestHash db =
     (let (ps, n) = update_many (link_guard sid userId) (link_mark pid requestHash) (proofs db) in
      if 0 < n \<and> (\<exists>q\<in>set (proofs db). pf_supersedesId q = Some pid) then Inl UniqueViolation
      else if n \<noteq> 1 then Inl (Conflict ''Successor proof changed during renewal'')
      else Inr (db\<lparr>proofs := ps\<rparr>))"

definition linkSuccessor ::
  "proof_env \<Rightarrow> ident \<Rightarrow> proof_row \<Rightarrow> ident \<Rightarrow> string \<Rightarrow> time_ms \<Rightarrow> proofs_db \<Rightarrow> proofs_db \<Rightarrow> (http_error, renewal \<times> proofs_db) result" where
  "linkSuccessor env userId p sid requestHash now db0 db =
     (case find_row (\<lambda>q. pf_id q = sid \<and> pf_userId q = userId) (proofs db0) of
        None \<Rightarrow> Inl (NotFound ''Successor proof not found'')
      | Some q \<Rightarrow>
          (case pf_claim q of
             None \<Rightarrow> Inl (NotFound ''Successor proof not found'')
           | Some c \<Rightarrow>
               let incompatible = evaluateSupersessionCompatibility p q now (supersededBy (pf_id q) db0 \<noteq> None);
                   cyclic = (Inc_same_proof \<notin> set incompatible \<and> wouldCreateCycle (pf_id p) (pf_id q) (loadPredecessorId db0) \<noteq> Some False);
                   reasons = incompatible @ (if cyclic then [Inc_cycle] else []) in
               if reasons \<noteq> []
               then Inl (Unprocessable (''Successor proof is incompatible: '' @ join '','' (map incompatibility_code reasons)))
               else
                 case claimPredecessor p now db of Inl e \<Rightarrow> Inl e | Inr db1 \<Rightarrow>
                 case attach_successor (pf_id q) userId (pf_id p) requestHash db1 of Inl e \<Rightarrow> Inl e | Inr db2 \<Rightarrow>
                 case find_row (\<lambda>r. pf_id r = pf_id q) (proofs db2) of
                   None \<Rightarrow> Inl (Internal ''P2025'')
                 | Some attached \<Rightarrow>
                     Inr (renewalResponse env (pf_id p) now attached
                            (signCredential env (rebuildCredential env (owner_wallet q db0) q c)) Mode_linked False, db2)))"

definition replayOrConflict :: "proof_env \<Rightarrow> ident \<Rightarrow> string \<Rightarrow> renewal_mode \<Rightarrow> proofs_db \<Rightarrow> (http_error, renewal) result" where
  "replayOrConflict env pid requestHash mode db =
     (case (find_row (\<lambda>p. pf_id p = pid) (proofs db), supersededBy pid db) of
        (Some p, Some q) \<Rightarrow>
          (case pf_claim q of
             Some c \<Rightarrow>
               if pf_renewalRequestHash q = Some requestHash
               then Inr (renewalResponse env pid (nullish (pf_supersededAt p) (pf_createdAt q)) q
                      (signCredential env (rebuildCredential env (owner_wallet q db) q c)) mode True)
               else Inl (Conflict ''Proof has already been superseded'')
           | None \<Rightarrow> Inl (Conflict ''Proof has already been superseded''))
      | _ \<Rightarrow> Inl (Conflict ''Proof has already been superseded''))"

record renew_input =
  rw_successorProofId :: "ident option"
  rw_expiresInDays :: "int option"

definition renewal_hash :: "proof_env \<Rightarrow> ident \<Rightarrow> ident \<Rightarrow> renew_input \<Rightarrow> string option \<Rightarrow> string" where
  "renewal_hash env userId pid inp key =
     renewalRequestHash env userId pid (rw_successorProofId inp)
       (if truthy (rw_successorProofId inp) then None else rw_expiresInDays inp) key"

definition renewProof ::
  "proof_env \<Rightarrow> authenticated_user \<Rightarrow> ident \<Rightarrow> renew_input \<Rightarrow> string option \<Rightarrow> ident \<Rightarrow> ident \<Rightarrow> time_ms \<Rightarrow> proofs_db \<Rightarrow> proofs_db
   \<Rightarrow> (http_error, renewal) result \<times> proofs_db" where
  "renewProof env user pid inp key sid iid now db0 db =
     (if (case key of None \<Rightarrow> False | Some k \<Rightarrow> trim k = [] \<or> length k > MAX_IDEMPOTENCY_KEY_LENGTH)
      then (Inl (BadRequest ''Idempotency-Key must be 1-128 characters''), db)
      else case loadOwnedRenewableProof (a_id user) pid db0 of
        Inl e \<Rightarrow> (Inl e, db)
      | Inr p \<Rightarrow>
          let hash = renewal_hash env (a_id user) (pf_id p) inp key;
              mode = (if truthy (rw_successorProofId inp) then Mode_linked else Mode_issued);
              reasons = evaluateRenewalEligibility p now False in
          if supersededBy (pf_id p) db0 \<noteq> None then (replayOrConflict env (pf_id p) hash mode db, db)
          else if reasons \<noteq> []
          then (Inl (Unprocessable (''Proof is not eligible for renewal: '' @ join '','' (map ineligibility_code reasons))), db)
          else
            case (if truthy (rw_successorProofId inp)
                  then linkSuccessor env (a_id user) p (the (rw_successorProofId inp)) hash now db0 db
                  else issueSuccessor env (a_id user) p (rw_expiresInDays inp) hash sid iid now db0 db) of
              Inr (resp, db') \<Rightarrow> (Inr resp, db')
            | Inl e \<Rightarrow>
                (if (case e of Conflict m \<Rightarrow> True | UniqueViolation \<Rightarrow> True | _ \<Rightarrow> False) then replayOrConflict env (pf_id p) hash mode db else Inl e, db))"

subsection \<open>The walk ends\<close>

text \<open>The ancestry of a proof; an empty identifier counts as none, as it is falsy.\<close>

definition present :: "ident option \<Rightarrow> ident option" where
  "present x = (if x = Some [] then None else x)"

fun ancestor :: "(ident \<Rightarrow> ident option) \<Rightarrow> ident option \<Rightarrow> nat \<Rightarrow> ident option" where
  "ancestor load x 0 = present x"
| "ancestor load x (Suc n) = (case present x of None \<Rightarrow> None | Some c \<Rightarrow> ancestor load (load c) n)"

definition ancestry_avoids :: "(ident \<Rightarrow> ident option) \<Rightarrow> ident option \<Rightarrow> ident \<Rightarrow> nat \<Rightarrow> bool" where
  "ancestry_avoids load x s n \<longleftrightarrow> list_all (\<lambda>k. ancestor load x k \<noteq> Some s) [0..<n]"

definition ends_clear :: "(ident \<Rightarrow> ident option) \<Rightarrow> ident option \<Rightarrow> ident set \<Rightarrow> nat \<Rightarrow> bool" where
  "ends_clear load x bad n \<longleftrightarrow> ancestor load x n = None \<and> (\<forall>k<n. ancestor load x k \<notin> Some ` bad) \<and> inj_on (ancestor load x) {..<n}"

lemma ends_clear_None: "present x = None \<Longrightarrow> ends_clear load x bad 0"
  by (simp add: ends_clear_def)

lemma ends_clear_Suc:
  assumes "present x = Some c"
  shows "ends_clear load x bad (Suc n) \<longleftrightarrow> c \<notin> bad \<and> ends_clear load (load c) (insert c bad) n"
proof -
  have s: "ancestor load x (Suc k) = ancestor load (load c) k" "ancestor load x 0 = Some c" for k using assms by simp_all
  have all: "(\<forall>k<Suc n. ancestor load x k \<notin> Some ` bad) \<longleftrightarrow> c \<notin> bad \<and> (\<forall>k<n. ancestor load (load c) k \<notin> Some ` bad)"
    unfolding All_less_Suc2 s by blast
  have "{..<Suc n} = insert 0 (Suc ` {..<n})" using lessThan_Suc_eq_insert_0 by auto
  then have "inj_on (ancestor load x) {..<Suc n} \<longleftrightarrow>
      inj_on (ancestor load x) (Suc ` {..<n}) \<and> ancestor load x 0 \<notin> ancestor load x ` Suc ` {..<n}"
    by (simp add: inj_on_insert image_iff)
  moreover have "inj_on (ancestor load x) (Suc ` {..<n}) \<longleftrightarrow> inj_on (ancestor load (load c)) {..<n}"
    unfolding inj_on_def by (simp add: s(1) del: ancestor.simps)
  moreover have "ancestor load x 0 \<notin> ancestor load x ` Suc ` {..<n} \<longleftrightarrow> (\<forall>k<n. ancestor load (load c) k \<noteq> Some c)"
    unfolding s(2) image_image s(1) by (auto simp: image_iff dest: sym)
  ultimately show ?thesis unfolding ends_clear_def all s(1) by auto
qed

lemma cycle_walk_decides:
  "depth \<le> MAX_SUPERSESSION_CHAIN_DEPTH \<Longrightarrow> cycle_walk load candidate seen depth x =
     Some (\<not> (\<exists>n. n + depth \<le> MAX_SUPERSESSION_CHAIN_DEPTH \<and> ends_clear load x (insert candidate (set seen)) n))"
proof (induction "MAX_SUPERSESSION_CHAIN_DEPTH - depth" arbitrary: depth seen x)
  case (0 depth seen x)
  then have d: "depth = MAX_SUPERSESSION_CHAIN_DEPTH" by simp
  show ?case
  proof (cases "present x")
    case None
    with d show ?thesis by (subst cycle_walk.simps) (auto simp: present_def ends_clear_None split: option.split if_split_asm)
  next
    case (Some c)
    with d show ?thesis by (subst cycle_walk.simps) (auto simp: present_def ends_clear_def split: if_split_asm)
  qed
next
  case (Suc m depth seen x)
  then have d: "depth < MAX_SUPERSESSION_CHAIN_DEPTH" "m = MAX_SUPERSESSION_CHAIN_DEPTH - (depth + 1)" by simp_all
  show ?case
  proof (cases "present x")
    case None
    then have "\<exists>n. n + depth \<le> MAX_SUPERSESSION_CHAIN_DEPTH \<and> ends_clear load x (insert candidate (set seen)) n"
      using d(1) by (intro exI [of _ 0]) (simp add: ends_clear_None)
    with None show ?thesis by (subst cycle_walk.simps) (auto simp: present_def split: option.split if_split_asm)
  next
    case (Some c)
    then have x: "x = Some c" "c \<noteq> []" by (auto simp: present_def split: if_split_asm)
    let ?bad = "insert candidate (set seen)"
    have "(\<exists>n. n + depth \<le> MAX_SUPERSESSION_CHAIN_DEPTH \<and> ends_clear load x ?bad n) \<longleftrightarrow>
        c \<notin> ?bad \<and> (\<exists>n. n + (depth + 1) \<le> MAX_SUPERSESSION_CHAIN_DEPTH \<and> ends_clear load (load c) (insert c ?bad) n)" (is "?l \<longleftrightarrow> ?r")
    proof
      assume ?l
      then obtain n where n: "n + depth \<le> MAX_SUPERSESSION_CHAIN_DEPTH" "ends_clear load x ?bad n" by blast
      moreover have "ancestor load x 0 = Some c" using Some by simp
      ultimately have "n \<noteq> 0" by (metis ends_clear_def option.distinct(1))
      then obtain k where "n = Suc k" by (cases n) auto
      with n ends_clear_Suc [OF Some] show ?r by auto
    next
      assume ?r
      then obtain n where "c \<notin> ?bad" "n + (depth + 1) \<le> MAX_SUPERSESSION_CHAIN_DEPTH" "ends_clear load (load c) (insert c ?bad) n" by blast
      with ends_clear_Suc [OF Some, of load ?bad n] show ?l by (intro exI [of _ "Suc n"]) simp
    qed
    moreover have "cycle_walk load candidate seen depth x =
        (if c \<in> ?bad then Some True else cycle_walk load candidate (c # seen) (depth + 1) (load c))"
      using x d(1) by (subst cycle_walk.simps) auto
    moreover have "insert candidate (set (c # seen)) = insert c ?bad" by auto
    ultimately show ?thesis using Suc.hyps(1) [OF d(2), of "c # seen" "load c"] d(1) by (auto simp del: insert_commute)
  qed
qed

lemma ancestor_shift: "ancestor load x i = ancestor load y j \<Longrightarrow> ancestor load x (i + d) = ancestor load y (j + d)"
proof -
  have step: "ancestor load z (Suc n) = (case ancestor load z n of None \<Rightarrow> None | Some c \<Rightarrow> present (load c))" for z n
  proof (induction n arbitrary: z)
    case (Suc n)
    show ?case
    proof (cases "present z")
      case (Some a)
      then have "ancestor load z (Suc (Suc n)) = ancestor load (load a) (Suc n)" "ancestor load z (Suc n) = ancestor load (load a) n"
        by simp_all
      with Suc.IH [of "load a"] show ?thesis by simp
    qed simp
  qed (simp split: option.split)
  show "ancestor load x i = ancestor load y j \<Longrightarrow> ancestor load x (i + d) = ancestor load y (j + d)"
    by (induction d) (simp_all del: ancestor.simps add: step)
qed

lemma ends_clear_iff:
  "(\<exists>n\<le>m. ends_clear load x {s} n) \<longleftrightarrow> (\<exists>n\<le>m. ancestor load x n = None \<and> ancestry_avoids load x s n)"
proof
  assume "\<exists>n\<le>m. ends_clear load x {s} n"
  then show "\<exists>n\<le>m. ancestor load x n = None \<and> ancestry_avoids load x s n"
    by (auto simp: ends_clear_def ancestry_avoids_def list_all_iff)
next
  assume "\<exists>n\<le>m. ancestor load x n = None \<and> ancestry_avoids load x s n"
  then obtain n where n: "n \<le> m" "ancestor load x n = None" "\<forall>k<n. ancestor load x k \<noteq> Some s"
    by (auto simp: ancestry_avoids_def list_all_iff)
  define l where "l = (LEAST n. ancestor load x n = None)"
  have l: "ancestor load x l = None" "l \<le> n" "\<And>k. k < l \<Longrightarrow> ancestor load x k \<noteq> None"
    using n(2) unfolding l_def by (auto intro: LeastI Least_le dest: not_less_Least)
  have no: "ancestor load x i \<noteq> ancestor load x j" if "i < j" "j < l" for i j
  proof
    assume "ancestor load x i = ancestor load x j"
    from ancestor_shift [OF this, of "l - j"] that l(1) have "ancestor load x (i + (l - j)) = None" by simp
    moreover have "i + (l - j) < l" using that by simp
    ultimately show False using l(3) by blast
  qed
  have "inj_on (ancestor load x) {..<l}"
    by (rule linorder_inj_onI) (use no in auto)
  with n l show "\<exists>n\<le>m. ends_clear load x {s} n" by (intro exI [of _ l]) (auto simp: ends_clear_def)
qed

text \<open>C25. Cycle detection ends on every stored chain, however corrupt: whatever \<open>loadPredecessorId\<close> answers,
  the walk returns after at most 256 loads, and it clears a link exactly when the predecessor's ancestry
  ends within 256 steps without meeting the candidate successor.\<close>

theorem wouldCreateCycle_decides:
  "wouldCreateCycle p s load =
     Some (\<not> (\<exists>n. n \<le> MAX_SUPERSESSION_CHAIN_DEPTH \<and> ancestor load (Some p) n = None \<and> ancestry_avoids load (Some p) s n))"
  unfolding wouldCreateCycle_def using ends_clear_iff [of MAX_SUPERSESSION_CHAIN_DEPTH load "Some p" s]
  by (simp add: cycle_walk_decides)

end
