(* ===== verification/ContractService.thy ===== *)
theory ContractService
  imports Resilience JsStrings
begin

text \<open>
  The contract calls: \<open>proofs/contract-anchoring.service.ts\<close> and \<open>proofs/contract-error.ts\<close>.

  The command line tool is an argument, a function from its arguments to the text it prints or the
  message of its failure; so are SHA-256 and the redaction of messages.  Every operation returns whether
  the tool was run, besides its answer (or the error it throws) and the circuits.
\<close>

subsection \<open>Errors\<close>

definition PERMANENT_CONTRACT_ERROR_PATTERNS :: "string list" where
  "PERMANENT_CONTRACT_ERROR_PATTERNS =
     [''already registered'', ''already exists'', ''proof not found'', ''invalid contract id'', ''contract not found'', ''unauthorized'', ''access denied'']"

text \<open>\<open>/p/i.test(message)\<close> for a pattern of lower-case letters and blanks.\<close>

definition matches_any :: "string list \<Rightarrow> string \<Rightarrow> bool" where
  "matches_any patterns message \<longleftrightarrow> (\<exists>p\<in>set patterns. contains_sub (toLowerCase message) p)"

definition isPermanentContractError :: "string \<Rightarrow> bool" where
  "isPermanentContractError message = matches_any PERMANENT_CONTRACT_ERROR_PATTERNS message"

fun classifyContractError :: "string call_error \<Rightarrow> call_outcome" where
  "classifyContractError (OpError message) = (if isPermanentContractError message then Ignore else Trip)"
| "classifyContractError (CircuitOpenError s) = Trip"

subsection \<open>The service\<close>

datatype contract_operation = Op_register | Op_revoke | Op_read

record contract_config =
  kc_enabled :: bool
  kc_required :: bool
  kc_source :: "string option"
  kc_network :: string
  kc_contractId :: "string option"
  kc_issuerAddress :: "string option"
  kc_schemaVersion :: int

record contract_io =
  io_sha256 :: "string \<Rightarrow> string"
  io_redact :: "string \<Rightarrow> string"
  io_cli :: "string list \<Rightarrow> (string, string) result"

text \<open>The breaker of each operation, None when no registry is wired.\<close>

type_synonym circuits = "contract_operation \<Rightarrow> circuit_breaker option"

definition circuitState :: "contract_operation \<Rightarrow> time_ms \<Rightarrow> circuits \<Rightarrow> circuit_state \<times> circuits" where
  "circuitState oper now cs =
     (case cs oper of None \<Rightarrow> (Closed, cs) | Some b \<Rightarrow> let (s, b') = snapshot now b in (snap_state s, cs(oper := Some b')))"

definition guarded ::
  "contract_operation \<Rightarrow> (string, string) result \<Rightarrow> time_ms \<Rightarrow> time_ms \<Rightarrow> circuits \<Rightarrow> (string call_error + string) \<times> bool \<times> circuits" where
  "guarded oper outcome now now' cs =
     (case cs oper of
        None \<Rightarrow> (map_sum OpError id outcome, True, cs)
      | Some b \<Rightarrow>
          let (r, b') = execute (map_sum OpError id outcome) classifyContractError now now' b
          in (r, fst (admit now b) = None, cs(oper := Some b')))"

datatype not_anchored_reason = NA_disabled | NA_failed | NA_circuit_open
datatype anchor_result = Anchored_tx string | Not_anchored_because not_anchored_reason "string option"

fun reason_text :: "not_anchored_reason \<Rightarrow> string" where
  "reason_text NA_disabled = ''disabled''"
| "reason_text NA_failed = ''failed''"
| "reason_text NA_circuit_open = ''circuit_open''"

definition hasRequiredConfig :: "contract_config \<Rightarrow> bool" where
  "hasRequiredConfig cfg \<longleftrightarrow> truthy (kc_source cfg) \<and> truthy (kc_contractId cfg) \<and> truthy (kc_issuerAddress cfg)"

text \<open>\<open>split(/\r?\n/)\<close> and \<open>trim\<close>: a carriage return before the line break is blank and trimmed.\<close>

definition lastOutputLine :: "string \<Rightarrow> string" where
  "lastOutputLine out =
     (let lines = filter (\<lambda>l. l \<noteq> []) (map trim (split_on CHR 0x0A out)) in if lines = [] then [] else last lines)"

definition parseBoolean :: "string \<Rightarrow> bool" where
  "parseBoolean value \<longleftrightarrow> toLowerCase (trim value) = ''true''"

definition hexFromSha256 :: "(string \<Rightarrow> string) \<Rightarrow> string \<Rightarrow> string" where
  "hexFromSha256 sha value =
     (let normalized = (if starts_with value ''sha256:'' then drop 7 value else value) in
      if length normalized = 64 \<and> list_all (\<lambda>c. lower_char c \<in> set ''0123456789abcdef'') normalized
      then toLowerCase normalized else sha value)"

definition contractInvokeArgs :: "contract_config \<Rightarrow> string \<Rightarrow> string list \<Rightarrow> bool \<Rightarrow> string list" where
  "contractInvokeArgs cfg functionName functionArgs includeSource =
     [''contract'', ''invoke''] @ (if includeSource then [''--source'', the (kc_source cfg)] else []) @
     [''--network'', kc_network cfg, ''--id'', the (kc_contractId cfg), ''--'', functionName] @ functionArgs"

definition circuitOpenResult :: "contract_config \<Rightarrow> string \<Rightarrow> (string, anchor_result) result" where
  "circuitOpenResult cfg ctx =
     (if kc_required cfg then Inl (ctx @ '' unavailable: dependency circuit is open'')
      else Inr (Not_anchored_because NA_circuit_open None))"

text \<open>What both mutations do with the answer of the tool.\<close>

definition mutation_answer :: "contract_config \<Rightarrow> contract_io \<Rightarrow> string \<Rightarrow> string call_error + string \<Rightarrow> (string, anchor_result) result" where
  "mutation_answer cfg io ctx r =
     (case r of
        Inr out \<Rightarrow> Inr (Anchored_tx (lastOutputLine out))
      | Inl (CircuitOpenError s) \<Rightarrow> circuitOpenResult cfg ctx
      | Inl (OpError m) \<Rightarrow>
          let message = io_redact io m in
          if kc_required cfg then Inl message else Inr (Not_anchored_because NA_failed (Some message)))"

definition register_args :: "contract_config \<Rightarrow> contract_io \<Rightarrow> ident \<Rightarrow> string \<Rightarrow> time_ms \<Rightarrow> string list" where
  "register_args cfg io pid commitment expiresAt =
     [''contract'', ''invoke'', ''--source'', the (kc_source cfg), ''--network'', kc_network cfg, ''--id'', the (kc_contractId cfg), ''--'',
      ''register_proof'', ''--proof_id_hash'', io_sha256 io pid, ''--commitment_hash'', hexFromSha256 (io_sha256 io) commitment,
      ''--issuer_address'', the (kc_issuerAddress cfg), ''--schema_version'', show_int (kc_schemaVersion cfg),
      ''--expires_at'', show_int (expiresAt div 1000)]"

type_synonym mutation = "(string, anchor_result) result \<times> bool \<times> circuits"

definition anchorProof ::
  "contract_config \<Rightarrow> contract_io \<Rightarrow> ident \<Rightarrow> string \<Rightarrow> time_ms \<Rightarrow> time_ms \<Rightarrow> time_ms \<Rightarrow> circuits \<Rightarrow> mutation" where
  "anchorProof cfg io pid commitment expiresAt now now' cs =
     (if \<not> kc_enabled cfg \<or> \<not> hasRequiredConfig cfg then (Inr (Not_anchored_because NA_disabled None), False, cs)
      else
        let (r, called, cs') = guarded Op_register (io_cli io (register_args cfg io pid commitment expiresAt)) now now' cs
        in (mutation_answer cfg io ''Contract anchoring'' r, called, cs'))"

definition contract_revokeProof :: "contract_config \<Rightarrow> contract_io \<Rightarrow> ident \<Rightarrow> time_ms \<Rightarrow> time_ms \<Rightarrow> circuits \<Rightarrow> mutation" where
  "contract_revokeProof cfg io pid now now' cs =
     (if \<not> kc_enabled cfg \<or> \<not> hasRequiredConfig cfg then (Inr (Not_anchored_because NA_disabled None), False, cs)
      else
        let args = contractInvokeArgs cfg ''revoke_proof'' [''--proof_id_hash'', io_sha256 io pid] True;
            (r, called, cs') = guarded Op_revoke (io_cli io args) now now' cs
        in (mutation_answer cfg io ''Contract mutation'' r, called, cs'))"

datatype read_status = Checked bool bool | Not_checked not_anchored_reason "string option"

text \<open>
  \<open>Promise.all\<close> over the two reads: both are admitted before either answers; a refusal rejects at once,
  otherwise the first failure in the list decides.
\<close>

definition admit_read :: "time_ms \<Rightarrow> circuits \<Rightarrow> circuit_state option \<times> circuits" where
  "admit_read now cs = (case cs Op_read of None \<Rightarrow> (None, cs) | Some b \<Rightarrow> let (a, b') = admit now b in (a, cs(Op_read := Some b')))"

definition record_read :: "circuit_state option \<Rightarrow> (string, string) result \<Rightarrow> time_ms \<Rightarrow> circuits \<Rightarrow> circuits" where
  "record_read admitted outcome now cs =
     (case (admitted, cs Op_read) of
        (None, Some b) \<Rightarrow>
          cs(Op_read := Some (record_outcome now (case outcome of Inr _ \<Rightarrow> Success | Inl m \<Rightarrow> classifyContractError (OpError m)) b))
      | _ \<Rightarrow> cs)"

definition contract_getProofStatus :: "contract_config \<Rightarrow> contract_io \<Rightarrow> ident \<Rightarrow> time_ms \<Rightarrow> time_ms \<Rightarrow> circuits \<Rightarrow> (string, read_status) result \<times> circuits" where
  "contract_getProofStatus cfg io pid now now' cs =
     (if \<not> kc_enabled cfg \<or> \<not> hasRequiredConfig cfg then (Inr (Not_checked NA_disabled None), cs)
      else
        let read = (\<lambda>f. io_cli io (contractInvokeArgs cfg f [''--proof_id_hash'', io_sha256 io pid] False));
            (a1, cs1) = admit_read now cs;
            (a2, cs2) = admit_read now cs1;
            cs3 = record_read a2 (read ''is_valid_proof'') now' (record_read a1 (read ''is_revoked'') now' cs2);
            failed = (\<lambda>m. let message = io_redact io m in if kc_required cfg then Inl message else Inr (Not_checked NA_failed (Some message))) in
        (if a1 \<noteq> None \<or> a2 \<noteq> None
         then (if kc_required cfg then Inl ''Contract status check unavailable: circuit is open'' else Inr (Not_checked NA_circuit_open None))
         else case (read ''is_revoked'', read ''is_valid_proof'') of
           (Inl m, _) \<Rightarrow> failed m
         | (_, Inl m) \<Rightarrow> failed m
         | (Inr r, Inr v) \<Rightarrow> Inr (Checked (parseBoolean (lastOutputLine r)) (parseBoolean (lastOutputLine v))), cs3))"

subsection \<open>Facts\<close>

lemma guarded_open:
  assumes "fst (circuitState oper now cs) = Open"
  shows "\<exists>s. fst (guarded oper outcome now now' cs) = Inl (CircuitOpenError s)" "\<not> fst (snd (guarded oper outcome now now' cs))"
proof -
  obtain b where b: "cs oper = Some b" "cb_state (refresh now b) = Open"
    using assms by (auto simp: circuitState_def snapshot_def Let_def split: option.split_asm)
  then have "admit now b = (Some Open, refresh now b)" by (simp add: admit_def Let_def)
  with b show "\<exists>s. fst (guarded oper outcome now now' cs) = Inl (CircuitOpenError s)" "\<not> fst (snd (guarded oper outcome now now' cs))"
    by (simp_all add: guarded_def execute_def run_def)
qed

lemma anchorProof_open:
  assumes "fst (circuitState Op_register now cs) = Open" "kc_enabled cfg" "hasRequiredConfig cfg"
  shows "fst (anchorProof cfg io pid commitment expiresAt now now' cs) = circuitOpenResult cfg ''Contract anchoring''"
    "\<not> fst (snd (anchorProof cfg io pid commitment expiresAt now now' cs))"
proof -
  let ?g = "guarded Op_register (io_cli io (register_args cfg io pid commitment expiresAt)) now now' cs"
  obtain s where "fst ?g = Inl (CircuitOpenError s)" "\<not> fst (snd ?g)" using guarded_open [OF assms(1)] by blast
  with assms(2,3) show "fst (anchorProof cfg io pid commitment expiresAt now now' cs) = circuitOpenResult cfg ''Contract anchoring''"
    "\<not> fst (snd (anchorProof cfg io pid commitment expiresAt now now' cs))"
    by (simp_all add: anchorProof_def mutation_answer_def case_prod_beta Let_def)
qed

lemma contract_revokeProof_open:
  assumes "fst (circuitState Op_revoke now cs) = Open" "kc_enabled cfg" "hasRequiredConfig cfg"
  shows "fst (contract_revokeProof cfg io pid now now' cs) = circuitOpenResult cfg ''Contract mutation''"
    "\<not> fst (snd (contract_revokeProof cfg io pid now now' cs))"
proof -
  let ?g = "guarded Op_revoke (io_cli io (contractInvokeArgs cfg ''revoke_proof'' [''--proof_id_hash'', io_sha256 io pid] True)) now now' cs"
  obtain s where "fst ?g = Inl (CircuitOpenError s)" "\<not> fst (snd ?g)" using guarded_open [OF assms(1)] by blast
  with assms(2,3) show "fst (contract_revokeProof cfg io pid now now' cs) = circuitOpenResult cfg ''Contract mutation''"
    "\<not> fst (snd (contract_revokeProof cfg io pid now now' cs))"
    by (simp_all add: contract_revokeProof_def mutation_answer_def case_prod_beta Let_def)
qed

text \<open>A permanent contract error never moves a circuit towards opening.\<close>

lemma guarded_permanent:
  assumes "cs oper = Some b" "cb_state b = Closed" "isPermanentContractError m"
  shows "snd (snd (guarded oper (Inl m) now now' cs)) oper = Some b"
  using assms by (simp add: guarded_def execute_def run_def admit_def refresh_def record_outcome_def Let_def)

end
