(* ===== verification/Anchoring.thy ===== *)
theory Anchoring
  imports ContractService ProofLifecycle
begin

text \<open>
  The jobs that carry proofs to the contract and back: the worker (\<open>jobs/anchoring-worker.service.ts\<close>), the
  operator's decisions (\<open>ProofsService.retryProofAnchoring\<close>, \<open>abandonProofAnchoring\<close>), the two on-chain
  reconcilers (\<open>jobs/anchoring-reconciler.service.ts\<close>, \<open>proofs/proof-reconciliation.service.ts\<close>) and
  the expiration reconciler (\<open>jobs/proof-expiration-reconciler.service.ts\<close>).

  \<open>now\<close> is the instant at which a call starts, \<open>now'\<close> the instant at which it has answered.  The
  column \<open>updatedAt\<close> orders the batches of the reconcilers and is an argument there.
\<close>

subsection \<open>The worker\<close>

definition MAX_ATTEMPTS :: nat where
  "MAX_ATTEMPTS = 10"

definition BACKOFF_BASE_MS :: int where
  "BACKOFF_BASE_MS = 30000"

definition BACKOFF_CAP_MS :: int where
  "BACKOFF_CAP_MS = 60 * 60000"

definition BATCH_SIZE :: nat where
  "BATCH_SIZE = 5"

definition STALE_PROCESSING_THRESHOLD_MS :: int where
  "STALE_PROCESSING_THRESHOLD_MS = 5 * 60000"

definition POISON_INPUT_PATTERNS :: "string list" where
  "POISON_INPUT_PATTERNS = [''proof not found'', ''invalid contract id'', ''contract not found'']"

definition CHAIN_REJECTED_PATTERNS :: "string list" where
  "CHAIN_REJECTED_PATTERNS = [''already registered'', ''already exists'', ''unauthorized'', ''access denied'']"

definition isPermanentError :: "string \<Rightarrow> bool" where
  "isPermanentError message = matches_any (POISON_INPUT_PATTERNS @ CHAIN_REJECTED_PATTERNS) message"

definition isPoisonInput :: "string \<Rightarrow> bool" where
  "isPoisonInput message = matches_any POISON_INPUT_PATTERNS message"

definition computeNextRetryAt :: "nat \<Rightarrow> time_ms \<Rightarrow> time_ms" where
  "computeNextRetryAt attemptCount now = now + min (BACKOFF_BASE_MS * 2 ^ (attemptCount - 1)) BACKOFF_CAP_MS"

definition resetStaleProcessing :: "time_ms \<Rightarrow> proofs_db \<Rightarrow> proofs_db" where
  "resetStaleProcessing now db =
     db\<lparr>intents := upd_rows
          (\<lambda>i. in_status i = AN_PROCESSING \<and> (case in_lastAttemptAt i of None \<Rightarrow> False | Some t \<Rightarrow> t < now - STALE_PROCESSING_THRESHOLD_MS))
          (\<lambda>i. i\<lparr>in_status := AN_PENDING, in_nextRetryAt := Some now\<rparr>) (intents db)\<rparr>"

definition claimPlan :: "time_ms \<Rightarrow> circuits \<Rightarrow> (anchoring_operation list \<times> nat) \<times> circuits" where
  "claimPlan now cs =
     (let (register, cs1) = circuitState Op_register now cs;
          (revoke, cs2) = circuitState Op_revoke now cs1;
          operations = (if register \<noteq> Open then [AO_REGISTER] else []) @ (if revoke \<noteq> Open then [AO_REVOKE] else []);
          probing = (register = HalfOpen \<and> AO_REGISTER \<in> set operations) \<or> (revoke = HalfOpen \<and> AO_REVOKE \<in> set operations) in
      ((operations, if operations = [] then 0 else if probing then 1 else BATCH_SIZE), cs2))"

text \<open>The \<open>UPDATE ... RETURNING\<close> over the \<open>candidates\<close>.\<close>

definition claim_candidates :: "time_ms \<Rightarrow> anchoring_operation list \<times> nat \<Rightarrow> intent_row table \<Rightarrow> intent_row list" where
  "claim_candidates now plan is =
     take (snd plan) (sort_key in_createdAt (filter (\<lambda>i. in_status i = AN_PENDING \<and>
       (case in_nextRetryAt i of None \<Rightarrow> True | Some t \<Rightarrow> t \<le> now) \<and> in_operation i \<in> set (fst plan)) is))"

definition claim_intents :: "time_ms \<Rightarrow> anchoring_operation list \<times> nat \<Rightarrow> proofs_db \<Rightarrow> ident list \<times> proofs_db" where
  "claim_intents now plan db =
     (let ids = map in_id (claim_candidates now plan (intents db)) in
      (ids, db\<lparr>intents := upd_rows (\<lambda>i. in_id i \<in> set ids) (\<lambda>i. i\<lparr>in_status := AN_PROCESSING, in_lastAttemptAt := Some now\<rparr>) (intents db)\<rparr>))"

text \<open>What the contract call of an intent comes to; \<open>Undelivered\<close> carries the error and its \<open>permanent\<close> flag.\<close>

datatype delivery = Delivered string | Released | Undelivered string bool

definition deliver :: "contract_config \<Rightarrow> contract_io \<Rightarrow> intent_row \<Rightarrow> proof_row \<Rightarrow> time_ms \<Rightarrow> time_ms \<Rightarrow> circuits \<Rightarrow> delivery \<times> circuits" where
  "deliver cfg io i p now now' cs =
     (let pid = in_proofId i;
          (r, called, cs') =
            (if in_operation i = AO_REGISTER then anchorProof cfg io pid (nullish (pf_commitment p) pid) (pf_expiresAt p) now now' cs
             else contract_revokeProof cfg io pid now now' cs) in
      (case r of
         Inl m \<Rightarrow> Undelivered m False
       | Inr (Anchored_tx h) \<Rightarrow> Delivered h
       | Inr (Not_anchored_because reason err) \<Rightarrow>
           if reason = NA_circuit_open then Released
           else Undelivered (nullish err ((if in_operation i = AO_REGISTER then ''Anchoring '' else ''Revocation '') @ reason_text reason))
                  (reason = NA_disabled),
       cs'))"

text \<open>\<open>const [txHash, ledger]\<close>.\<close>

definition tx_parts :: "string \<Rightarrow> string \<times> string option" where
  "tx_parts h = (case split_on CHR '':'' h of t # l # _ \<Rightarrow> (t, Some l) | _ \<Rightarrow> (h, None))"

definition mark_anchored :: "string \<Rightarrow> proof_row \<Rightarrow> proof_row" where
  "mark_anchored h p = p\<lparr>pf_contractTransactionHash := Some h\<rparr>"

definition set_intent :: "ident \<Rightarrow> (intent_row \<Rightarrow> intent_row) \<Rightarrow> proofs_db \<Rightarrow> proofs_db" where
  "set_intent iid f db = db\<lparr>intents := upd_rows (\<lambda>i. in_id i = iid) f (intents db)\<rparr>"

definition confirm_intent :: "intent_row \<Rightarrow> string \<Rightarrow> time_ms \<Rightarrow> proofs_db \<Rightarrow> proofs_db" where
  "confirm_intent i h now db =
     (let (txHash, ledger) = tx_parts h;
          db1 = set_intent (in_id i) (\<lambda>x. x\<lparr>in_status := AN_CONFIRMED, in_attemptCount := in_attemptCount i + 1, in_lastAttemptAt := Some now,
                  in_transactionHash := Some txHash, in_ledger := ledger, in_lastErrorSafe := None, in_permanentError := False\<rparr>) db
      in db1\<lparr>proofs := upd_rows (\<lambda>p. pf_id p = in_proofId i) (mark_anchored txHash) (proofs db1)\<rparr>)"

definition releaseUnclaimed :: "ident \<Rightarrow> time_ms \<Rightarrow> proofs_db \<Rightarrow> proofs_db" where
  "releaseUnclaimed iid now db = set_intent iid (\<lambda>x. x\<lparr>in_status := AN_PENDING, in_nextRetryAt := Some now\<rparr>) db"

definition fail_intent :: "contract_io \<Rightarrow> intent_row \<Rightarrow> string \<Rightarrow> bool \<Rightarrow> time_ms \<Rightarrow> proofs_db \<Rightarrow> proofs_db" where
  "fail_intent io i message explicitlyPermanent now db =
     (let n = in_attemptCount i + 1;
          poisonInput = isPoisonInput message;
          chainRejected = (\<not> poisonInput \<and> (explicitlyPermanent \<or> isPermanentError message));
          permanent = (poisonInput \<or> chainRejected \<or> MAX_ATTEMPTS \<le> n \<or> isPermanentContractError message);
          safeError = ''Error: '' @ io_redact io message in
      set_intent (in_id i)
        (if permanent
         then (\<lambda>x. x\<lparr>in_status := AN_QUARANTINED, in_attemptCount := n, in_lastAttemptAt := Some now, in_nextRetryAt := None,
                in_lastErrorSafe := Some safeError, in_permanentError := True, in_quarantinedAt := Some now,
                in_quarantineReasonCode :=
                  Some (if poisonInput then ''POISON_INPUT'' else if chainRejected then ''CHAIN_REJECTED'' else ''MAX_ATTEMPTS_EXCEEDED''),
                in_quarantineDecision := QD_PENDING\<rparr>)
         else (\<lambda>x. x\<lparr>in_status := AN_PENDING, in_attemptCount := n, in_lastAttemptAt := Some now,
                in_nextRetryAt := Some (computeNextRetryAt n now), in_lastErrorSafe := Some safeError, in_permanentError := False\<rparr>)) db)"

text \<open>\<open>executeIntent\<close> on an intent and its proof as they were read.\<close>

definition executeIntent ::
  "contract_config \<Rightarrow> contract_io \<Rightarrow> intent_row \<Rightarrow> proof_row \<Rightarrow> time_ms \<Rightarrow> time_ms \<Rightarrow> circuits \<Rightarrow> proofs_db \<Rightarrow> circuits \<times> proofs_db" where
  "executeIntent cfg io i p now now' cs db =
     (case find_row (\<lambda>x. in_proofId x = in_proofId i \<and> in_operation x = in_operation i \<and> in_status x = AN_CONFIRMED \<and> in_id x \<noteq> in_id i)
             (intents db) of
        Some x \<Rightarrow>
          (cs, set_intent (in_id i) (\<lambda>y. y\<lparr>in_status := AN_CONFIRMED, in_transactionHash := in_transactionHash x, in_ledger := in_ledger x,
                 in_lastErrorSafe := None\<rparr>) db)
      | None \<Rightarrow>
          let (d, cs') = deliver cfg io i p now now' cs in
          (cs', case d of
             Delivered h \<Rightarrow> confirm_intent i h now' db
           | Released \<Rightarrow> releaseUnclaimed (in_id i) now' db
           | Undelivered m perm \<Rightarrow> fail_intent io i m perm now' db))"

definition load_intent :: "ident \<Rightarrow> proofs_db \<Rightarrow> (intent_row \<times> proof_row) option" where
  "load_intent iid db =
     (case find_row (\<lambda>i. in_id i = iid) (intents db) of
        None \<Rightarrow> None
      | Some i \<Rightarrow> map_option (Pair i) (find_row (\<lambda>p. pf_id p = in_proofId i) (proofs db)))"

definition processIntent ::
  "contract_config \<Rightarrow> contract_io \<Rightarrow> ident \<Rightarrow> time_ms \<Rightarrow> time_ms \<Rightarrow> circuits \<Rightarrow> proofs_db \<Rightarrow> circuits \<times> proofs_db" where
  "processIntent cfg io iid now now' cs db =
     (case load_intent iid db of
        None \<Rightarrow> (cs, db)
      | Some (i, p) \<Rightarrow>
          if in_status i \<in> {AN_CONFIRMED, AN_FAILED, AN_QUARANTINED} then (cs, db) else executeIntent cfg io i p now now' cs db)"

text \<open>The claimed intents one after the other; \<open>clock\<close> gives the instants of each call.\<close>

fun execute_claimed ::
  "contract_config \<Rightarrow> contract_io \<Rightarrow> (ident \<Rightarrow> time_ms \<times> time_ms) \<Rightarrow> ident list \<Rightarrow> circuits \<Rightarrow> proofs_db \<Rightarrow> circuits \<times> proofs_db" where
  "execute_claimed cfg io clock [] cs db = (cs, db)"
| "execute_claimed cfg io clock (iid # ids) cs db =
     (case load_intent iid db of
        None \<Rightarrow> execute_claimed cfg io clock ids cs db
      | Some (i, p) \<Rightarrow>
          let (cs', db') = executeIntent cfg io i p (fst (clock iid)) (snd (clock iid)) cs db
          in execute_claimed cfg io clock ids cs' db')"

definition processBatch ::
  "contract_config \<Rightarrow> contract_io \<Rightarrow> (ident \<Rightarrow> time_ms \<times> time_ms) \<Rightarrow> time_ms \<Rightarrow> circuits \<Rightarrow> proofs_db \<Rightarrow> circuits \<times> proofs_db" where
  "processBatch cfg io clock now cs db =
     (let (plan, cs1) = claimPlan now cs in
      if snd plan = 0 then (cs1, db)
      else let (ids, db1) = claim_intents now plan db in execute_claimed cfg io clock ids cs1 db1)"

text \<open>\<open>poll\<close>, with the flag \<open>draining\<close> that shutdown sets.\<close>

definition poll ::
  "contract_config \<Rightarrow> contract_io \<Rightarrow> bool \<Rightarrow> (ident \<Rightarrow> time_ms \<times> time_ms) \<Rightarrow> time_ms \<Rightarrow> circuits \<Rightarrow> proofs_db \<Rightarrow> circuits \<times> proofs_db" where
  "poll cfg io draining clock now cs db =
     (if draining \<or> \<not> kc_enabled cfg then (cs, db) else processBatch cfg io clock now cs (resetStaleProcessing now db))"

subsection \<open>The operator's decisions\<close>

definition owned_proof :: "authenticated_user \<Rightarrow> ident \<Rightarrow> proofs_db \<Rightarrow> proof_row option" where
  "owned_proof user pid db = find_row (\<lambda>p. pf_id p = pid \<and> (a_role user = ADMIN \<or> pf_userId p = a_id user)) (proofs db)"

record intent_view =
  iv_id :: ident
  iv_operation :: anchoring_operation
  iv_status :: anchoring_status
  iv_attemptCount :: nat
  iv_lastAttemptAt :: "string option"
  iv_nextRetryAt :: "string option"
  iv_lastErrorSafe :: "string option"
  iv_permanentError :: bool
  iv_transactionHash :: "string option"
  iv_quarantinedAt :: "string option"
  iv_quarantineReasonCode :: "string option"
  iv_quarantineDecision :: quarantine_decision
  iv_decidedAt :: "string option"

definition intent_view :: "intent_row \<Rightarrow> intent_view" where
  "intent_view i =
     \<lparr>iv_id = in_id i, iv_operation = in_operation i, iv_status = in_status i, iv_attemptCount = in_attemptCount i,
      iv_lastAttemptAt = map_option toISOString (in_lastAttemptAt i), iv_nextRetryAt = map_option toISOString (in_nextRetryAt i),
      iv_lastErrorSafe = in_lastErrorSafe i, iv_permanentError = in_permanentError i, iv_transactionHash = in_transactionHash i,
      iv_quarantinedAt = map_option toISOString (in_quarantinedAt i), iv_quarantineReasonCode = in_quarantineReasonCode i,
      iv_quarantineDecision = in_quarantineDecision i, iv_decidedAt = map_option toISOString (in_decidedAt i)\<rparr>"

definition getProofAnchoringStatus :: "authenticated_user \<Rightarrow> ident \<Rightarrow> proofs_db \<Rightarrow> (http_error, ident \<times> intent_view list) result" where
  "getProofAnchoringStatus user pid db =
     (case owned_proof user pid db of
        None \<Rightarrow> Inl (NotFound ''Proof not found'')
      | Some p \<Rightarrow> Inr (pf_id p, map intent_view (sort_key in_createdAt (find_many (\<lambda>i. in_proofId i = pf_id p) (intents db)))))"

fun intent_status_name :: "anchoring_status \<Rightarrow> string" where
  "intent_status_name AN_PENDING = ''PENDING''"
| "intent_status_name AN_PROCESSING = ''PROCESSING''"
| "intent_status_name AN_CONFIRMED = ''CONFIRMED''"
| "intent_status_name AN_FAILED = ''FAILED''"
| "intent_status_name AN_QUARANTINED = ''QUARANTINED''"

fun decision_name :: "quarantine_decision \<Rightarrow> string" where
  "decision_name QD_PENDING = ''PENDING''"
| "decision_name QD_REDRIVEN = ''REDRIVEN''"
| "decision_name QD_ABANDONED = ''ABANDONED''"

text \<open>The transaction of a decision: the update, which fails on a missing row, and its audit entry.\<close>

definition decide_intent ::
  "authenticated_user \<Rightarrow> ident \<Rightarrow> ident \<Rightarrow> string \<Rightarrow> string \<Rightarrow> (intent_row \<Rightarrow> intent_row) \<Rightarrow> ident \<Rightarrow> time_ms \<Rightarrow> proofs_db
   \<Rightarrow> (http_error, intent_row) result \<times> proofs_db" where
  "decide_intent user pid iid action stamp f aid now db =
     (case find_row (\<lambda>i. in_id i = iid) (intents db) of
        None \<Rightarrow> (Inl (Internal ''P2025''), db)
      | Some i \<Rightarrow>
          case tx_audit_create aid (proof_audit (a_id user) action pid
                 [(''intentId'', JStr iid), (stamp, JStr (toISOString now))]) now (audit_logs (auth db)) of
            Inl e \<Rightarrow> (Inl e, db)
          | Inr logs \<Rightarrow> (Inr (f i), (set_intent iid f db)\<lparr>auth := (auth db)\<lparr>audit_logs := logs\<rparr>\<rparr>))"

definition retryProofAnchoring ::
  "authenticated_user \<Rightarrow> ident \<Rightarrow> ident \<Rightarrow> ident \<Rightarrow> time_ms \<Rightarrow> proofs_db \<Rightarrow> proofs_db \<Rightarrow> (http_error, intent_row) result \<times> proofs_db" where
  "retryProofAnchoring user pid iid aid now db0 db =
     (case owned_proof user pid db0 of
        None \<Rightarrow> (Inl (NotFound ''Proof not found''), db)
      | Some p \<Rightarrow>
          case find_row (\<lambda>i. in_id i = iid \<and> in_proofId i = pf_id p) (intents db0) of
            None \<Rightarrow> (Inl (NotFound ''Anchoring intent not found for this proof''), db)
          | Some i \<Rightarrow>
              if in_status i \<noteq> AN_QUARANTINED \<or> in_quarantineDecision i = QD_ABANDONED
              then (Inl (Unprocessable (''Anchoring intent '' @ iid @ '' is not eligible for retry (status: '' @ intent_status_name (in_status i) @
                     '', quarantineDecision: '' @ decision_name (in_quarantineDecision i) @ '')'')), db)
              else decide_intent user (pf_id p) iid ''anchoring_intent.retried'' ''requeuedAt''
                     (\<lambda>x. x\<lparr>in_status := AN_PENDING, in_permanentError := False, in_nextRetryAt := Some now, in_quarantineDecision := QD_REDRIVEN,
                        in_decidedById := Some (a_id user), in_decidedAt := Some now\<rparr>) aid now db)"

definition abandonProofAnchoring ::
  "authenticated_user \<Rightarrow> ident \<Rightarrow> ident \<Rightarrow> ident \<Rightarrow> time_ms \<Rightarrow> proofs_db \<Rightarrow> proofs_db \<Rightarrow> (http_error, intent_row) result \<times> proofs_db" where
  "abandonProofAnchoring user pid iid aid now db0 db =
     (case owned_proof user pid db0 of
        None \<Rightarrow> (Inl (NotFound ''Proof not found''), db)
      | Some p \<Rightarrow>
          case find_row (\<lambda>i. in_id i = iid \<and> in_proofId i = pf_id p) (intents db0) of
            None \<Rightarrow> (Inl (NotFound ''Anchoring intent not found for this proof''), db)
          | Some i \<Rightarrow>
              if in_status i \<noteq> AN_QUARANTINED
              then (Inl (Unprocessable (''Anchoring intent '' @ iid @ '' is not eligible for abandonment (status: '' @
                     intent_status_name (in_status i) @ '')'')), db)
              else if in_quarantineDecision i = QD_ABANDONED then (Inr i, db)
              else decide_intent user (pf_id p) iid ''anchoring_intent.abandoned'' ''decidedAt''
                     (\<lambda>x. x\<lparr>in_quarantineDecision := QD_ABANDONED, in_decidedById := Some (a_id user), in_decidedAt := Some now\<rparr>) aid now db)"

subsection \<open>The on-chain reconcilers\<close>

definition mark_repaired :: "time_ms \<Rightarrow> proof_row \<Rightarrow> proof_row" where
  "mark_repaired now p = p\<lparr>pf_status := PS_REVOKED, pf_revokedAt := Some now\<rparr>"

definition repair_proof :: "ident \<Rightarrow> time_ms \<Rightarrow> proofs_db \<Rightarrow> proofs_db" where
  "repair_proof pid now db = db\<lparr>proofs := upd_rows (\<lambda>p. pf_id p = pid) (mark_repaired now) (proofs db)\<rparr>"

definition MANUAL_REVIEW_REASON :: string where
  "MANUAL_REVIEW_REASON = ''reconciler: on-chain proof is neither valid nor revoked while local status is ACTIVE''"

definition flagForManualReview :: "ident \<Rightarrow> string \<Rightarrow> ident \<Rightarrow> time_ms \<Rightarrow> proofs_db \<Rightarrow> (http_error, unit) result \<times> proofs_db" where
  "flagForManualReview pid reason iid now db =
     (case find_row (\<lambda>i. in_proofId i = pid \<and> in_operation i = AO_REGISTER \<and> in_status i = AN_QUARANTINED \<and> in_permanentError i \<and>
              in_lastErrorSafe i = Some reason) (intents db) of
        Some _ \<Rightarrow> (Inr (), db)
      | None \<Rightarrow>
          case insert_intent ((new_intent iid pid AO_REGISTER now)\<lparr>in_status := AN_QUARANTINED, in_permanentError := True,
                 in_lastErrorSafe := Some reason, in_quarantinedAt := Some now, in_quarantineReasonCode := Some ''MANUAL_REVIEW''\<rparr>) db of
            Inl e \<Rightarrow> (Inl e, db)
          | Inr db' \<Rightarrow> (Inr (), db'))"

definition enqueueRevoke :: "ident \<Rightarrow> ident \<Rightarrow> time_ms \<Rightarrow> proofs_db \<Rightarrow> (http_error, unit) result \<times> proofs_db" where
  "enqueueRevoke pid iid now db =
     (case find_row (\<lambda>i. in_proofId i = pid \<and> in_operation i = AO_REVOKE) (intents db) of
        Some i \<Rightarrow>
          if in_status i = AN_PENDING \<or> in_status i = AN_PROCESSING then (Inr (), db)
          else (Inr (), set_intent (in_id i) (\<lambda>x. x\<lparr>in_status := AN_PENDING, in_permanentError := False, in_lastErrorSafe := None,
                  in_nextRetryAt := Some now\<rparr>) db)
      | None \<Rightarrow> case insert_intent (new_intent iid pid AO_REVOKE now) db of Inl e \<Rightarrow> (Inl e, db) | Inr db' \<Rightarrow> (Inr (), db'))"

text \<open>\<open>p\<close> is the proof as the batch query read it, \<open>answer\<close> what \<open>getProofStatus\<close> gave or threw.\<close>

definition reconcileProof ::
  "proof_row \<Rightarrow> (string, read_status) result \<Rightarrow> ident \<Rightarrow> time_ms \<Rightarrow> proofs_db \<Rightarrow> (http_error, unit) result \<times> proofs_db" where
  "reconcileProof p answer iid now db =
     (if \<not> truthy (pf_contractTransactionHash p) then (Inr (), db)
      else case answer of
        Inl m \<Rightarrow> (Inl (Internal m), db)
      | Inr (Not_checked _ _) \<Rightarrow> (Inr (), db)
      | Inr (Checked revoked valid) \<Rightarrow>
          if pf_status p = PS_ACTIVE then
            (if revoked then (Inr (), repair_proof (pf_id p) now db)
             else if \<not> valid then flagForManualReview (pf_id p) MANUAL_REVIEW_REASON iid now db
             else (Inr (), db))
          else if pf_status p = PS_REVOKED then (if \<not> revoked then enqueueRevoke (pf_id p) iid now db else (Inr (), db))
          else (Inr (), db))"

definition reconcile_batch :: "(ident \<Rightarrow> time_ms) \<Rightarrow> nat \<Rightarrow> proofs_db \<Rightarrow> proof_row list" where
  "reconcile_batch updatedAt limit db =
     take limit (sort_key (\<lambda>p. updatedAt (pf_id p))
       (filter (\<lambda>p. pf_contractTransactionHash p \<noteq> None \<and> pf_status p \<in> {PS_ACTIVE, PS_REVOKED}) (proofs db)))"

text \<open>The loop of the job: the first error ends it.  \<open>chain\<close> answers the status calls, \<open>fresh\<close> draws the intent ids.\<close>

fun reconcile_all ::
  "(ident \<Rightarrow> (string, read_status) result) \<Rightarrow> (ident \<Rightarrow> ident) \<Rightarrow> time_ms \<Rightarrow> proof_row list \<Rightarrow> proofs_db \<Rightarrow> (http_error, unit) result \<times> proofs_db" where
  "reconcile_all chain fresh now [] db = (Inr (), db)"
| "reconcile_all chain fresh now (p # ps) db =
     (case reconcileProof p (chain (pf_id p)) (fresh (pf_id p)) now db of
        (Inl e, db') \<Rightarrow> (Inl e, db')
      | (Inr _, db') \<Rightarrow> reconcile_all chain fresh now ps db')"

definition runReconcile ::
  "(ident \<Rightarrow> time_ms) \<Rightarrow> (ident \<Rightarrow> (string, read_status) result) \<Rightarrow> (ident \<Rightarrow> ident) \<Rightarrow> time_ms \<Rightarrow> proofs_db
   \<Rightarrow> (http_error, unit) result \<times> proofs_db" where
  "runReconcile updatedAt chain fresh now db = reconcile_all chain fresh now (reconcile_batch updatedAt 20 db) db"

text \<open>
  \<open>ProofReconciliationService\<close>: the same repairs, a table of conflicts for what it cannot repair, and every
  error caught.  The checkpoint it keeps is a row of its own that nothing else reads.
\<close>

record conflict_row =
  cf_resourceId :: ident
  cf_conflictType :: string
  cf_reason :: string

definition reconcileProofState ::
  "proof_row \<Rightarrow> (string, read_status) result \<Rightarrow> ident \<Rightarrow> time_ms \<Rightarrow> proofs_db \<times> conflict_row list
   \<Rightarrow> (http_error, bool \<times> bool) result \<times> proofs_db \<times> conflict_row list" where
  "reconcileProofState p answer iid now st =
     (let (db, cfs) = st in
      if \<not> truthy (pf_contractTransactionHash p) then (Inr (False, False), st)
      else case answer of
        Inl m \<Rightarrow> (Inl (Internal m), st)
      | Inr (Not_checked _ _) \<Rightarrow> (Inr (False, False), st)
      | Inr (Checked revoked valid) \<Rightarrow>
          if pf_status p = PS_ACTIVE \<and> revoked then (Inr (True, False), repair_proof (pf_id p) now db, cfs)
          else if pf_status p = PS_ACTIVE \<and> \<not> valid
          then (Inr (False, True), db,
                insert_row \<lparr>cf_resourceId = pf_id p, cf_conflictType = ''STATE_MISMATCH'',
                  cf_reason = ''Contract reports invalid but not revoked while local status is ACTIVE''\<rparr> cfs)
          else if pf_status p = PS_REVOKED \<and> \<not> revoked then (Inr (True, False), snd (enqueueRevoke (pf_id p) iid now db), cfs)
          else (Inr (False, False), st))"

fun reconcileAnchoredProofs ::
  "(ident \<Rightarrow> (string, read_status) result) \<Rightarrow> (ident \<Rightarrow> ident) \<Rightarrow> time_ms \<Rightarrow> proof_row list \<Rightarrow> proofs_db \<times> conflict_row list
   \<Rightarrow> proofs_db \<times> conflict_row list" where
  "reconcileAnchoredProofs chain fresh now [] st = st"
| "reconcileAnchoredProofs chain fresh now (p # ps) st =
     reconcileAnchoredProofs chain fresh now ps (snd (reconcileProofState p (chain (pf_id p)) (fresh (pf_id p)) now st))"

subsection \<open>The expiration reconciler\<close>

definition EXPIRATION_BATCH_SIZE :: nat where
  "EXPIRATION_BATCH_SIZE = 100"

definition MAX_BATCHES_PER_CYCLE :: nat where
  "MAX_BATCHES_PER_CYCLE = 10"

datatype reminder_status = RM_SCHEDULED | RM_ENQUEUED | RM_DELIVERED | RM_CANCELLED

record reminder_row =
  rm_proofId :: ident
  rm_status :: reminder_status
  rm_cancelledAt :: "time_ms option"
  rm_cancellationReason :: "string option"

definition mark_expired :: "proof_row \<Rightarrow> proof_row" where
  "mark_expired p = p\<lparr>pf_status := PS_EXPIRED\<rparr>"

definition expiredProofs :: "time_ms \<Rightarrow> proofs_db \<Rightarrow> ident list" where
  "expiredProofs now db =
     map pf_id (take EXPIRATION_BATCH_SIZE (sort_key pf_expiresAt (filter (\<lambda>p. pf_status p = PS_ACTIVE \<and> pf_expiresAt p \<le> now) (proofs db))))"

text \<open>The ids come from \<open>db0\<close>, the state the query read.\<close>

definition reconcileBatch :: "time_ms \<Rightarrow> proofs_db \<Rightarrow> proofs_db \<times> reminder_row table \<Rightarrow> nat \<times> proofs_db \<times> reminder_row table" where
  "reconcileBatch now db0 st =
     (let (db, rms) = st; ids = expiredProofs now db0 in
      if ids = [] then (0, st)
      else
        let (ps, n) = update_many (\<lambda>p. pf_id p \<in> set ids \<and> pf_status p = PS_ACTIVE) mark_expired (proofs db) in
        (n, db\<lparr>proofs := ps\<rparr>,
         upd_rows (\<lambda>r. rm_proofId r \<in> set ids \<and> rm_status r \<in> {RM_SCHEDULED, RM_ENQUEUED})
           (\<lambda>r. r\<lparr>rm_status := RM_CANCELLED, rm_cancelledAt := Some now, rm_cancellationReason := Some ''Proof expired during reconciliation''\<rparr>) rms))"

text \<open>The loop over the batches with nothing between a batch's query and its update; \<open>clock\<close> gives each batch its instant.\<close>

fun reconcile_batches :: "(nat \<Rightarrow> time_ms) \<Rightarrow> nat \<Rightarrow> proofs_db \<times> reminder_row table \<Rightarrow> nat \<times> proofs_db \<times> reminder_row table" where
  "reconcile_batches clock 0 st = (0, st)"
| "reconcile_batches clock (Suc k) st =
     (let (n, st1) = reconcileBatch (clock k) (fst st) st in
      if n < EXPIRATION_BATCH_SIZE then (n, st1)
      else let (total, st2) = reconcile_batches clock k st1 in (n + total, st2))"

definition reconcileExpiredProofs ::
  "bool \<Rightarrow> bool \<Rightarrow> (nat \<Rightarrow> time_ms) \<Rightarrow> proofs_db \<times> reminder_row table \<Rightarrow> proofs_db \<times> reminder_row table" where
  "reconcileExpiredProofs enabled running clock st =
     (if \<not> enabled \<or> running then st else snd (reconcile_batches clock MAX_BATCHES_PER_CYCLE st))"

text \<open>A stored minimum-income proof and its store.\<close>

definition sample_row :: proof_row where
  "sample_row =
     \<lparr>pf_id = ''p1'', pf_userId = ''u1'', pf_proofType = PT_MINIMUM_INCOME, pf_schemaVersion = SCHEMA_VERSION, pf_status = PS_ACTIVE,
      pf_network = ''testnet'', pf_assetCode = ''XLM'', pf_assetIssuer = None, pf_assetPolicyId = None, pf_assetPolicySnapshot = None,
      pf_periodStart = Some 0, pf_periodEnd = Some 10, pf_expiresAt = 100, pf_createdAt = 20, pf_credentialHash = [], pf_commitment = None,
      pf_contractTransactionHash = Some ''tx'', pf_revokedAt = None, pf_revokedByType = None, pf_revokedById = None,
      pf_revocationReasonCode = None, pf_revocationReasonPrivate = None, pf_revocationEvidenceHash = None, pf_supersedesId = None,
      pf_supersededAt = None, pf_renewalRequestHash = None,
      pf_claim = Some \<lparr>cl_operator = ''gte'', cl_thresholdEncrypted = None, cl_frequency = None, cl_result = True, cl_disclosurePolicy = JObj []\<rparr>\<rparr>"

definition sample_store :: proofs_db where
  "sample_store = sample_proofs_db\<lparr>proofs := [sample_row]\<rparr>"

definition sample_intent :: "anchoring_operation \<Rightarrow> intent_row" where
  "sample_intent oper = new_intent ''i1'' ''p1'' oper 25"

definition sample_queue :: proofs_db where
  "sample_queue = sample_store\<lparr>intents := [sample_intent AO_REGISTER]\<rparr>"

definition sample_contract :: "bool \<Rightarrow> contract_config" where
  "sample_contract required =
     \<lparr>kc_enabled = True, kc_required = required, kc_source = Some ''s'', kc_network = ''testnet'', kc_contractId = Some ''c'',
      kc_issuerAddress = Some ''i'', kc_schemaVersion = 1\<rparr>"

definition sample_io :: contract_io where
  "sample_io = \<lparr>io_sha256 = id, io_redact = id, io_cli = (\<lambda>_. Inl ''timeout'')\<rparr>"

definition sample_open :: circuits where
  "sample_open = (\<lambda>_. Some (open_circuit 0 (new_circuit_breaker None None None None)))"

subsection \<open>The retry budget\<close>

definition intent_ok :: "intent_row \<Rightarrow> bool" where
  "intent_ok i \<longleftrightarrow>
     (if in_status i = AN_PENDING \<or> in_status i = AN_PROCESSING then in_attemptCount i < MAX_ATTEMPTS else in_attemptCount i \<le> MAX_ATTEMPTS) \<and>
     (in_status i = AN_QUARANTINED \<longrightarrow>
        in_permanentError i \<and> in_quarantinedAt i \<noteq> None \<and> in_quarantineReasonCode i \<noteq> None \<and> in_nextRetryAt i = None)"

definition intents_ok :: "proofs_db \<Rightarrow> bool" where
  "intents_ok db \<longleftrightarrow> unique_on in_id (intents db) \<and> (\<forall>i\<in>set (intents db). intent_ok i)"

lemma intents_ok_upd:
  assumes "intents_ok db" "\<And>i. i \<in> set (intents db) \<Longrightarrow> g i \<Longrightarrow> in_id (f i) = in_id i \<and> intent_ok (f i)"
  shows "intents_ok (db\<lparr>intents := upd_rows g f (intents db)\<rparr>)"
  using assms by (auto simp: intents_ok_def unique_on_upd_rows elim!: upd_rowsE)

lemma intents_ok_set_intent:
  assumes "intents_ok db" "i \<in> set (intents db)" "in_id (f i) = in_id i" "intent_ok (f i)"
  shows "intents_ok (set_intent (in_id i) f db)"
  unfolding set_intent_def
proof (rule intents_ok_upd [OF assms(1)])
  fix x assume "x \<in> set (intents db)" "in_id x = in_id i"
  with assms(1,2) have "x = i" by (auto simp: intents_ok_def dest: unique_on_eqD)
  with assms(3,4) show "in_id (f x) = in_id x \<and> intent_ok (f x)" by simp
qed

lemma intents_ok_proofs [simp]: "intents_ok (db\<lparr>proofs := ps\<rparr>) = intents_ok db"
  by (simp add: intents_ok_def)

lemma resetStaleProcessing_ok: "intents_ok db \<Longrightarrow> intents_ok (resetStaleProcessing now db)"
  unfolding resetStaleProcessing_def by (rule intents_ok_upd) (auto simp: intents_ok_def intent_ok_def)

lemma claim_candidates_member:
  assumes "i \<in> set (claim_candidates now plan is)"
  shows "i \<in> set is" "in_status i = AN_PENDING" "in_operation i \<in> set (fst plan)" "case in_nextRetryAt i of None \<Rightarrow> True | Some t \<Rightarrow> t \<le> now"
  using set_take_subset [of "snd plan"] assms by (fastforce simp: claim_candidates_def)+

lemma distinct_candidates:
  assumes "unique_on in_id is"
  shows "distinct (map in_id (claim_candidates now plan is))"
proof -
  let ?f = "filter (\<lambda>i. in_status i = AN_PENDING \<and> (case in_nextRetryAt i of None \<Rightarrow> True | Some t \<Rightarrow> t \<le> now) \<and>
       in_operation i \<in> set (fst plan)) is"
  have i: "inj_on in_id (set is)" and d: "distinct is" using assms by (simp_all add: unique_on_def distinct_map)
  have "inj_on in_id (set ?f)" by (rule inj_on_subset [OF i]) simp
  then have "distinct (map in_id (sort_key in_createdAt ?f))" using distinct_filter [OF d] by (simp only: distinct_map set_sort distinct_sort)
  then show ?thesis unfolding claim_candidates_def take_map [symmetric] by (rule distinct_take)
qed

lemma claim_intents_ok:
  assumes "intents_ok db" "claim_intents now plan db = (ids, db1)"
  shows "intents_ok db1" "distinct ids" "\<forall>i\<in>set (intents db1). in_id i \<in> set ids \<longrightarrow> in_status i = AN_PROCESSING"
proof -
  note u = assms(1) [unfolded intents_ok_def]
  have ids: "ids = map in_id (claim_candidates now plan (intents db))"
    and db1: "db1 = db\<lparr>intents := upd_rows (\<lambda>i. in_id i \<in> set ids) (\<lambda>i. i\<lparr>in_status := AN_PROCESSING, in_lastAttemptAt := Some now\<rparr>) (intents db)\<rparr>"
    using assms(2) by (auto simp: claim_intents_def Let_def)
  show "distinct ids" using u distinct_candidates ids by blast
  have "in_status i = AN_PENDING" if i: "i \<in> set (intents db)" "in_id i \<in> set ids" for i
  proof -
    from i(2) ids obtain c where c: "c \<in> set (claim_candidates now plan (intents db))" "in_id c = in_id i" by auto
    with i(1) u have "c = i" by (meson claim_candidates_member(1) unique_on_eqD)
    with c(1) show ?thesis by (simp add: claim_candidates_member)
  qed
  with u show "intents_ok db1" unfolding db1 by (intro intents_ok_upd [OF assms(1)]) (auto simp: intent_ok_def)
  show "\<forall>i\<in>set (intents db1). in_id i \<in> set ids \<longrightarrow> in_status i = AN_PROCESSING" by (auto simp: db1 elim!: upd_rowsE)
qed

lemma executeIntent_ok:
  assumes "intents_ok db" "i \<in> set (intents db)" "in_status i = AN_PENDING \<or> in_status i = AN_PROCESSING"
  shows "intents_ok (snd (executeIntent cfg io i p now now' cs db))"
proof -
  have n: "in_attemptCount i < MAX_ATTEMPTS" using assms by (auto simp: intents_ok_def intent_ok_def)
  have c: "intents_ok (confirm_intent i h t db)" for h t
    using n unfolding confirm_intent_def Let_def case_prod_beta intents_ok_proofs
    by (intro intents_ok_set_intent [OF assms(1,2)]) (simp_all add: intent_ok_def)
  have r: "intents_ok (releaseUnclaimed (in_id i) t db)" for t
    using n unfolding releaseUnclaimed_def by (intro intents_ok_set_intent [OF assms(1,2)]) (simp_all add: intent_ok_def)
  have f: "intents_ok (fail_intent io i m perm t db)" for m perm t
    using n unfolding fail_intent_def Let_def by (intro intents_ok_set_intent [OF assms(1,2)]) (simp_all add: intent_ok_def)
  have d: "intents_ok (set_intent (in_id i) (\<lambda>y. y\<lparr>in_status := AN_CONFIRMED, in_transactionHash := a, in_ledger := b, in_lastErrorSafe := None\<rparr>) db)" for a b
    using n by (intro intents_ok_set_intent [OF assms(1,2)]) (simp_all add: intent_ok_def)
  show ?thesis
    by (cases "deliver cfg io i p now now' cs") (simp add: executeIntent_def c r f d split: option.split delivery.split)
qed

lemma executeIntent_intents:
  obtains f where "\<And>x. in_id (f x) = in_id x" "intents (snd (executeIntent cfg io i p now now' cs db)) = upd_rows (\<lambda>x. in_id x = in_id i) f (intents db)"
proof -
  let ?ex = "\<lambda>db'. \<exists>f. (\<forall>x. in_id (f x) = in_id x) \<and> intents db' = upd_rows (\<lambda>x. in_id x = in_id i) f (intents db)"
  have s: "?ex (set_intent (in_id i) f db)" "?ex ((set_intent (in_id i) f db)\<lparr>proofs := ps\<rparr>)" if "\<And>x. in_id (f x) = in_id x" for f ps
    using that by (auto simp: set_intent_def)
  have "?ex (confirm_intent i h t db)" for h t
    unfolding confirm_intent_def Let_def case_prod_beta by (rule s) simp
  moreover have "?ex (releaseUnclaimed (in_id i) t db)" for t
    unfolding releaseUnclaimed_def by (rule s) simp
  moreover have "?ex (fail_intent io i m perm t db)" for m perm t
    unfolding fail_intent_def Let_def by (rule s) simp
  ultimately have "?ex (snd (executeIntent cfg io i p now now' cs db))"
    by (cases "deliver cfg io i p now now' cs") (simp add: executeIntent_def s split: option.split delivery.split)
  with that show ?thesis by blast
qed

lemma executeIntent_others:
  assumes "x \<in> set (intents (snd (executeIntent cfg io i p now now' cs db)))" "in_id x \<noteq> in_id i"
  shows "x \<in> set (intents db)"
proof -
  obtain f where "\<And>x. in_id (f x) = in_id x"
    "intents (snd (executeIntent cfg io i p now now' cs db)) = upd_rows (\<lambda>x. in_id x = in_id i) f (intents db)"
    by (rule executeIntent_intents [where cfg = cfg and io = io and i = i and p = p and now = now and now' = now' and cs = cs and db = db]) blast
  with assms show ?thesis by (metis (mono_tags, lifting) upd_rowsE)
qed

lemma load_intent_Some: "load_intent iid db = Some (i, p) \<Longrightarrow> i \<in> set (intents db) \<and> in_id i = iid \<and> p \<in> set (proofs db)"
  by (auto simp: load_intent_def split: option.split_asm dest!: find_row_Some)

lemma execute_claimed_ok:
  "intents_ok db \<Longrightarrow> distinct ids \<Longrightarrow> \<forall>i\<in>set (intents db). in_id i \<in> set ids \<longrightarrow> in_status i = AN_PROCESSING \<Longrightarrow>
   intents_ok (snd (execute_claimed cfg io clock ids cs db))"
proof (induction ids arbitrary: cs db)
  case (Cons iid ids)
  show ?case
  proof (cases "load_intent iid db")
    case None
    with Cons show ?thesis by simp
  next
    case (Some ip)
    obtain i p where ip: "ip = (i, p)" by (cases ip)
    note l = load_intent_Some [OF Some [unfolded ip]]
    let ?e = "executeIntent cfg io i p (fst (clock iid)) (snd (clock iid)) cs db"
    have st: "in_status i = AN_PROCESSING" using l Cons.prems(3) by simp
    have ok: "intents_ok (snd ?e)" using executeIntent_ok [OF Cons.prems(1)] l st by blast
    have "\<forall>x\<in>set (intents (snd ?e)). in_id x \<in> set ids \<longrightarrow> in_status x = AN_PROCESSING"
    proof (intro ballI impI)
      fix x assume x: "x \<in> set (intents (snd ?e))" "in_id x \<in> set ids"
      then have "in_id x \<noteq> in_id i" using l Cons.prems(2) by auto
      from executeIntent_others [OF x(1) this] x(2) Cons.prems(3) show "in_status x = AN_PROCESSING" by simp
    qed
    with Cons.IH [OF ok] Cons.prems(2) Some ip show ?thesis by (cases ?e) simp
  qed
qed simp

lemma poll_ok: "intents_ok db \<Longrightarrow> intents_ok (snd (poll cfg io draining clock now cs db))"
proof -
  assume ok: "intents_ok db"
  let ?db = "resetStaleProcessing now db"
  obtain plan cs1 where p: "claimPlan now cs = (plan, cs1)" by fastforce
  obtain ids db1 where c: "claim_intents now plan ?db = (ids, db1)" by fastforce
  note k = claim_intents_ok [OF resetStaleProcessing_ok [OF ok] c]
  show ?thesis
    using execute_claimed_ok [OF k] resetStaleProcessing_ok [OF ok] ok by (simp add: poll_def processBatch_def p c)
qed



subsection \<open>Backpressure\<close>

fun circuit_of :: "anchoring_operation \<Rightarrow> contract_operation" where
  "circuit_of AO_REGISTER = Op_register"
| "circuit_of AO_REVOKE = Op_revoke"

lemma circuitState_other: "oper \<noteq> oper' \<Longrightarrow> fst (circuitState oper now (snd (circuitState oper' now cs))) = fst (circuitState oper now cs)"
  by (auto simp: circuitState_def split: option.split prod.split)

lemma claimPlan_eq:
  "fst (claimPlan now cs) =
     (let ops = filter (\<lambda>a. fst (circuitState (circuit_of a) now cs) \<noteq> Open) [AO_REGISTER, AO_REVOKE] in
      (ops, if ops = [] then 0 else if \<exists>a. fst (circuitState (circuit_of a) now cs) = HalfOpen then 1 else BATCH_SIZE))"
proof -
  have "(\<exists>a. fst (circuitState (circuit_of a) now cs) = HalfOpen) \<longleftrightarrow>
      fst (circuitState Op_register now cs) = HalfOpen \<or> fst (circuitState Op_revoke now cs) = HalfOpen"
    by (metis anchoring_operation.exhaust circuit_of.simps)
  then show ?thesis
    using circuitState_other [of Op_revoke Op_register now cs]
    by (cases "fst (circuitState Op_register now cs)"; cases "fst (circuitState Op_revoke now cs)") (simp_all add: claimPlan_def case_prod_beta Let_def)
qed

text \<open>C23. Backpressure.  A poll claims no intent whose operation's circuit is open, at most \<open>BATCH_SIZE\<close> intents, and
  at most one while either circuit is half-open; what it claims was pending and due, and no other row changes.\<close>

theorem claim_backpressure:
  assumes "unique_on in_id (intents db)" "claim_intents now (fst (claimPlan now cs)) db = (ids, db')"
  shows "(\<forall>i\<in>set (intents db). in_id i \<in> set ids \<longrightarrow>
            fst (circuitState (circuit_of (in_operation i)) now cs) \<noteq> Open \<and> in_status i = AN_PENDING \<and>
            (case in_nextRetryAt i of None \<Rightarrow> True | Some t \<Rightarrow> t \<le> now)) \<and>
         length ids \<le> BATCH_SIZE \<and> ((\<exists>a. fst (circuitState (circuit_of a) now cs) = HalfOpen) \<longrightarrow> length ids \<le> 1) \<and>
         (\<forall>i\<in>set (intents db). in_id i \<notin> set ids \<longrightarrow> i \<in> set (intents db'))"
proof -
  let ?plan = "fst (claimPlan now cs)"
  have ids: "ids = map in_id (claim_candidates now ?plan (intents db))" using assms(2) by (auto simp: claim_intents_def Let_def)
  have db': "intents db' = upd_rows (\<lambda>i. in_id i \<in> set ids) (\<lambda>i. i\<lparr>in_status := AN_PROCESSING, in_lastAttemptAt := Some now\<rparr>) (intents db)"
    using assms(2) by (auto simp: claim_intents_def Let_def)
  have "i \<in> set (claim_candidates now ?plan (intents db))" if i: "i \<in> set (intents db)" "in_id i \<in> set ids" for i
  proof -
    from i(2) ids obtain c where c: "c \<in> set (claim_candidates now ?plan (intents db))" "in_id c = in_id i" by auto
    with i(1) assms(1) have "c = i" by (meson claim_candidates_member(1) unique_on_eqD)
    with c(1) show ?thesis by simp
  qed
  note c = claim_candidates_member [OF this]
  have op: "in_operation i \<in> set (fst ?plan) \<Longrightarrow> fst (circuitState (circuit_of (in_operation i)) now cs) \<noteq> Open" for i
    by (auto simp: claimPlan_eq Let_def split: if_split_asm)
  have len: "length ids \<le> snd ?plan" by (simp add: ids claim_candidates_def)
  have "snd ?plan \<le> BATCH_SIZE" "(\<exists>a. fst (circuitState (circuit_of a) now cs) = HalfOpen) \<longrightarrow> snd ?plan \<le> 1"
    unfolding claimPlan_eq Let_def by (simp_all add: BATCH_SIZE_def)
  moreover have "\<forall>i\<in>set (intents db). in_id i \<notin> set ids \<longrightarrow> i \<in> set (intents db')"
    unfolding db' by (auto simp: set_upd_rows intro: rev_image_eqI)
  ultimately show ?thesis using c op len by (meson order_trans)
qed

theorem claim_backpressure_witness:
  "fst (claim_intents 30 (fst (claimPlan 30 (\<lambda>_. None))) sample_queue) = [''i1''] \<and> length [''i1''] \<le> BATCH_SIZE"
proof -
  obtain ids db' where c: "claim_intents 30 (fst (claimPlan 30 (\<lambda>_. None))) sample_queue = (ids, db')" by (rule prod.exhaust)
  have "ids = [''i1'']"
    using c by (auto simp: claim_intents_def claim_candidates_def claimPlan_def circuitState_def sample_queue_def sample_intent_def new_intent_def BATCH_SIZE_def Let_def)
  moreover have "unique_on in_id (intents sample_queue)" by (simp add: sample_queue_def unique_on_def)
  ultimately show ?thesis using claim_backpressure [OF _ c] c by auto
qed

subsection \<open>An open circuit\<close>

lemma deliver_open:
  assumes "fst (circuitState (circuit_of (in_operation i)) now cs) = Open" "kc_enabled cfg" "hasRequiredConfig cfg"
  shows "\<exists>ctx. fst (deliver cfg io i p now now' cs) =
           (if kc_required cfg then Undelivered (ctx @ '' unavailable: dependency circuit is open'') False else Released)"
proof (cases "in_operation i")
  case AO_REGISTER
  with assms anchorProof_open(1) [of now cs cfg] show ?thesis by (auto simp: deliver_def circuitOpenResult_def case_prod_beta Let_def)
next
  case AO_REVOKE
  with assms contract_revokeProof_open(1) [of now cs cfg] show ?thesis by (auto simp: deliver_def circuitOpenResult_def case_prod_beta Let_def)
qed

lemma set_intent_row: "i \<in> set (intents db) \<Longrightarrow> f i \<in> set (intents (set_intent (in_id i) f db))"
  by (simp add: set_intent_def set_upd_rows rev_image_eqI)

text \<open>C35. Attempts under an open circuit.  Where anchoring is optional the intent goes back to
  pending with its attempts unchanged; where it is required the refusal counts as an attempt, and the last one
  quarantines the intent.\<close>

theorem open_circuit_attempt:
  assumes "i \<in> set (intents db)" "fst (circuitState (circuit_of (in_operation i)) now cs) = Open" "kc_enabled cfg" "hasRequiredConfig cfg"
    "\<forall>x\<in>set (intents db). in_proofId x = in_proofId i \<and> in_operation x = in_operation i \<longrightarrow> in_id x = in_id i"
  shows "\<exists>x\<in>set (intents (snd (executeIntent cfg io i p now now' cs db))). in_id x = in_id i \<and>
     (if kc_required cfg
      then in_attemptCount x = in_attemptCount i + 1 \<and> (MAX_ATTEMPTS \<le> in_attemptCount i + 1 \<longrightarrow> in_status x = AN_QUARANTINED)
      else x = i\<lparr>in_status := AN_PENDING, in_nextRetryAt := Some now'\<rparr>)"
proof -
  have n: "find_row (\<lambda>x. in_proofId x = in_proofId i \<and> in_operation x = in_operation i \<and> in_status x = AN_CONFIRMED \<and> in_id x \<noteq> in_id i) (intents db) = None"
    using assms(5) by (auto simp: find_row_None)
  obtain ctx where d: "fst (deliver cfg io i p now now' cs) =
      (if kc_required cfg then Undelivered (ctx @ '' unavailable: dependency circuit is open'') False else Released)"
    using deliver_open [OF assms(2-4)] by blast
  show ?thesis
  proof (cases "kc_required cfg")
    case True
    let ?f = "fail_intent io i (ctx @ '' unavailable: dependency circuit is open'') False now' db"
    have "\<exists>x\<in>set (intents ?f). in_id x = in_id i \<and> in_attemptCount x = in_attemptCount i + 1 \<and>
        (MAX_ATTEMPTS \<le> in_attemptCount i + 1 \<longrightarrow> in_status x = AN_QUARANTINED)"
      unfolding fail_intent_def Let_def by (rule bexI [OF _ set_intent_row [OF assms(1)]]) simp
    with True d n show ?thesis by (cases "deliver cfg io i p now now' cs") (simp add: executeIntent_def)
  next
    case False
    have "i\<lparr>in_status := AN_PENDING, in_nextRetryAt := Some now'\<rparr> \<in> set (intents (releaseUnclaimed (in_id i) now' db))"
      unfolding releaseUnclaimed_def by (rule set_intent_row [OF assms(1)])
    with False d n show ?thesis by (cases "deliver cfg io i p now now' cs") (auto simp: executeIntent_def)
  qed
qed

theorem open_circuit_attempt_witness:
  "\<exists>x\<in>set (intents (snd (executeIntent (sample_contract True) sample_io (sample_intent AO_REGISTER) sample_row 30 40 sample_open sample_queue))).
     in_attemptCount x = 1"
proof -
  have "fst (circuitState (circuit_of (in_operation (sample_intent AO_REGISTER))) 30 sample_open) = Open"
    by (simp add: sample_intent_def new_intent_def circuitState_def sample_open_def snapshot_def refresh_def open_circuit_def new_circuit_breaker_def
        DEFAULT_OPEN_DURATION_MS_def Let_def)
  moreover have "kc_enabled (sample_contract True)" "hasRequiredConfig (sample_contract True)" "kc_required (sample_contract True)"
    by (simp_all add: sample_contract_def hasRequiredConfig_def)
  moreover have "in_attemptCount (sample_intent AO_REGISTER) = 0" by (simp add: sample_intent_def new_intent_def)
  ultimately show ?thesis
    using open_circuit_attempt [of "sample_intent AO_REGISTER" sample_queue 30 sample_open "sample_contract True" sample_io sample_row 40]
    by (auto simp: sample_queue_def)
qed

subsection \<open>The reconcilers\<close>



lemma find_row_upd_rows: "(\<And>r. P (f r) = P r) \<Longrightarrow> find_row P (upd_rows g f t) = map_option (\<lambda>r. if g r then f r else r) (find_row P t)"
  by (induction t) (auto simp: find_row_def upd_rows_def)

lemma abandon_Inr:
  assumes "abandonProofAnchoring user pid (in_id i) aid now db0 db0 = (Inr j, db)"
    "find_row (\<lambda>i. in_proofId i = pid \<and> in_operation i = AO_REVOKE) (intents db0) = Some i" "unique_on in_id (intents db0)"
  shows "in_status j = AN_QUARANTINED \<and> in_quarantineDecision j = QD_ABANDONED \<and> in_id j = in_id i"
    "find_row (\<lambda>i. in_proofId i = pid \<and> in_operation i = AO_REVOKE) (intents db) = Some j"
proof -
  note i = find_row_Some [OF assms(2)]
  have u: "find_row (\<lambda>x. in_id x = in_id i) (intents db0) = Some i" using i assms(3) by (intro find_row_unique) simp_all
  have w: "find_row (\<lambda>x. in_id x = in_id i \<and> in_proofId x = pid) (intents db0) = Some i"
    using i u by (auto simp: find_row_def find_Some_iff)
  obtain q where q: "owned_proof user pid db0 = Some q" using assms(1) by (cases "owned_proof user pid db0") (simp_all add: abandonProofAnchoring_def)
  then have "pf_id q = pid" by (auto simp: owned_proof_def dest: find_row_Some)
  note a = assms(1) [unfolded abandonProofAnchoring_def q option.case this w]
  have st: "in_status i = AN_QUARANTINED" using a by (simp split: if_split_asm)
  let ?f = "\<lambda>x. x\<lparr>in_quarantineDecision := QD_ABANDONED, in_decidedById := Some (a_id user), in_decidedAt := Some now\<rparr>"
  have "(j = i \<and> db = db0 \<and> in_quarantineDecision i = QD_ABANDONED) \<or>
      (j = ?f i \<and> intents db = upd_rows (\<lambda>x. in_id x = in_id i) ?f (intents db0))"
    using a st u by (auto simp: decide_intent_def set_intent_def split: if_split_asm sum.split_asm)
  moreover have "find_row (\<lambda>i. in_proofId i = pid \<and> in_operation i = AO_REVOKE) (upd_rows (\<lambda>x. in_id x = in_id i) ?f (intents db0)) = Some (?f i)"
    by (subst find_row_upd_rows) (simp_all add: assms(2))
  ultimately show "in_status j = AN_QUARANTINED \<and> in_quarantineDecision j = QD_ABANDONED \<and> in_id j = in_id i"
    "find_row (\<lambda>i. in_proofId i = pid \<and> in_operation i = AO_REVOKE) (intents db) = Some j"
    using st assms(2) by auto
qed



subsection \<open>Expiration\<close>

text \<open>\<open>db'\<close> is \<open>db\<close> with some of the proofs expired at \<open>t\<close> marked so.\<close>

definition expiry_marks :: "time_ms \<Rightarrow> proof_row \<Rightarrow> proof_row \<Rightarrow> bool" where
  "expiry_marks t p p' \<longleftrightarrow> p' = p \<or> (pf_status p = PS_ACTIVE \<and> pf_expiresAt p \<le> t \<and> p' = mark_expired p)"

definition expiry_only :: "time_ms \<Rightarrow> proofs_db \<Rightarrow> proofs_db \<Rightarrow> bool" where
  "expiry_only t db db' \<longleftrightarrow> list_all2 (expiry_marks t) (proofs db) (proofs db') \<and> auth db' = auth db"

lemma expiry_marks_trans: "expiry_marks t p q \<Longrightarrow> expiry_marks t q r \<Longrightarrow> expiry_marks t p r"
  by (auto simp: expiry_marks_def mark_expired_def)

lemma expiry_only_trans: "expiry_only t a b \<Longrightarrow> expiry_only t b c \<Longrightarrow> expiry_only t a c"
  using list_all2_trans [of "expiry_marks t" "expiry_marks t" "expiry_marks t"] expiry_marks_trans unfolding expiry_only_def by metis

lemma expiry_only_refl: "expiry_only t db db"
  by (simp add: expiry_only_def expiry_marks_def list_all2_refl)

lemma expiry_only_ids: "expiry_only t db db' \<Longrightarrow> map pf_id (proofs db') = map pf_id (proofs db)"
  unfolding expiry_only_def list_all2_conv_all_nth by (auto intro!: nth_equalityI simp: expiry_marks_def mark_expired_def)

lemma reconcileBatch_expires:
  assumes "unique_on pf_id (proofs db)" "now \<le> t"
  shows "expiry_only t db (fst (snd (reconcileBatch now db (db, rms))))"
proof -
  let ?ids = "expiredProofs now db"
  have "pf_expiresAt p \<le> t" if p: "p \<in> set (proofs db)" "pf_id p \<in> set ?ids" for p
  proof -
    from p(2) obtain q where q: "q \<in> set (proofs db)" "pf_expiresAt q \<le> now" "pf_id q = pf_id p"
      by (auto simp: expiredProofs_def dest!: in_set_takeD)
    with assms p(1) show ?thesis by (metis unique_on_eqD order_trans)
  qed
  then have "list_all2 (expiry_marks t) (proofs db)
      (upd_rows (\<lambda>p. pf_id p \<in> set ?ids \<and> pf_status p = PS_ACTIVE) mark_expired (proofs db))"
    by (auto simp: upd_rows_def list_all2_map2 expiry_marks_def intro!: list_all2_same [THEN iffD2])
  then show ?thesis by (auto simp: reconcileBatch_def update_many_def expiry_only_def Let_def expiry_marks_def list_all2_refl)
qed

lemma reconcile_batches_expire:
  "unique_on pf_id (proofs (fst st)) \<Longrightarrow> \<forall>k. clock k \<le> t \<Longrightarrow> expiry_only t (fst st) (fst (snd (reconcile_batches clock n st)))"
proof (induction n arbitrary: st)
  case (Suc n)
  obtain m st1 where b: "reconcileBatch (clock n) (fst st) st = (m, st1)" by (cases "reconcileBatch (clock n) (fst st) st")
  have e: "expiry_only t (fst st) (fst st1)"
    using reconcileBatch_expires [OF Suc.prems(1), of "clock n" t "snd st"] Suc.prems(2) b by simp
  have "unique_on pf_id (proofs (fst st1))" using Suc.prems(1) expiry_only_ids [OF e] by (simp add: unique_on_def)
  from expiry_only_trans [OF e Suc.IH [OF this Suc.prems(2)]] e show ?case by (simp add: b case_prod_beta Let_def)
qed (simp add: expiry_only_refl)

lemmas rebuild_defs = rebuildCredential_def rebuildAggregateEarningsCredential_def rebuildPaymentReceiptCredential_def
  rebuildInvoiceSettlementCredential_def rebuildEmploymentContinuityCredential_def rebuildEmployerPaymentCredential_def

lemma policy_occurredAt_expired [simp]: "policy_occurredAt env (p\<lparr>pf_status := s\<rparr>) policy = policy_occurredAt env p policy"
  by (simp add: policy_occurredAt_def split: option.split)

lemma mark_expired_same [simp]:
  "pf_id (mark_expired p) = pf_id p" "pf_claim (mark_expired p) = pf_claim p" "pf_userId (mark_expired p) = pf_userId p"
  "pf_credentialHash (mark_expired p) = pf_credentialHash p" "pf_expiresAt (mark_expired p) = pf_expiresAt p"
  "pf_contractTransactionHash (mark_expired p) = pf_contractTransactionHash p"
  "rebuildCredential env w (mark_expired p) c = rebuildCredential env w p c" "verified_view (mark_expired p) ks = verified_view p ks"
  by (simp_all add: mark_expired_def verified_view_def rebuild_defs head_of_def Let_def split: proof_type.split)

lemma expiry_load:
  assumes "expiry_only t db db'"
  shows "case load_proof pid db of
      None \<Rightarrow> load_proof pid db' = None
    | Some (p, c, w) \<Rightarrow> \<exists>p'. load_proof pid db' = Some (p', c, w) \<and> expiry_marks t p p'"
proof -
  have f: "rel_option (expiry_marks t) (find_row (\<lambda>p. pf_id p = pid) ps) (find_row (\<lambda>p. pf_id p = pid) ps')"
    if "list_all2 (expiry_marks t) ps ps'" for ps ps'
    using that by (induction rule: list_all2_induct) (auto simp: find_row_def expiry_marks_def)
  have w: "expiry_marks t p p' \<Longrightarrow> pf_claim p' = pf_claim p \<and> wallet_of p' db' = wallet_of p db" for p p'
    using assms by (auto simp: expiry_marks_def wallet_of_def expiry_only_def)
  from f [of "proofs db" "proofs db'"] assms w show ?thesis
    by (auto simp: load_proof_def expiry_only_def option_rel_Some1 rel_option_None1 split: option.split) 
qed

lemma verify_found_expired:
  assumes "expiry_marks t p p'"
  shows "fst (verify_found env chain budget w p' c t db') = fst (verify_found env chain budget w p c t db)"
proof (cases "p' = p")
  case True
  then show ?thesis by (simp add: verify_found_def Let_def split: sum.split)
next
  case False
  with assms have p: "pf_status p = PS_ACTIVE" "pf_expiresAt p \<le> t" "p' = mark_expired p" by (auto simp: expiry_marks_def)
  have "local_result env w (mark_expired p) c t = local_result env w p c t"
    using p(1,2) by (simp add: local_result_def) (simp add: mark_expired_def)
  moreover have "contract_status_of chain (mark_expired p) = contract_status_of chain p" "anchoring_result env (mark_expired p) = anchoring_result env p"
    by (simp_all add: contract_status_of_def anchoring_result_def fun_eq_iff split: option.split)
  ultimately show ?thesis by (simp add: p(3) verify_found_def Let_def split: sum.split)
qed

text \<open>C21. The expiration job changes no verdict.  For every proof and every instant not before the job's, verification answers
  exactly what it would have answered had the job not run, errors included: the status EXPIRED is only a record of
  what the expiry date says.\<close>

theorem expiration_changes_no_verdict:
  assumes "unique_on pf_id (proofs (fst st))" "\<forall>k. clock k \<le> t"
  shows "fst (verifyProof env abuse chain budget ip pid t (fst (reconcileExpiredProofs enabled running clock st))) =
         fst (verifyProof env abuse chain budget ip pid t (fst st))"
proof -
  let ?db' = "fst (reconcileExpiredProofs enabled running clock st)"
  have e: "expiry_only t (fst st) ?db'"
    using reconcile_batches_expire [OF assms] expiry_only_refl by (simp add: reconcileExpiredProofs_def)
  show ?thesis
  proof (cases "load_proof pid (fst st)")
    case None
    with expiry_load [OF e, of pid] show ?thesis
      by (simp add: verifyProof_def Let_def split: option.split prod.split sum.split)
  next
    case (Some r)
    obtain p c w where r: "r = (p, c, w)" by (cases r)
    with expiry_load [OF e, of pid] Some obtain p' where p': "load_proof pid ?db' = Some (p', c, w)" "expiry_marks t p p'" by auto
    with Some r verify_found_expired [OF p'(2)] show ?thesis
      by (simp add: verifyProof_def Let_def split: option.split prod.split sum.split)
  qed
qed

theorem expiration_changes_no_verdict_witness:
  "fst (verifyProof sample_env None None True None ''p1'' 300 (fst (reconcileExpiredProofs True False (\<lambda>_. 200) (sample_store, [])))) =
   fst (verifyProof sample_env None None True None ''p1'' 300 sample_store) \<and>
   map pf_status (proofs (fst (reconcileExpiredProofs True False (\<lambda>_. 200) (sample_store, [])))) = [PS_EXPIRED]"
proof -
  have "unique_on pf_id (proofs (fst (sample_store, [] :: reminder_row table)))" by (simp add: sample_store_def unique_on_def)
  from expiration_changes_no_verdict [OF this, of "\<lambda>_. 200" 300 sample_env None None True None "''p1''" True False]
  show ?thesis
    by (simp add: reconcileExpiredProofs_def MAX_BATCHES_PER_CYCLE_def numeral_eq_Suc reconcileBatch_def expiredProofs_def sample_store_def sample_row_def
        update_many_def count_rows_def upd_rows_def mark_expired_def EXPIRATION_BATCH_SIZE_def Let_def)
qed

end
