(* ===== verification/ProofChanges.thy ===== *)
theory ProofChanges
  imports Renewal Anchoring
begin

text \<open>
  The proof store as a state machine.  One request (of issuance, renewal, revocation or verification)
  or one unit of work of a background job is a step; the state its checks read is arbitrary, so every
  interleaving of requests and jobs is a run.  Every other operation of the program leaves these columns of
  the table of proofs alone.  What a step can do to that table is summed up once, in \<open>proofs_change\<close>.
\<close>

subsection \<open>Requests\<close>

inductive proof_step :: "proof_env \<Rightarrow> proofs_db \<Rightarrow> proofs_db \<Rightarrow> proofs_db \<Rightarrow> bool" for env :: proof_env where
  step_issue: "proof_step env db0 db (snd (createProof env user req pid iid now db0 db))"
| step_renew: "proof_step env db0 db (snd (renewProof env user pid inp key sid iid now db0 db))"
| step_revoke: "proof_step env db0 db (snd (revokeProof env user pid body aid iid now db0 db))"
| step_verify: "proof_step env db0 db (snd (snd (verifyProof env abuse chain budget ip pid now db)))"
| step_anchor: "proof_step env db0 db (snd (executeIntent cfg io i p now now' cs db))"
| step_reconcile: "proof_step env db0 db (snd (reconcileProof p answer iid now db))"
| step_reconcile_state: "proof_step env db0 db (fst (snd (reconcileProofState p answer iid now (db, cfs))))"
| step_expire: "proof_step env db0 db (fst (snd (reconcileBatch now db0 (db, rms))))"
| step_other: "proofs db' = proofs db \<Longrightarrow> proof_step env db0 db db'"

text \<open>The states that can occur: a request reads one of them and commits in another.\<close>

inductive reachable :: "proof_env \<Rightarrow> proofs_db \<Rightarrow> proofs_db \<Rightarrow> bool" for env :: proof_env and init :: proofs_db where
  reach_init: "reachable env init init"
| reach_step: "reachable env init db0 \<Longrightarrow> reachable env init db \<Longrightarrow> proof_step env db0 db db' \<Longrightarrow> reachable env init db'"

text \<open>Any number of requests after a state, whatever they read.\<close>

definition later :: "proof_env \<Rightarrow> proofs_db \<Rightarrow> proofs_db \<Rightarrow> bool" where
  "later env = (\<lambda>db db'. \<exists>db0. proof_step env db0 db db')\<^sup>*\<^sup>*"

text \<open>The well-formed rows: schema and claim go with the type, and the revocation columns with the status.\<close>

fun schema_of :: "proof_type \<Rightarrow> string" where
  "schema_of PT_MINIMUM_INCOME = SCHEMA_VERSION"
| "schema_of PT_RECURRING_INCOME = RECURRING_INCOME_SCHEMA_VERSION"
| "schema_of PT_PAYMENT_RECEIPT = PAYMENT_RECEIPT_SCHEMA_VERSION"
| "schema_of PT_INCOME_RANGE = INCOME_RANGE_SCHEMA_VERSION"
| "schema_of PT_EMPLOYER_PAYMENT = EMPLOYER_PAYMENT_SCHEMA_VERSION"
| "schema_of PT_EMPLOYMENT_CONTINUITY = EMPLOYMENT_CONTINUITY_SCHEMA_VERSION"
| "schema_of PT_INVOICE_SETTLEMENT = INVOICE_SETTLEMENT_SCHEMA_VERSION"
| "schema_of PT_AGGREGATE_EARNINGS = AGGREGATE_EARNINGS_SCHEMA_VERSION"

fun operator_of :: "proof_type \<Rightarrow> string" where
  "operator_of PT_MINIMUM_INCOME = ''gte''"
| "operator_of PT_RECURRING_INCOME = ''recurring''"
| "operator_of PT_PAYMENT_RECEIPT = ''receipt''"
| "operator_of PT_INCOME_RANGE = ''range''"
| "operator_of PT_EMPLOYER_PAYMENT = ''employer_payment''"
| "operator_of PT_EMPLOYMENT_CONTINUITY = ''employment_continuity''"
| "operator_of PT_INVOICE_SETTLEMENT = ''settlement''"
| "operator_of PT_AGGREGATE_EARNINGS = ''sum''"

definition typed_claim :: "proof_row \<Rightarrow> bool" where
  "typed_claim p \<longleftrightarrow>
     pf_schemaVersion p = schema_of (pf_proofType p) \<and> pf_periodStart p \<noteq> None \<and> pf_periodEnd p \<noteq> None \<and>
     (case pf_claim p of None \<Rightarrow> False | Some c \<Rightarrow> cl_operator c = operator_of (pf_proofType p) \<and> cl_result c)"

definition typed_revocation :: "proof_row \<Rightarrow> bool" where
  "typed_revocation p \<longleftrightarrow>
     (if pf_status p = PS_REVOKED
      then pf_revokedAt p \<noteq> None \<and> (pf_revokedByType p = None) = (pf_revokedById p = None) \<and> (pf_revokedById p = None) = (pf_revocationReasonCode p = None)
      else pf_revokedAt p = None \<and> pf_revokedByType p = None \<and> pf_revokedById p = None \<and> pf_revocationReasonCode p = None)"

definition typed_row :: "proof_row \<Rightarrow> bool" where
  "typed_row p \<longleftrightarrow> typed_claim p \<and> typed_revocation p"

definition original :: "proof_row \<Rightarrow> bool" where
  "original p \<longleftrightarrow> typed_row p \<and> pf_status p = PS_ACTIVE \<and> pf_supersedesId p = None \<and> pf_supersededAt p = None"

subsection \<open>What a request does to the table\<close>

text \<open>\<open>R\<close> holds the rows a request can have read.\<close>

inductive proofs_change :: "proof_row set \<Rightarrow> proof_row table \<Rightarrow> proof_row table \<Rightarrow> bool" for R :: "proof_row set" where
  unchanged: "proofs_change R ps ps"
| issued: "original r \<Longrightarrow> (\<forall>q\<in>set ps. pf_id q \<noteq> pf_id r) \<Longrightarrow> proofs_change R ps (ps @ [r])"
| revoked: "proofs_change R ps (upd_rows (\<lambda>q. pf_id q = pid) (mark_revoked now ty actor reason body) ps)"
| anchored: "proofs_change R ps (upd_rows (\<lambda>q. pf_id q = pid) (mark_anchored h) ps)"
| repaired: "proofs_change R ps (upd_rows (\<lambda>q. pf_id q = pid) (mark_repaired now) ps)"
| expired: "proofs_change R ps (upd_rows (\<lambda>q. pf_id q \<in> I \<and> pf_status q = PS_ACTIVE) mark_expired ps)"
| renewed: "p \<in> R \<Longrightarrow> count_rows (claim_guard p) ps = 1 \<Longrightarrow> pf_supersedesId r = Some (pf_id p) \<Longrightarrow> pf_supersededAt r = None \<Longrightarrow>
    typed_revocation r \<Longrightarrow> pf_status r = PS_ACTIVE \<Longrightarrow> pf_proofType r = pf_proofType p \<Longrightarrow> pf_schemaVersion r = pf_schemaVersion p \<Longrightarrow>
    pf_periodStart r = pf_periodStart p \<Longrightarrow> pf_periodEnd r = pf_periodEnd p \<Longrightarrow> pf_claim r = pf_claim p \<Longrightarrow>
    (\<forall>q\<in>set ps. pf_id q \<noteq> pf_id r \<and> pf_supersedesId q \<noteq> Some (pf_id p)) \<Longrightarrow>
    proofs_change R ps (upd_rows (claim_guard p) (claim_mark now) ps @ [r])"
| linked: "count_rows (claim_guard p) ps = 1 \<Longrightarrow> count_rows (link_guard sid uid) (upd_rows (claim_guard p) (claim_mark now) ps) = 1 \<Longrightarrow>
    (\<forall>q\<in>set ps. pf_supersedesId q \<noteq> Some (pf_id p)) \<Longrightarrow>
    proofs_change R ps (upd_rows (link_guard sid uid) (link_mark (pf_id p) hash) (upd_rows (claim_guard p) (claim_mark now) ps))"

text \<open>Issuing.\<close>

lemma original_new_proof [simp]:
  "original (new_proof env uid h ty schema s e cred claim) \<longleftrightarrow> schema = schema_of ty \<and> cl_operator claim = operator_of ty \<and> cl_result claim"
  by (auto simp: original_def typed_row_def typed_claim_def typed_revocation_def new_proof_def)

lemma original_policy [simp]: "original (r\<lparr>pf_assetPolicyId := a, pf_assetPolicySnapshot := b\<rparr>) = original r"
  by (simp add: original_def typed_row_def typed_claim_def typed_revocation_def split: option.split)

lemma created_change:
  assumes "create_in_tx env row iid now db = Inr db'" "original row"
  shows "proofs_change R (proofs db) (proofs db')"
  using create_in_tx_Inr [OF assms(1)] assms(2) by (auto intro: proofs_change.issued)

lemma finish_change:
  assumes "\<And>p db1. tx = Inr (p, db1) \<Longrightarrow> proofs_change R (proofs db) (proofs db1)"
  shows "proofs_change R (proofs db) (proofs (snd (finish env uid emits cred tx db)))"
  using assms by (cases tx) (auto simp: finish_def emitProofCreated_def emitWebhook_def intro: proofs_change.unchanged)

lemma charged_change:
  assumes "\<And>row. mk db = Inr row \<Longrightarrow> original row"
  shows "proofs_change R (proofs db) (proofs (snd (finish env uid emits cred (charged_tx env uid' c i mk iid now db) db)))"
proof (rule finish_change)
  fix p db1
  assume "charged_tx env uid' c i mk iid now db = Inr (p, db1)"
  from charged_tx_Inr [OF this] obtain row a b where "mk db = Inr row" "p = row\<lparr>pf_assetPolicyId := a, pf_assetPolicySnapshot := b\<rparr>"
    "proofs db1 = proofs db @ [p]" "\<And>q. q \<in> set (proofs db) \<Longrightarrow> pf_id q \<noteq> pf_id p"
    by metis
  with assms show "proofs_change R (proofs db) (proofs db1)" by (auto intro: proofs_change.issued)
qed

lemma createMinimumIncomeProof_change:
  "proofs_change R (proofs db) (proofs (snd (createMinimumIncomeProof env user inp pid iid now db0 db)))"
  unfolding createMinimumIncomeProof_def Let_def
  by (auto simp: minimum_income_claim_def intro!: charged_change proofs_change.unchanged split: option.split sum.split)

lemma createIncomeRangeProof_change:
  "proofs_change R (proofs db) (proofs (snd (createIncomeRangeProof env user inp pid iid now db0 db)))"
  unfolding createIncomeRangeProof_def Let_def
  by (auto simp: income_range_claim_def intro!: charged_change proofs_change.unchanged split: option.split sum.split)

lemma createRecurringIncomeProof_change:
  "proofs_change R (proofs db) (proofs (snd (createRecurringIncomeProof env user inp pid iid now db0 db)))"
  unfolding createRecurringIncomeProof_def Let_def
  by (auto simp: recurring_claim_def intro!: charged_change proofs_change.unchanged split: option.split sum.split)

lemma createPaymentReceiptProof_change:
  "proofs_change R (proofs db) (proofs (snd (createPaymentReceiptProof env user inp pid iid now db0 db)))"
  unfolding createPaymentReceiptProof_def Let_def
  by (auto simp: receipt_claim_def intro!: charged_change proofs_change.unchanged split: option.split sum.split)

lemma createEmployerPaymentProof_change:
  "proofs_change R (proofs db) (proofs (snd (createEmployerPaymentProof env user inp pid iid now db0 db)))"
  unfolding createEmployerPaymentProof_def Let_def
  by (auto simp: employer_claim_def dest!: employer_recheck_Inr(1) intro!: charged_change proofs_change.unchanged split: option.split sum.split)

lemma createEmploymentContinuityProof_change:
  "proofs_change R (proofs db) (proofs (snd (createEmploymentContinuityProof env user inp pid iid now db0 db)))"
  unfolding createEmploymentContinuityProof_def Let_def
  by (auto simp: continuity_claim_def dest!: continuity_recheck_Inr(1) intro!: charged_change proofs_change.unchanged split: sum.split)

lemma createAggregateEarningsProof_change:
  "proofs_change R (proofs db) (proofs (snd (createAggregateEarningsProof env user inp pid iid now db0 db)))"
  unfolding createAggregateEarningsProof_def Let_def
  by (auto simp: aggregate_claim_def intro!: finish_change proofs_change.unchanged elim!: created_change split: sum.split)

lemma invoice_tx_change:
  assumes "invoice_tx env row st iid now db = Inr (p, db')" "original row"
  shows "proofs_change R (proofs db) (proofs db')"
  using invoice_tx_Inr [OF assms(1)] assms(2) by (auto intro: proofs_change.issued)

lemma createInvoiceSettlementProof_change:
  "proofs_change R (proofs db) (proofs (snd (createInvoiceSettlementProof env user inp pid iid now db0 db)))"
  unfolding createInvoiceSettlementProof_def Let_def
  by (auto simp: settlement_claim_def intro!: finish_change proofs_change.unchanged elim!: invoice_tx_change
      split: option.split sum.split list.split)

lemma createProof_change: "proofs_change R (proofs db) (proofs (snd (createProof env user req pid iid now db0 db)))"
  by (cases req) (simp_all add: createMinimumIncomeProof_change createIncomeRangeProof_change createRecurringIncomeProof_change
      createPaymentReceiptProof_change createInvoiceSettlementProof_change createAggregateEarningsProof_change
      createEmployerPaymentProof_change createEmploymentContinuityProof_change)

text \<open>Verifying and revoking.\<close>

lemma verifyProof_proofs: "proofs (snd (snd (verifyProof env abuse chain budget ip pid now db))) = proofs db"
proof -
  have "proofs (snd (verify_found env chain budget w p c now db)) = proofs db" for w p c
    by (simp add: verify_found_def Let_def emitWebhook_def split: sum.split)
  then show ?thesis
    by (auto simp: verifyProof_def Let_def split: option.split prod.split sum.split)
qed

lemma insert_intent_proofs: "insert_intent r db = Inr db' \<Longrightarrow> proofs db' = proofs db"
  by (auto simp: insert_intent_def split: if_split_asm)

lemma revokeProof_change: "proofs_change R (proofs db) (proofs (snd (revokeProof env user pid body aid iid now db0 db)))"
  unfolding revokeProof_def Let_def emitWebhook_def
  by (auto intro: proofs_change.unchanged proofs_change.revoked dest!: insert_intent_proofs split: option.split sum.split)

text \<open>Renewing.\<close>

lemma claimPredecessor_Inr:
  assumes "claimPredecessor p now db = Inr db'"
  shows "db' = db\<lparr>proofs := upd_rows (claim_guard p) (claim_mark now) (proofs db)\<rparr>" "count_rows (claim_guard p) (proofs db) = 1"
  using assms by (auto simp: claimPredecessor_def update_many_def split: if_split_asm)

lemma upd_claim_supersedes:
  "(\<exists>q\<in>set (upd_rows (claim_guard p) (claim_mark now) ps). Q (pf_id q) (pf_supersedesId q)) \<longleftrightarrow> (\<exists>q\<in>set ps. Q (pf_id q) (pf_supersedesId q))"
  unfolding set_upd_rows bex_simps by (auto simp: claim_mark_def)

lemma issueSuccessor_Inr:
  assumes "issueSuccessor env uid p days hash sid iid now db0 db = Inr (resp, db')"
  obtains row c credential where "pf_claim p = Some c"
    "credential = rebuildCredential env (owner_wallet p db0) (p\<lparr>pf_id := sid, pf_createdAt := now, pf_expiresAt := expiry_of now days\<rparr>) c"
    "row = renewed_row env uid p sid now (expiry_of now days) credential hash"
    "count_rows (claim_guard p) (proofs db) = 1" "proofs db' = upd_rows (claim_guard p) (claim_mark now) (proofs db) @ [row]"
    "\<forall>q\<in>set (proofs db). pf_id q \<noteq> sid \<and> pf_supersedesId q \<noteq> Some (pf_id p)" "auth db' = auth db"
    "resp = renewalResponse env (pf_id p) now row (signCredential env credential) Mode_issued False"
proof -
  obtain c where c: "pf_claim p = Some c" using assms by (auto simp: issueSuccessor_def split: option.split_asm)
  define credential where "credential = rebuildCredential env (owner_wallet p db0) (p\<lparr>pf_id := sid, pf_createdAt := now, pf_expiresAt := expiry_of now days\<rparr>) c"
  define row where "row = renewed_row env uid p sid now (expiry_of now days) credential hash"
  obtain db1 db2 where d: "claimPredecessor p now db = Inr db1" "create_in_tx env row iid now db1 = Inr db2"
    "db' = emitProofCreated uid row db2" "resp = renewalResponse env (pf_id p) now row (signCredential env credential) Mode_issued False"
    using assms c unfolding issueSuccessor_def Let_def by (auto simp: credential_def row_def split: sum.split_asm)
  note k = claimPredecessor_Inr [OF d(1)]
  obtain db3 where i: "insert_proof row db1 = Inr db3" using d(2) by (auto simp: create_in_tx_def split: sum.split_asm)
  then have "\<not> (\<exists>q\<in>set (proofs db1). pf_id q = sid \<or> pf_supersedesId q = Some (pf_id p))"
    by (auto simp: insert_proof_def row_def renewed_row_def split: if_split_asm)
  then have "\<not> (\<exists>q\<in>set (proofs db). pf_id q = sid \<or> pf_supersedesId q = Some (pf_id p))"
    unfolding k(1) using upd_claim_supersedes [of p now "proofs db" "\<lambda>i s. i = sid \<or> s = Some (pf_id p)"] by simp
  then have fresh: "\<forall>q\<in>set (proofs db). pf_id q \<noteq> sid \<and> pf_supersedesId q \<noteq> Some (pf_id p)" by blast
  have "proofs db' = upd_rows (claim_guard p) (claim_mark now) (proofs db) @ [row]" "auth db' = auth db"
    using create_in_tx_Inr [OF d(2)] d(3) k(1) by (simp_all add: emitProofCreated_def emitWebhook_def)
  then show thesis using that [OF c credential_def row_def k(2) _ fresh _ d(4)] by blast
qed

lemma attach_successor_Inr:
  assumes "attach_successor sid uid pid hash db = Inr db'"
  shows "db' = db\<lparr>proofs := upd_rows (link_guard sid uid) (link_mark pid hash) (proofs db)\<rparr>"
    "count_rows (link_guard sid uid) (proofs db) = 1" "\<forall>q\<in>set (proofs db). pf_supersedesId q \<noteq> Some pid"
  using assms by (auto simp: attach_successor_def update_many_def split: if_split_asm)

lemma linkSuccessor_Inr:
  assumes "linkSuccessor env uid p sid hash now db0 db = Inr (resp, db')"
  obtains q where "count_rows (claim_guard p) (proofs db) = 1"
    "count_rows (link_guard sid uid) (upd_rows (claim_guard p) (claim_mark now) (proofs db)) = 1"
    "proofs db' = upd_rows (link_guard sid uid) (link_mark (pf_id p) hash) (upd_rows (claim_guard p) (claim_mark now) (proofs db))"
    "\<forall>q\<in>set (proofs db). pf_supersedesId q \<noteq> Some (pf_id p)" "auth db' = auth db"
    "find_row (\<lambda>r. pf_id r = sid) (proofs db') = Some q" "rn_proofId resp = pf_id q" "\<not> rn_replayed resp"
proof -
  obtain q where q: "find_row (\<lambda>q. pf_id q = sid \<and> pf_userId q = uid) (proofs db0) = Some q" "pf_id q = sid"
    using assms by (auto simp: linkSuccessor_def split: option.split_asm dest!: find_row_Some)
  obtain c where c: "pf_claim q = Some c" using assms q(1) by (auto simp: linkSuccessor_def split: option.split_asm)
  obtain db1 attached where d: "claimPredecessor p now db = Inr db1" "attach_successor sid uid (pf_id p) hash db1 = Inr db'"
    "find_row (\<lambda>r. pf_id r = sid) (proofs db') = Some attached" "rn_proofId resp = pf_id attached" "\<not> rn_replayed resp"
    using assms unfolding linkSuccessor_def Let_def q c option.case
    by (auto simp: renewalResponse_def split: if_split_asm sum.split_asm option.split_asm)
  note k = claimPredecessor_Inr [OF d(1)] and l = attach_successor_Inr [OF d(2)]
  have "\<forall>q\<in>set (proofs db). pf_supersedesId q \<noteq> Some (pf_id p)"
    using l(3) upd_claim_supersedes [of p now "proofs db" "\<lambda>i s. s = Some (pf_id p)"] by (auto simp: k(1))
  then show thesis using that [of attached] k l d by simp
qed

lemma loadOwned_Inr:
  "loadOwnedRenewableProof uid pid db = Inr p \<Longrightarrow> find_row (\<lambda>q. pf_id q = pid) (proofs db) = Some p \<and> pf_userId p = uid \<and> p \<in> set (proofs db) \<and> pf_id p = pid"
  by (auto simp: loadOwnedRenewableProof_def split: option.split_asm if_split_asm dest: find_row_Some)

lemma renewProof_Inl: "renewProof env user pid inp key sid iid now db0 db = (Inl e, db') \<Longrightarrow> db' = db"
  unfolding renewProof_def Let_def by (auto split: if_split_asm sum.split_asm)

lemma renewProof_Inr:
  assumes "renewProof env user pid inp key sid iid now db0 db = (Inr resp, db')"
  defines "hash \<equiv> renewal_hash env (a_id user) pid inp key"
  obtains p mode where "p \<in> set (proofs db0)" "pf_id p = pid" "db' = db" "replayOrConflict env pid hash mode db = Inr resp"
  | p where "p \<in> set (proofs db0)" "pf_id p = pid" "\<not> truthy (rw_successorProofId inp)"
      "issueSuccessor env (a_id user) p (rw_expiresInDays inp) hash sid iid now db0 db = Inr (resp, db')"
      "loadOwnedRenewableProof (a_id user) pid db0 = Inr p"
  | p where "p \<in> set (proofs db0)" "pf_id p = pid"
      "linkSuccessor env (a_id user) p (the (rw_successorProofId inp)) hash now db0 db = Inr (resp, db')"
proof -
  obtain p where l: "loadOwnedRenewableProof (a_id user) pid db0 = Inr p"
    using assms(1) by (auto simp: renewProof_def split: if_split_asm sum.split_asm)
  then have p: "p \<in> set (proofs db0)" "pf_id p = pid" by (auto dest: loadOwned_Inr)
  show thesis
    using assms(1) unfolding renewProof_def Let_def l sum.case p(2) hash_def [symmetric]
    by (auto split: if_split_asm sum.split_asm intro: that(1) [OF p] that(2) [OF p _ _ l] that(3) [OF p])
qed

lemma renewed_row_fields [simp]:
  "pf_id (renewed_row env uid p sid now ex cred hash) = sid"
  "pf_supersedesId (renewed_row env uid p sid now ex cred hash) = Some (pf_id p)"
  "pf_supersededAt (renewed_row env uid p sid now ex cred hash) = None"
  "pf_status (renewed_row env uid p sid now ex cred hash) = PS_ACTIVE"
  "pf_renewalRequestHash (renewed_row env uid p sid now ex cred hash) = Some hash"
  "pf_claim (renewed_row env uid p sid now ex cred hash) = pf_claim p"
  "typed_revocation (renewed_row env uid p sid now ex cred hash)"
  by (simp_all add: renewed_row_def typed_revocation_def)

lemma issueSuccessor_change:
  assumes "issueSuccessor env uid p days hash sid iid now db0 db = Inr (resp, db')" "p \<in> R"
  shows "proofs_change R (proofs db) (proofs db')"
proof (rule issueSuccessor_Inr [OF assms(1)])
  fix row c credential
  assume row: "row = renewed_row env uid p sid now (expiry_of now days) credential hash"
    and "count_rows (claim_guard p) (proofs db) = 1" "proofs db' = upd_rows (claim_guard p) (claim_mark now) (proofs db) @ [row]"
    "\<forall>q\<in>set (proofs db). pf_id q \<noteq> sid \<and> pf_supersedesId q \<noteq> Some (pf_id p)"
  moreover have "pf_proofType row = pf_proofType p" "pf_schemaVersion row = pf_schemaVersion p" "pf_periodStart row = pf_periodStart p"
    "pf_periodEnd row = pf_periodEnd p"
    by (simp_all add: row renewed_row_def)
  ultimately show ?thesis using assms(2) by (simp add: proofs_change.renewed)
qed

lemma linkSuccessor_change:
  assumes "linkSuccessor env uid p sid hash now db0 db = Inr (resp, db')"
  shows "proofs_change R (proofs db) (proofs db')"
  by (rule linkSuccessor_Inr [OF assms]) (simp add: proofs_change.linked)

lemma renewProof_change:
  "proofs_change (set (proofs db0)) (proofs db) (proofs (snd (renewProof env user pid inp key sid iid now db0 db)))"
proof (cases "renewProof env user pid inp key sid iid now db0 db")
  case (Pair res db')
  show ?thesis
  proof (cases res)
    case (Inl e)
    with Pair have "db' = db" by (simp add: renewProof_Inl)
    with Pair show ?thesis by (simp add: proofs_change.unchanged)
  next
    case (Inr resp)
    show ?thesis
      by (rule renewProof_Inr [OF Pair [unfolded Inr]])
        (simp_all add: Pair proofs_change.unchanged issueSuccessor_change linkSuccessor_change)
  qed
qed

text \<open>The jobs.\<close>

lemma set_intent_proofs [simp]: "proofs (set_intent iid f db) = proofs db"
  by (simp add: set_intent_def)

lemma executeIntent_change: "proofs_change R (proofs db) (proofs (snd (executeIntent cfg io i p now now' cs db)))"
proof -
  have "proofs_change R (proofs db) (proofs (confirm_intent i h t db))" for h t
    by (simp add: confirm_intent_def Let_def case_prod_beta proofs_change.anchored)
  then show ?thesis
    by (cases "deliver cfg io i p now now' cs")
      (simp add: executeIntent_def releaseUnclaimed_def fail_intent_def Let_def proofs_change.unchanged split: option.split delivery.split)
qed

lemma enqueueRevoke_proofs [simp]: "proofs (snd (enqueueRevoke pid iid now db)) = proofs db"
  by (auto simp: enqueueRevoke_def split: option.split sum.split dest!: insert_intent_proofs)

lemma flagForManualReview_proofs [simp]: "proofs (snd (flagForManualReview pid reason iid now db)) = proofs db"
  by (auto simp: flagForManualReview_def split: option.split sum.split dest!: insert_intent_proofs)

lemma reconcileProof_change: "proofs_change R (proofs db) (proofs (snd (reconcileProof p answer iid now db)))"
  by (auto simp: reconcileProof_def repair_proof_def intro: proofs_change.unchanged proofs_change.repaired split: sum.split read_status.split)

lemma reconcileProofState_change:
  "proofs_change R (proofs db) (proofs (fst (snd (reconcileProofState p answer iid now (db, cfs)))))"
  by (auto simp: reconcileProofState_def repair_proof_def intro: proofs_change.unchanged proofs_change.repaired split: sum.split read_status.split)

lemma reconcileBatch_change: "proofs_change R (proofs db) (proofs (fst (snd (reconcileBatch now db0 (db, rms)))))"
  by (simp add: reconcileBatch_def update_many_def Let_def proofs_change.unchanged proofs_change.expired)

lemma step_change: "proof_step env db0 db db' \<Longrightarrow> proofs_change (set (proofs db0)) (proofs db) (proofs db')"
  by (cases rule: proof_step.cases)
    (auto simp: createProof_change renewProof_change revokeProof_change verifyProof_proofs executeIntent_change reconcileProof_change
      reconcileProofState_change reconcileBatch_change proofs_change.unchanged)

end
