(* ===== verification/ProofMachine.thy ===== *)
theory ProofMachine
  imports ProofChanges
begin

text \<open>
  Invariants of the proof store over all interleavings of requests and jobs: rows stay well formed, revocation is
  final, and renewal chains neither fork nor close.
\<close>

subsection \<open>Well-formed rows\<close>

lemma typed_mark_revoked [simp]: "typed_row p \<Longrightarrow> typed_row (mark_revoked now ty actor reason body p)"
  by (simp add: typed_row_def typed_claim_def typed_revocation_def mark_revoked_def split: option.split_asm)

lemma typed_job_marks [simp]:
  "typed_row p \<Longrightarrow> typed_row (mark_anchored h p)" "typed_row p \<Longrightarrow> typed_row (mark_repaired now p)"
  "typed_row p \<Longrightarrow> pf_status p = PS_ACTIVE \<Longrightarrow> typed_row (mark_expired p)"
  by (simp_all add: typed_row_def typed_claim_def typed_revocation_def mark_anchored_def mark_repaired_def mark_expired_def split: option.split_asm if_split_asm)

lemma typed_claim_mark [simp]: "typed_row (claim_mark now p) = typed_row p"
  by (simp add: typed_row_def typed_claim_def typed_revocation_def claim_mark_def split: option.split)

lemma typed_link_mark [simp]: "typed_row (link_mark pid hash p) = typed_row p"
  by (simp add: typed_row_def typed_claim_def typed_revocation_def link_mark_def split: option.split)

lemma typed_upd_rows: "(\<And>q. typed_row q \<Longrightarrow> g q \<Longrightarrow> typed_row (f q)) \<Longrightarrow> \<forall>q\<in>set ps. typed_row q \<Longrightarrow> \<forall>q\<in>set (upd_rows g f ps). typed_row q"
  by (auto elim!: upd_rowsE)

lemma change_typed:
  "proofs_change R ps ps' \<Longrightarrow> \<forall>p\<in>R. typed_row p \<Longrightarrow> \<forall>q\<in>set ps. typed_row q \<Longrightarrow> \<forall>q\<in>set ps'. typed_row q"
proof (induction rule: proofs_change.induct)
  case (issued r ps)
  then show ?case by (auto simp: original_def)
next
  case (revoked ps pid now ty actor reason body)
  then show ?case by (intro typed_upd_rows) auto
next
  case (anchored ps pid h)
  then show ?case by (intro typed_upd_rows) auto
next
  case (repaired ps pid now)
  then show ?case by (intro typed_upd_rows) auto
next
  case (expired ps I)
  then show ?case by (intro typed_upd_rows) auto
next
  case (renewed p ps r now)
  then have "typed_claim p" by (simp add: typed_row_def)
  with renewed.hyps(5-11) have "typed_row r"
    unfolding typed_row_def typed_claim_def by (cases "pf_claim p") simp_all
  with renewed typed_upd_rows [of "claim_guard p" "claim_mark now" ps] show ?case by auto
next
  case (linked p ps sid uid now hash)
  then show ?case by (intro typed_upd_rows) auto
qed simp

text \<open>C24. Type preservation of the store.  Whatever requests and jobs run and however they interleave, every proof row
  has the schema version, claim operator and period of its proof type; it has a revocation time exactly when
  its status is REVOKED, and then an actor, its identity and a reason either all or (repaired from the chain) not at all.\<close>

theorem reachable_rows_typed:
  assumes "reachable env init db" "list_all typed_row (proofs init)"
  shows "list_all typed_row (proofs db)"
  using assms
proof (induction rule: reachable.induct)
  case (reach_step db0 db db')
  have "\<forall>q\<in>set (proofs db0). typed_row q" "\<forall>q\<in>set (proofs db). typed_row q"
    using reach_step.IH [OF reach_step.prems] by (simp_all add: list_all_iff)
  from change_typed [OF step_change [OF reach_step.hyps(3)] this] show ?case by (simp add: list_all_iff)
qed

lemma sample_revoke:
  "\<exists>r db'. revokeProof sample_env sample_worker ''p1'' None ''a1'' ''i2'' 30 sample_store sample_store = (Inr r, db')"
  by (simp add: revokeProof_def sample_store_def sample_row_def sample_worker_def find_row_def sample_env_def sample_proofs_db_def sample_db_def
      tx_audit_create_def insert_audit_def seq_taken_def insert_intent_def new_intent_def Let_def)

theorem reachable_rows_typed_witness:
  "\<exists>r db'. revokeProof sample_env sample_worker ''p1'' None ''a1'' ''i2'' 30 sample_store sample_store = (Inr r, db') \<and>
     list_all typed_row (proofs db') \<and> proofs sample_store = [sample_row]"
proof -
  obtain r db' where r: "revokeProof sample_env sample_worker ''p1'' None ''a1'' ''i2'' 30 sample_store sample_store = (Inr r, db')"
    using sample_revoke by blast
  have "proof_step sample_env sample_store sample_store db'"
    using step_revoke [of sample_env sample_store sample_store sample_worker "''p1''" None "''a1''" "''i2''" 30] r by simp
  then have "reachable sample_env sample_store db'" by (rule reach_step [OF reach_init reach_init])
  moreover have "list_all typed_row (proofs sample_store)"
    by (simp add: sample_store_def sample_row_def typed_row_def typed_claim_def typed_revocation_def)
  ultimately show ?thesis using reachable_rows_typed r by (auto simp: sample_store_def)
qed

subsection \<open>Revocation is final\<close>

lemma upd_rows_kept: "p \<in> set ps \<Longrightarrow> \<not> g p \<Longrightarrow> p \<in> set (upd_rows g f ps)"
  by (auto simp: upd_rows_def intro: rev_image_eqI)

lemma upd_rows_member: "p \<in> set ps \<Longrightarrow> (if g p then f p else p) \<in> set (upd_rows g f ps)"
  by (simp add: upd_rows_def)

lemma change_revoked:
  "proofs_change R ps ps' \<Longrightarrow> p \<in> set ps \<Longrightarrow> pf_status p = PS_REVOKED \<Longrightarrow>
   \<exists>p'\<in>set ps'. pf_id p' = pf_id p \<and> pf_status p' = PS_REVOKED"
proof (induction rule: proofs_change.induct)
  case (revoked ps pid now ty actor reason body)
  let ?f = "mark_revoked now ty actor reason body"
  have "(if pf_id p = pid then ?f p else p) \<in> set (upd_rows (\<lambda>q. pf_id q = pid) ?f ps)" using upd_rows_member [OF revoked(1)] .
  moreover have "pf_id (?f p) = pf_id p" "pf_status (?f p) = PS_REVOKED" by (simp_all add: mark_revoked_def)
  ultimately show ?case using revoked(2) by (metis (mono_tags, lifting))
next
  case (anchored ps pid h)
  have "(if pf_id p = pid then mark_anchored h p else p) \<in> set (upd_rows (\<lambda>q. pf_id q = pid) (mark_anchored h) ps)" using upd_rows_member [OF anchored(1)] .
  moreover have "pf_id (mark_anchored h p) = pf_id p" "pf_status (mark_anchored h p) = pf_status p" by (simp_all add: mark_anchored_def)
  ultimately show ?case using anchored(2) by (metis (mono_tags, lifting))
next
  case (repaired ps pid now)
  have "(if pf_id p = pid then mark_repaired now p else p) \<in> set (upd_rows (\<lambda>q. pf_id q = pid) (mark_repaired now) ps)" using upd_rows_member [OF repaired(1)] .
  moreover have "pf_id (mark_repaired now p) = pf_id p" "pf_status (mark_repaired now p) = PS_REVOKED" by (simp_all add: mark_repaired_def)
  ultimately show ?case using repaired(2) by (metis (mono_tags, lifting))
next
  case (expired ps I)
  then have "p \<in> set (upd_rows (\<lambda>q. pf_id q \<in> I \<and> pf_status q = PS_ACTIVE) mark_expired ps)" by (intro upd_rows_kept) simp_all
  with expired(2) show ?case by blast
next
  case (renewed q ps r now)
  then have "p \<in> set (upd_rows (claim_guard q) (claim_mark now) ps)" by (intro upd_rows_kept) (simp_all add: claim_guard_def)
  with renewed.prems(2) show ?case by auto
next
  case (linked q ps sid uid now hash)
  then have "p \<in> set (upd_rows (link_guard sid uid) (link_mark (pf_id q) hash) (upd_rows (claim_guard q) (claim_mark now) ps))"
    by (intro upd_rows_kept) (simp_all add: claim_guard_def link_guard_def)
  with linked.prems(2) show ?case by blast
qed auto

lemma marks_id [simp]:
  "pf_id (mark_revoked now ty actor reason body p) = pf_id p" "pf_id (mark_anchored h p) = pf_id p" "pf_id (mark_repaired now p) = pf_id p"
  "pf_id (claim_mark now p) = pf_id p" "pf_id (link_mark pid hash p) = pf_id p"
  by (simp_all add: mark_revoked_def mark_anchored_def mark_repaired_def claim_mark_def link_mark_def)

lemma map_id_upd_rows [simp]: "(\<And>p. pf_id (f p) = pf_id p) \<Longrightarrow> map pf_id (upd_rows g f ps) = map pf_id ps"
  by (simp add: upd_rows_def)

lemma change_ids: "proofs_change R ps ps' \<Longrightarrow> map pf_id ps' = map pf_id ps \<or> (\<exists>i. i \<notin> pf_id ` set ps \<and> map pf_id ps' = map pf_id ps @ [i])"
  by (induction rule: proofs_change.induct) auto

lemma change_unique: "proofs_change R ps ps' \<Longrightarrow> unique_on pf_id ps \<Longrightarrow> unique_on pf_id ps'"
  using change_ids [of R ps ps'] by (auto simp: unique_on_def)

lemma later_induct [consumes 1, case_names same step]:
  assumes "later env db db'" "P db" "\<And>d d' R. later env db d \<Longrightarrow> proofs_change R (proofs d) (proofs d') \<Longrightarrow> P d \<Longrightarrow> P d'"
  shows "P db'"
  using assms(1) unfolding later_def
proof (induction rule: rtranclp_induct)
  case (step d d')
  then obtain d0 where "proof_step env d0 d d'" by blast
  from assms(3) [OF _ step_change [OF this] step.IH] step.hyps(1) show ?case by (simp add: later_def)
qed (rule assms(2))

definition revoked_in :: "ident \<Rightarrow> proofs_db \<Rightarrow> bool" where
  "revoked_in pid db \<longleftrightarrow> unique_on pf_id (proofs db) \<and> (\<exists>p\<in>set (proofs db). pf_id p = pid \<and> pf_status p = PS_REVOKED)"

lemma revoked_later: "later env db db' \<Longrightarrow> revoked_in pid db \<Longrightarrow> revoked_in pid db'"
proof (induction rule: later_induct)
  case (step d d' R)
  then obtain p where "p \<in> set (proofs d)" "pf_id p = pid" "pf_status p = PS_REVOKED" "unique_on pf_id (proofs d)" by (auto simp: revoked_in_def)
  with change_revoked [OF step.hyps(2)] change_unique [OF step.hyps(2)] show ?case by (auto simp: revoked_in_def)
qed

lemma unique_later: "later env db db' \<Longrightarrow> unique_on pf_id (proofs db) \<Longrightarrow> unique_on pf_id (proofs db')"
  by (induction rule: later_induct) (auto dest: change_unique)

lemma revokeProof_revokes:
  assumes "revokeProof env user pid body aid iid now db0 db = (Inr r, db')" "later env db0 db" "unique_on pf_id (proofs db0)"
  shows "revoked_in pid db'"
proof -
  have u: "unique_on pf_id (proofs db)" using unique_later [OF assms(2,3)] .
  obtain p where p: "find_row (\<lambda>p. pf_id p = pid) (proofs db0) = Some p"
    using assms(1) by (cases "find_row (\<lambda>p. pf_id p = pid) (proofs db0)") (simp_all add: revokeProof_def)
  note rv = assms(1) [unfolded revokeProof_def p option.case Let_def]
  show ?thesis
  proof (cases "pf_status p = PS_REVOKED")
    case True
    then have "revoked_in pid db0" using find_row_Some [OF p] assms(3) by (auto simp: revoked_in_def)
    with revoked_later [OF assms(2)] True rv show ?thesis by (auto split: if_split_asm)
  next
    case False
    obtain q where q: "find_row (\<lambda>q. pf_id q = pid) (proofs db) = Some q" using rv False by (auto split: if_split_asm option.split_asm)
    obtain ty rs where ps: "proofs db' = upd_rows (\<lambda>q. pf_id q = pid) (mark_revoked now ty (a_id user) rs body) (proofs db)"
      using rv False q by (auto simp: emitWebhook_def split: if_split_asm sum.split_asm dest!: insert_intent_proofs)
    have "(if pf_id q = pid then mark_revoked now ty (a_id user) rs body q else q) \<in> set (proofs db')"
      unfolding ps by (rule upd_rows_member) (simp add: find_row_Some [OF q])
    with find_row_Some [OF q] have "\<exists>q\<in>set (proofs db'). pf_id q = pid \<and> pf_status q = PS_REVOKED"
      by (intro bexI [of _ "mark_revoked now ty (a_id user) rs body q"]) (simp_all add: mark_revoked_def)
    moreover have "unique_on pf_id (proofs db')" unfolding ps using u by (simp add: unique_on_upd_rows mark_revoked_def)
    ultimately show ?thesis by (simp add: revoked_in_def)
  qed
qed

lemma verifyProof_Inr:
  assumes "verifyProof env abuse chain budget ip pid now db = (Inr v, rest)"
  obtains "v = unknown_proof"
  | p c w ks where "load_proof pid db = Some (p, c, w)" "vf_result v = anchoring_result env p (contract_result ks (local_result env w p c now))"
proof -
  have a: "fst (case load_proof pid db of None \<Rightarrow> (Inr unknown_proof, db) | Some (p, c, w) \<Rightarrow> verify_found env chain budget w p c now db) = Inr v"
    using assms by (auto simp: verifyProof_def Let_def split: option.split_asm prod.split_asm sum.split_asm)
  show thesis
  proof (cases "load_proof pid db")
    case None
    with a that(1) show thesis by simp
  next
    case (Some l)
    obtain p c w where l: "l = (p, c, w)" by (cases l)
    with a Some obtain ks where "vf_result v = anchoring_result env p (contract_result ks (local_result env w p c now))"
      by (auto simp: verify_found_def Let_def split: sum.split_asm)
    with that(2) Some l show thesis by blast
  qed
qed

text \<open>C1. Revocation is final.  Once \<open>revokeProof\<close> has answered a proof's owner or an administrator, no request and no job, in any number and
  interleaving, brings the proof back: every later verification that answers says neither VALID nor EXPIRED nor
  UNVERIFIED_ISSUER, whatever the contract, the clock or the current wallet.\<close>

theorem revocation_final:
  assumes "revokeProof env user pid body aid iid now db0 db = (Inr r, db1)" "later env db0 db" "unique_on pf_id (proofs db0)"
    "later env db1 db2" "verifyProof env abuse chain budget ip pid t db2 = (Inr v, rest)"
  shows "vf_result v \<in> {VR_REVOKED, VR_INVALID_SIGNATURE, VR_UNKNOWN_PROOF}"
proof -
  have rv: "revoked_in pid db2" using revoked_later [OF assms(4) revokeProof_revokes [OF assms(1-3)]] .
  show ?thesis
  proof (rule verifyProof_Inr [OF assms(5)])
    fix p c w ks
    assume l: "load_proof pid db2 = Some (p, c, w)" and v: "vf_result v = anchoring_result env p (contract_result ks (local_result env w p c t))"
    have "find_row (\<lambda>p. pf_id p = pid) (proofs db2) = Some p" using l by (auto simp: load_proof_def split: option.split_asm)
    note p = find_row_Some [OF this]
    with rv have "pf_status p = PS_REVOKED" unfolding revoked_in_def by (metis unique_on_eqD)
    then have "local_result env w p c t \<in> {VR_REVOKED, VR_INVALID_SIGNATURE}" by (simp add: local_result_def)
    then show ?thesis unfolding v by (auto simp: contract_result_def anchoring_result_def split: option.split)
  qed (simp add: unknown_proof_def)
qed

theorem revocation_final_witness:
  "\<exists>r db' v rest. revokeProof sample_env sample_worker ''p1'' None ''a1'' ''i2'' 30 sample_store sample_store = (Inr r, db') \<and>
     verifyProof sample_env None None True None ''p1'' 40 db' = (Inr v, rest) \<and>
     vf_result v \<in> {VR_REVOKED, VR_INVALID_SIGNATURE, VR_UNKNOWN_PROOF}"
proof -
  obtain r db' where r: "revokeProof sample_env sample_worker ''p1'' None ''a1'' ''i2'' 30 sample_store sample_store = (Inr r, db')"
    using sample_revoke by blast
  obtain v rest where v: "verifyProof sample_env None None True None ''p1'' 40 db' = (Inr v, rest)"
    by (cases "load_proof ''p1'' db'") (auto simp: verifyProof_def verify_found_def contract_status_of_def Let_def)
  have "later sample_env d d" for d by (simp add: later_def)
  moreover have "unique_on pf_id (proofs sample_store)" by (simp add: sample_store_def unique_on_def)
  ultimately show ?thesis using revocation_final [OF r _ _ _ v] r v by blast
qed

subsection \<open>Renewal chains\<close>

definition chain_edges :: "proof_row table \<Rightarrow> (ident \<times> ident) set" where
  "chain_edges ps = {(pf_id q, i) | q i. q \<in> set ps \<and> pf_supersedesId q = Some i}"

definition superseded_ids :: "proof_row table \<Rightarrow> ident set" where
  "superseded_ids ps = pf_id ` {p \<in> set ps. pf_supersededAt p \<noteq> None}"

definition chains_ok :: "proof_row table \<Rightarrow> bool" where
  "chains_ok ps \<longleftrightarrow> unique_on pf_id ps \<and> snd ` chain_edges ps \<subseteq> superseded_ids ps \<and>
     (\<forall>a b i. (a, i) \<in> chain_edges ps \<longrightarrow> (b, i) \<in> chain_edges ps \<longrightarrow> a = b) \<and> acyclic (chain_edges ps)"

lemma chain_edges_append [simp]: "chain_edges (ps @ [r]) = chain_edges ps \<union> (case pf_supersedesId r of None \<Rightarrow> {} | Some i \<Rightarrow> {(pf_id r, i)})"
  by (auto simp: chain_edges_def split: option.split)

lemma superseded_ids_append [simp]: "superseded_ids (ps @ [r]) = superseded_ids ps \<union> (if pf_supersededAt r = None then {} else {pf_id r})"
  by (auto simp: superseded_ids_def)

lemma chain_edges_upd:
  assumes "\<And>p. pf_id (f p) = pf_id p" "\<And>p. pf_supersedesId (f p) = pf_supersedesId p"
  shows "chain_edges (upd_rows g f ps) = chain_edges ps"
proof -
  have "(\<lambda>q. (pf_id q, pf_supersedesId q)) ` set (upd_rows g f ps) = (\<lambda>q. (pf_id q, pf_supersedesId q)) ` set ps"
    unfolding set_upd_rows image_image using assms by (intro image_cong) auto
  moreover have "chain_edges xs = {(a, i). (a, Some i) \<in> (\<lambda>q. (pf_id q, pf_supersedesId q)) ` set xs}" for xs
    by (auto simp: chain_edges_def image_iff)
  ultimately show ?thesis by simp
qed

lemma superseded_ids_upd:
  assumes "\<And>p. pf_id (f p) = pf_id p" "\<And>p. pf_supersededAt p \<noteq> None \<Longrightarrow> pf_supersededAt (f p) \<noteq> None"
  shows "superseded_ids ps \<subseteq> superseded_ids (upd_rows g f ps)"
proof
  fix i assume "i \<in> superseded_ids ps"
  then obtain p where p: "p \<in> set ps" "pf_supersededAt p \<noteq> None" "pf_id p = i" by (auto simp: superseded_ids_def)
  have "(if g p then f p else p) \<in> set (upd_rows g f ps)" using upd_rows_member [OF p(1)] .
  with p assms show "i \<in> superseded_ids (upd_rows g f ps)" unfolding superseded_ids_def by (auto intro!: image_eqI [of _ _ "if g p then f p else p"])
qed

lemma chains_ok_upd:
  assumes "chains_ok ps" "\<And>p. pf_id (f p) = pf_id p" "\<And>p. pf_supersedesId (f p) = pf_supersedesId p"
    "\<And>p. pf_supersededAt p \<noteq> None \<Longrightarrow> pf_supersededAt (f p) \<noteq> None"
  shows "chains_ok (upd_rows g f ps)"
proof -
  have "superseded_ids ps \<subseteq> superseded_ids (upd_rows g f ps)" by (rule superseded_ids_upd) (use assms in auto)
  moreover have "chain_edges (upd_rows g f ps) = chain_edges ps" by (rule chain_edges_upd) (use assms in auto)
  moreover have "unique_on pf_id (upd_rows g f ps) = unique_on pf_id ps" using assms(2) by (intro unique_on_upd_rows)
  ultimately show ?thesis using assms(1) unfolding chains_ok_def by auto
qed

text \<open>A new edge into a proof just claimed, from a proof nothing supersedes, closes no cycle and forks no chain.\<close>

lemma chains_extend:
  assumes "chains_ok ps" "unique_on pf_id ps'" "chain_edges ps' = insert (s, i) (chain_edges ps)" "superseded_ids ps \<union> {i} \<subseteq> superseded_ids ps'"
    "s \<notin> snd ` chain_edges ps" "s \<noteq> i" "i \<notin> snd ` chain_edges ps"
  shows "chains_ok ps'"
proof -
  have "(i, s) \<notin> (chain_edges ps)\<^sup>*"
  proof
    assume "(i, s) \<in> (chain_edges ps)\<^sup>*"
    then show False
    proof (cases rule: rtranclE)
      case (step y)
      with assms(5) show False by force
    qed (use assms(6) in simp)
  qed
  with assms(1,3) have "acyclic (chain_edges ps')" by (simp add: acyclic_insert chains_ok_def)
  moreover have "\<forall>a b j. (a, j) \<in> chain_edges ps' \<longrightarrow> (b, j) \<in> chain_edges ps' \<longrightarrow> a = b"
    using assms(1,7) unfolding assms(3) chains_ok_def by (auto simp: image_iff)
  moreover have "snd ` chain_edges ps' \<subseteq> superseded_ids ps'" using assms(1,4) unfolding assms(3) chains_ok_def by auto
  ultimately show ?thesis using assms(2) by (simp add: chains_ok_def)
qed

lemma superseded_idsI: "q \<in> set ps \<Longrightarrow> pf_supersededAt q \<noteq> None \<Longrightarrow> pf_id q \<in> superseded_ids ps"
  by (auto simp: superseded_ids_def)

lemma claimed_superseded:
  assumes "count_rows (claim_guard p) ps = 1"
  shows "superseded_ids ps \<union> {pf_id p} \<subseteq> superseded_ids (upd_rows (claim_guard p) (claim_mark now) ps)" "pf_id p \<in> pf_id ` set ps"
proof -
  obtain q where q: "q \<in> set ps" "claim_guard p q" using assms count_rows_pos [of "claim_guard p" ps] by auto
  have "(if claim_guard p q then claim_mark now q else q) \<in> set (upd_rows (claim_guard p) (claim_mark now) ps)" using upd_rows_member [OF q(1)] .
  with q(2) have "claim_mark now q \<in> set (upd_rows (claim_guard p) (claim_mark now) ps)" by simp
  from superseded_idsI [OF this] q(2) have "pf_id p \<in> superseded_ids (upd_rows (claim_guard p) (claim_mark now) ps)"
    by (simp add: claim_mark_def claim_guard_def)
  moreover have "superseded_ids ps \<subseteq> superseded_ids (upd_rows (claim_guard p) (claim_mark now) ps)"
    by (rule superseded_ids_upd) (simp_all add: claim_mark_def)
  ultimately show "superseded_ids ps \<union> {pf_id p} \<subseteq> superseded_ids (upd_rows (claim_guard p) (claim_mark now) ps)" by simp
  show "pf_id p \<in> pf_id ` set ps" using q by (auto simp: claim_guard_def intro: rev_image_eqI)
qed

lemma no_edge_into: "\<forall>q\<in>set ps. pf_supersedesId q \<noteq> Some i \<Longrightarrow> i \<notin> snd ` chain_edges ps"
  by (auto simp: chain_edges_def)

lemma chains_ok_claim: "chains_ok ps \<Longrightarrow> chains_ok (upd_rows (claim_guard p) (claim_mark now) ps)"
  by (rule chains_ok_upd) (simp_all add: claim_mark_def)

lemma chain_edges_claim [simp]: "chain_edges (upd_rows (claim_guard p) (claim_mark now) ps) = chain_edges ps"
  by (rule chain_edges_upd) (simp_all add: claim_mark_def)

lemma chain_edgeI: "q \<in> set ps \<Longrightarrow> pf_supersedesId q = Some i \<Longrightarrow> (pf_id q, i) \<in> chain_edges ps"
  by (auto simp: chain_edges_def)

lemma chain_edges_link:
  assumes "0 < count_rows (link_guard sid uid) ps"
  shows "chain_edges (upd_rows (link_guard sid uid) (link_mark pid hash) ps) = insert (sid, pid) (chain_edges ps)" (is "chain_edges ?ps = _")
proof (intro equalityI subsetI)
  have g: "pf_id (link_mark pid hash r) = sid" "pf_supersedesId (link_mark pid hash r) = Some pid" "pf_supersedesId r = None" if "link_guard sid uid r" for r
    using that by (simp_all add: link_mark_def link_guard_def)
  fix e
  {
    assume "e \<in> chain_edges ?ps"
    then obtain r i where r: "r \<in> set ?ps" "pf_supersedesId r = Some i" "e = (pf_id r, i)" by (auto simp: chain_edges_def)
    from r(1) show "e \<in> insert (sid, pid) (chain_edges ps)"
    proof (rule upd_rowsE)
      fix x assume x: "link_guard sid uid x" "r = link_mark pid hash x"
      have "e = (sid, pid)" using r(2,3) unfolding x(2) g(1,2) [OF x(1)] by simp
      then show ?thesis by simp
    next
      assume "r \<in> set ps"
      with r(2,3) show ?thesis by (simp add: chain_edgeI)
    qed
  }
  {
    assume "e \<in> insert (sid, pid) (chain_edges ps)"
    then consider "e = (sid, pid)" | r i where "r \<in> set ps" "pf_supersedesId r = Some i" "e = (pf_id r, i)" by (auto simp: chain_edges_def)
    then show "e \<in> chain_edges ?ps"
    proof cases
      case 1
      obtain q where q: "q \<in> set ps" "link_guard sid uid q" using assms unfolding count_rows_pos by blast
      with upd_rows_member [OF q(1), of "link_guard sid uid" "link_mark pid hash"] have "link_mark pid hash q \<in> set ?ps" by simp
      from chain_edgeI [OF this g(2) [OF q(2)]] show ?thesis unfolding g(1) [OF q(2)] 1 .
    next
      case (2 r i)
      then have "\<not> link_guard sid uid r" using g(3) [of r] by auto
      then have "r \<in> set ?ps" using upd_rows_kept [OF 2(1)] by blast
      with 2 show ?thesis by (simp add: chain_edgeI)
    qed
  }
qed

lemma change_chains: "proofs_change R ps ps' \<Longrightarrow> chains_ok ps \<Longrightarrow> chains_ok ps'"
proof (induction rule: proofs_change.induct)
  case (issued r ps)
  then have "unique_on pf_id (ps @ [r])" by (auto simp: unique_on_def chains_ok_def)
  with issued show ?case by (auto simp: chains_ok_def original_def)
next
  case (revoked ps pid now ty actor reason body)
  then show ?case by (rule chains_ok_upd) (simp_all add: mark_revoked_def)
next
  case (anchored ps pid h)
  then show ?case by (rule chains_ok_upd) (simp_all add: mark_anchored_def)
next
  case (repaired ps pid now)
  then show ?case by (rule chains_ok_upd) (simp_all add: mark_repaired_def)
next
  case (expired ps I)
  then show ?case by (rule chains_ok_upd) (simp_all add: mark_expired_def)
next
  case (renewed p ps r now)
  let ?ps = "upd_rows (claim_guard p) (claim_mark now) ps"
  note k = claimed_superseded [OF renewed.hyps(2)] and n = renewed.hyps(12)
  have ids: "superseded_ids ps \<subseteq> pf_id ` set ps" by (auto simp: superseded_ids_def)
  have "pf_id r \<notin> pf_id ` set ps" using n by auto
  moreover have "snd ` chain_edges ps \<subseteq> superseded_ids ps" using renewed.prems by (simp add: chains_ok_def)
  moreover have "unique_on pf_id (?ps @ [r])" using renewed.prems n by (auto simp: unique_on_def chains_ok_def)
  ultimately show ?case
    using renewed.hyps(3,4) k ids no_edge_into [of ps "pf_id p"] n
    by (intro chains_extend [OF renewed.prems, of _ "pf_id r" "pf_id p"]) auto
next
  case (linked p ps sid uid now hash)
  let ?ps = "upd_rows (claim_guard p) (claim_mark now) ps"
  let ?ps' = "upd_rows (link_guard sid uid) (link_mark (pf_id p) hash) ?ps"
  note c = chains_ok_claim [OF linked.prems, of p now] and k = claimed_superseded(1) [OF linked.hyps(1), of now]
  obtain q where q: "q \<in> set ?ps" "link_guard sid uid q" using linked.hyps(2) count_rows_pos [of "link_guard sid uid" ?ps] by auto
  have "sid \<notin> superseded_ids ?ps"
  proof
    assume "sid \<in> superseded_ids ?ps"
    then obtain x where x: "x \<in> set ?ps" "pf_supersededAt x \<noteq> None" "pf_id x = sid" by (auto simp: superseded_ids_def)
    with q c have "x = q" by (auto simp: chains_ok_def link_guard_def dest: unique_on_eqD)
    with x q(2) show False by (simp add: link_guard_def)
  qed
  moreover have "superseded_ids ?ps \<subseteq> superseded_ids ?ps'" by (rule superseded_ids_upd) (simp_all add: link_mark_def)
  moreover have "unique_on pf_id ?ps'" using c by (simp add: chains_ok_def unique_on_def)
  moreover have "snd ` chain_edges ps \<subseteq> superseded_ids ?ps" using c by (simp add: chains_ok_def)
  moreover have "chain_edges ?ps' = insert (sid, pf_id p) (chain_edges ?ps)" by (rule chain_edges_link) (simp add: linked.hyps(2))
  ultimately show ?case
    using k no_edge_into [OF linked.hyps(3)] by (intro chains_extend [OF c, of _ sid "pf_id p"]) auto
qed simp

text \<open>C5. Renewal chains.  However requests and jobs interleave, no proof has two successors, every superseded proof is marked
  as such, and following \<open>supersedesId\<close> never returns to a proof already passed: concurrent renewals cannot fork a
  chain or close it into a cycle.\<close>

theorem renewal_chains_sound:
  assumes "reachable env init db" "chains_ok (proofs init)"
  shows "acyclic {(pf_id q, i) | q i. q \<in> set (proofs db) \<and> pf_supersedesId q = Some i} \<and>
         (\<forall>q\<in>set (proofs db). \<forall>q'\<in>set (proofs db). pf_supersedesId q \<noteq> None \<and> pf_supersedesId q = pf_supersedesId q' \<longrightarrow> q = q') \<and>
         (\<forall>q\<in>set (proofs db). \<forall>i. pf_supersedesId q = Some i \<longrightarrow> (\<exists>p\<in>set (proofs db). pf_id p = i \<and> pf_supersededAt p \<noteq> None))"
proof -
  have c: "chains_ok (proofs db)"
    using assms
  proof (induction rule: reachable.induct)
    case (reach_step db0 db db')
    from change_chains [OF step_change [OF reach_step.hyps(3)] reach_step.IH(2) [OF reach_step.prems]] show ?case .
  qed
  have e: "(pf_id q, i) \<in> chain_edges (proofs db)" if "q \<in> set (proofs db)" "pf_supersedesId q = Some i" for q i
    using that by (auto simp: chain_edges_def)
  have "q = q'" if q: "q \<in> set (proofs db)" "q' \<in> set (proofs db)" "pf_supersedesId q = Some i" "pf_supersedesId q' = Some i" for q q' i
  proof -
    have "pf_id q = pf_id q'" using e [OF q(1,3)] e [OF q(2,4)] c unfolding chains_ok_def by blast
    with c q(1,2) show ?thesis unfolding chains_ok_def by (blast dest: unique_on_eqD)
  qed
  then have "\<forall>q\<in>set (proofs db). \<forall>q'\<in>set (proofs db). pf_supersedesId q \<noteq> None \<and> pf_supersedesId q = pf_supersedesId q' \<longrightarrow> q = q'"
    by (metis option.exhaust)
  moreover have "\<exists>p\<in>set (proofs db). pf_id p = i \<and> pf_supersededAt p \<noteq> None" if "q \<in> set (proofs db)" "pf_supersedesId q = Some i" for q i
  proof -
    have "i \<in> snd ` chain_edges (proofs db)" using imageI [OF e [OF that], of snd] by simp
    with c have "i \<in> superseded_ids (proofs db)" unfolding chains_ok_def by blast
    then show ?thesis by (auto simp: superseded_ids_def)
  qed
  moreover have "acyclic {(pf_id q, i) | q i. q \<in> set (proofs db) \<and> pf_supersedesId q = Some i}"
    using c unfolding chains_ok_def chain_edges_def by blast
  ultimately show ?thesis by blast
qed

lemma sample_chains: "chains_ok (proofs sample_store)"
  by (simp add: chains_ok_def sample_store_def sample_row_def unique_on_def chain_edges_def acyclic_def)

definition sample_renewal :: "proofs_db \<Rightarrow> (http_error, renewal) result \<times> proofs_db" where
  "sample_renewal db = renewProof sample_env sample_worker ''p1'' \<lparr>rw_successorProofId = None, rw_expiresInDays = None\<rparr> None ''p2'' ''i2'' 30 db db"

lemma sample_renews: "\<exists>resp db'. sample_renewal sample_store = (Inr resp, db') \<and> supersededBy ''p1'' db' = Some (last (proofs db')) \<and>
    find_row (\<lambda>p. pf_id p = ''p1'') (proofs db') \<noteq> None \<and> pf_claim (last (proofs db')) \<noteq> None \<and>
    pf_renewalRequestHash (last (proofs db')) = Some (renewal_hash sample_env ''u1'' ''p1'' \<lparr>rw_successorProofId = None, rw_expiresInDays = None\<rparr> None) \<and>
    loadOwnedRenewableProof ''u1'' ''p1'' db' = Inr (claim_mark 30 sample_row)"
  by (simp add: sample_renewal_def renewProof_def sample_store_def sample_row_def sample_worker_def find_row_def sample_env_def sample_proofs_db_def
      loadOwnedRenewableProof_def supersededBy_def evaluateRenewalEligibility_def renewable_until_def RENEWAL_GRACE_PERIOD_DAYS_def
      issueSuccessor_def claimPredecessor_def update_many_def count_rows_def claim_guard_def upd_rows_def claim_mark_def create_in_tx_def insert_proof_def
      renewed_row_def credential_hash_def register_intent_def insert_intent_def emitProofCreated_def emitWebhook_def insert_row_def Let_def)

theorem renewal_chains_sound_witness:
  "\<exists>resp db'. sample_renewal sample_store = (Inr resp, db') \<and>
     acyclic {(pf_id q, i) | q i. q \<in> set (proofs db') \<and> pf_supersedesId q = Some i} \<and> supersededBy ''p1'' db' \<noteq> None"
proof -
  obtain resp db' where r: "sample_renewal sample_store = (Inr resp, db')" "supersededBy ''p1'' db' \<noteq> None" using sample_renews by blast
  have "proof_step sample_env sample_store sample_store db'"
    using step_renew [of sample_env sample_store sample_store sample_worker "''p1''" "\<lparr>rw_successorProofId = None, rw_expiresInDays = None\<rparr>" None "''p2''" "''i2''" 30]
      r(1) by (simp add: sample_renewal_def)
  then have "reachable sample_env sample_store db'" by (rule reach_step [OF reach_init reach_init])
  from renewal_chains_sound [OF this sample_chains] r show ?thesis by blast
qed

subsection \<open>One successor\<close>

lemma change_edges: "proofs_change R ps ps' \<Longrightarrow> chain_edges ps \<subseteq> chain_edges ps'"
proof (induction rule: proofs_change.induct)
  case (linked p ps sid uid now hash)
  then show ?case using chain_edges_link [of sid uid "upd_rows (claim_guard p) (claim_mark now) ps" "pf_id p" hash] by auto
qed (auto simp: chain_edges_upd mark_revoked_def mark_anchored_def mark_repaired_def mark_expired_def)

lemma edges_later: "later env db db' \<Longrightarrow> chain_edges (proofs db) \<subseteq> chain_edges (proofs db')"
proof (induction rule: later_induct)
  case (step d d' R)
  then show ?case using change_edges by blast
qed simp

lemma chains_later: "later env db db' \<Longrightarrow> chains_ok (proofs db) \<Longrightarrow> chains_ok (proofs db')"
proof (induction rule: later_induct)
  case (step d d' R)
  then show ?case using change_chains by blast
qed simp

lemma replay_edge: "replayOrConflict env pid hash mode db = Inr resp \<Longrightarrow> (rn_proofId resp, pid) \<in> chain_edges (proofs db) \<and> rn_replayed resp"
  by (auto simp: replayOrConflict_def supersededBy_def renewalResponse_def split: option.split_asm if_split_asm dest!: find_row_Some intro: chain_edgeI)

lemma fresh_no_edge: "\<forall>q\<in>set ps. pf_supersedesId q \<noteq> Some i \<Longrightarrow> (a, i) \<notin> chain_edges ps"
  by (auto simp: chain_edges_def)

text \<open>A renewal that answers leaves its successor in the store, and only replays if one was there before.\<close>

lemma renewal_edge:
  assumes "renewProof env user pid inp key sid iid now db0 db = (Inr resp, db')"
  shows "(rn_proofId resp, pid) \<in> chain_edges (proofs db')" "(a, pid) \<in> chain_edges (proofs db) \<Longrightarrow> rn_replayed resp \<and> db' = db"
proof -
  have "(rn_proofId resp, pid) \<in> chain_edges (proofs db') \<and> ((a, pid) \<in> chain_edges (proofs db) \<longrightarrow> rn_replayed resp \<and> db' = db)"
  proof (rule renewProof_Inr [OF assms])
    fix p mode
    assume "db' = db" "replayOrConflict env pid (renewal_hash env (a_id user) pid inp key) mode db = Inr resp"
    then show ?thesis using replay_edge by blast
  next
    fix p
    assume p: "pf_id p = pid"
      and i: "issueSuccessor env (a_id user) p (rw_expiresInDays inp) (renewal_hash env (a_id user) pid inp key) sid iid now db0 db = Inr (resp, db')"
    show ?thesis
    proof (rule issueSuccessor_Inr [OF i])
      fix row c credential
      assume row: "row = renewed_row env (a_id user) p sid now (expiry_of now (rw_expiresInDays inp)) credential (renewal_hash env (a_id user) pid inp key)"
        "proofs db' = upd_rows (claim_guard p) (claim_mark now) (proofs db) @ [row]"
        "\<forall>q\<in>set (proofs db). pf_id q \<noteq> sid \<and> pf_supersedesId q \<noteq> Some (pf_id p)"
        "resp = renewalResponse env (pf_id p) now row (signCredential env credential) Mode_issued False"
      have "(a, pid) \<notin> chain_edges (proofs db)" by (rule fresh_no_edge) (use row(3) p in auto)
      moreover have "rn_proofId resp = sid" by (simp add: row(1,4) renewalResponse_def)
      moreover have "(sid, pid) \<in> chain_edges (proofs db')" by (simp add: row(1,2) p)
      ultimately show ?thesis by simp
    qed
  next
    fix p
    assume p: "pf_id p = pid"
      and l: "linkSuccessor env (a_id user) p (the (rw_successorProofId inp)) (renewal_hash env (a_id user) pid inp key) now db0 db = Inr (resp, db')"
    let ?s = "the (rw_successorProofId inp)"
    show ?thesis
    proof (rule linkSuccessor_Inr [OF l])
      fix q
      assume q: "count_rows (link_guard ?s (a_id user)) (upd_rows (claim_guard p) (claim_mark now) (proofs db)) = 1"
        "proofs db' = upd_rows (link_guard ?s (a_id user)) (link_mark (pf_id p) (renewal_hash env (a_id user) pid inp key)) (upd_rows (claim_guard p) (claim_mark now) (proofs db))"
        "\<forall>q\<in>set (proofs db). pf_supersedesId q \<noteq> Some (pf_id p)" "find_row (\<lambda>r. pf_id r = ?s) (proofs db') = Some q" "rn_proofId resp = pf_id q"
      have "(a, pid) \<notin> chain_edges (proofs db)" by (rule fresh_no_edge) (use q(3) p in auto)
      moreover have "rn_proofId resp = ?s" using find_row_Some [OF q(4)] q(5) by simp
      moreover have "(?s, pid) \<in> chain_edges (proofs db')" unfolding q(2) p by (subst chain_edges_link) (simp_all add: q(1))
      ultimately show ?thesis by simp
    qed
  qed
  then show "(rn_proofId resp, pid) \<in> chain_edges (proofs db')" "(a, pid) \<in> chain_edges (proofs db) \<Longrightarrow> rn_replayed resp \<and> db' = db"
    by blast+
qed

text \<open>C4. A proof is renewed once.  Of any two renewals of the same proof that answer, by whichever users and with whatever
  requests in between, the later one names the successor the earlier one named: it is a replay, never a second
  successor.\<close>

theorem renewal_single:
  assumes "renewProof env user pid inp key sid iid now db0 db = (Inr resp, db1)" "chains_ok (proofs db)" "later env db1 db2"
    "renewProof env user' pid inp' key' sid' iid' now' db0' db2 = (Inr resp', db3)"
  shows "rn_proofId resp' = rn_proofId resp \<and> rn_replayed resp' \<and> db3 = db2"
proof -
  have c2: "chains_ok (proofs db2)"
    using assms(2) renewProof_change [of db0 db env user pid inp key sid iid now] assms(1) chains_later [OF assms(3)] change_chains by fastforce
  have e: "(rn_proofId resp, pid) \<in> chain_edges (proofs db2)" using renewal_edge(1) [OF assms(1)] edges_later [OF assms(3)] by blast
  note r = renewal_edge(2) [OF assms(4) e]
  have "(rn_proofId resp', pid) \<in> chain_edges (proofs db2)" using renewal_edge(1) [OF assms(4)] r by simp
  with e c2 r show ?thesis unfolding chains_ok_def by blast
qed

theorem renewal_single_witness:
  "\<exists>resp db' resp' db''. sample_renewal sample_store = (Inr resp, db') \<and> sample_renewal db' = (Inr resp', db'') \<and> rn_proofId resp' = rn_proofId resp \<and> rn_replayed resp'"
proof -
  obtain resp db' where r: "sample_renewal sample_store = (Inr resp, db')" "supersededBy ''p1'' db' = Some (last (proofs db'))"
    "find_row (\<lambda>p. pf_id p = ''p1'') (proofs db') \<noteq> None" "pf_claim (last (proofs db')) \<noteq> None"
    "pf_renewalRequestHash (last (proofs db')) = Some (renewal_hash sample_env ''u1'' ''p1'' \<lparr>rw_successorProofId = None, rw_expiresInDays = None\<rparr> None)"
    "loadOwnedRenewableProof ''u1'' ''p1'' db' = Inr (claim_mark 30 sample_row)"
    using sample_renews by blast
  then obtain resp' where r': "sample_renewal db' = (Inr resp', db')"
    by (auto simp: sample_renewal_def renewProof_def sample_worker_def replayOrConflict_def sample_row_def claim_mark_def Let_def)
  have "later sample_env db' db'" by (simp add: later_def)
  from renewal_single [OF r(1) [unfolded sample_renewal_def] sample_chains this r' [unfolded sample_renewal_def]] r(1) r' show ?thesis by blast
qed

end
