(* ===== verification/Spec2Isabelle.thy ===== *)
theory Spec2Isabelle
  imports Store Resilience WalletRotation Approvals Predicates Earnings Continuity EmployerPayment Encoding Quotas ProofMachine
begin

text \<open>
  EarnProof backend: a verification library for the services under \<open>src/src\<close>.

  \<^bold>\<open>The program.\<close>  Workers sign in with a Stellar wallet (\<open>auth\<close>), their payments are recorded, and they issue
  proofs about them (\<open>proofs\<close>): a proof is a row with a claim, the hash of its credential, and later a transaction
  on an anchoring contract.  Anyone may verify a proof by its identifier; its owner or an administrator may revoke
  it; its owner may renew it.  Background jobs (\<open>jobs\<close>) anchor proofs, compare them with the contract and mark
  the expired ones.  Privileged changes are logged in a hash chain (\<open>audit\<close>) and some need a second person
  (\<open>approvals\<close>).  Outbound calls go through a circuit breaker (\<open>common/resilience\<close>).

  \<^bold>\<open>How it is modelled.\<close>  A table is the list of its rows and a Prisma call is what it does to that list (\<open>Store\<close>).
  A service operation is a function from its arguments, the clock, the identifiers it draws and the database to a
  result and the new database; an exception is \<open>Inl\<close>, and a transaction that throws returns the database it
  started from.  Operations that check before their transaction take two databases, the one the checks read and
  the one the transaction starts in, so that anything may commit between the two.  Integers are unbounded where the
  source uses \<open>bigint\<close> or small counters; instants are integers of milliseconds.

  \<^item> Foundations.  \<open>Prelude\<close> (results, errors), \<open>Store\<close> (tables and the locale \<open>one_shot\<close> of updates that falsify
    their own guard), \<open>JsStrings\<close>, \<open>Calendar\<close>, \<open>Json\<close>, \<open>CanonicalJson\<close>, \<open>Encoding\<close>: the parts of the language and
    its library the services use, with the injectivity of canonical JSON and the round trips of dates and base64url.
  \<^item> \<open>Resilience\<close>: \<open>circuit-breaker.ts\<close>, \<open>backoff.ts\<close>.  When the circuit opens, cools off, recovers; its counters
    under interleaved calls; the locale \<open>circuit_contract\<close>.
  \<^item> \<open>AuditChain\<close>: \<open>audit-chain.ts\<close>, \<open>prisma.service.ts\<close>, \<open>audit-verification.service.ts\<close>.  What was appended
    verifies; what verifies is determined by its last hash; the plain transactional insert breaks the chain.
  \<^item> \<open>Accounts\<close>, \<open>Sessions\<close>, \<open>Login\<close>, \<open>WalletRotation\<close>: \<open>auth\<close> and \<open>users\<close>.  Challenges and rotations are used
    once, sessions die for good, sign-in proves control of the wallet.
  \<^item> \<open>Approvals\<close>: \<open>approvals.service.ts\<close>.  No one decides their own request; decisions and claims happen once.
  \<^item> \<open>Predicates\<close>: the webhook filters.  Validated predicates evaluate to their truth value within the budget.
  \<^item> \<open>Earnings\<close>, \<open>Continuity\<close>, \<open>EmployerPayment\<close>, \<open>Quotas\<close>: the rules a proof is issued by.
  \<^item> \<open>Credentials\<close>, \<open>Issuance\<close>, \<open>IssuedProofs\<close>, \<open>AbuseLimiter\<close>, \<open>Verification\<close>, \<open>ProofLifecycle\<close>:
    \<open>proofs.service.ts\<close>.  The eight \<open>create\<close> operations, how a credential is rebuilt, hashed and signed, verification
    and revocation.  What was issued verifies; the stored hash binds the credential.
  \<^item> \<open>Renewal\<close>: \<open>proof-renewal.policy.ts\<close> and \<open>renewProof\<close>.  The cycle check ends on every chain.
  \<^item> \<open>ContractService\<close>, \<open>Anchoring\<close>: \<open>contract-anchoring.service.ts\<close>, the anchoring worker, the operator's decisions and
    the three reconcilers.  Bounded attempts, backpressure, expiration without effect on verdicts, and three defects.
  \<^item> \<open>ProofChanges\<close>, \<open>ProofMachine\<close>: all of these as steps of one machine on the table of proofs.  \<open>reachable\<close> and
    \<open>later\<close> are its runs, \<open>proofs_change\<close> what a step can do; over all runs rows stay well formed, revocation is
    final, a proof is renewed once, and renewal chains are acyclic.
  \<^item> This theory: what only holds of several components together.

  \<^bold>\<open>Parameters.\<close>  SHA-256, HMAC, decryption, Ed25519, StrKey, the URL parser, the command line tool of the contract and the
  redaction of log messages are arguments.  Statements that need more of them say so: collision freedom is asked
  only for the two strings hashed.

  \<^bold>\<open>Bounds.\<close>  The walk over ancestors is a \<open>partial_function\<close>, proved to return within the 256 loads the source allows.
  The expiration loop recurses on the ten batches of a cycle, which are the bound of the source.  No other fuel is
  used; the remaining recursions are structural or have a measure.

  \<^bold>\<open>Not modelled.\<close>  Controllers, DTO validators, modules and configuration (declarations for the framework); logging, metrics
  and health checks (no state that another part reads); the listing and detail queries of proofs (projections);
  webhook delivery and its persisted breaker, payment synchronisation and ledger finality, issuers, attestations,
  organisations and their roles, disputes, governance, deployments, contract upgrades, API keys, support access,
  notifications, leases and the other jobs.  Each is a component of its own that the modelled ones reach only
  through rows they read; those rows are part of the state here and arbitrary.
\<close>

subsection \<open>How the proof service is wired\<close>


subsection \<open>Wallet rotation and proofs\<close>

lemma rotated_wallet:
  assumes "WalletRotation.complete sv user rid s1 s2 org aid now adb = (Inr (w', n), adb')" "unique_on u_id (users adb)"
    "find_row (\<lambda>u. u_id u = a_id user) (users adb) = Some u"
  shows "map_option u_walletHash (find_row (\<lambda>u. u_id u = a_id user) (users adb')) = Some (hashed sv w')"
proof (rule complete_Inr [OF assms(1)])
  fix r :: rotation_row
  let ?adb = "adb\<lparr>rotations := upd_rows (rotation_open rid (a_id user) now) (rotation_consume now) (rotations adb)\<rparr>"
  let ?g = "\<lambda>u. u_id u = a_id user \<and> u_walletAddress u = r_currentWalletAddress r"
  let ?f = "\<lambda>u. u\<lparr>u_walletAddress := r_newWalletAddress r, u_walletHash := hashed sv (r_newWalletAddress r)\<rparr>"
  assume w: "w' = r_newWalletAddress r" and "commit_rotation sv (a_id user) rid r aid now ?adb = Committed n adb'"
  note c = commit_rotation_Committed [OF this(2), simplified]
  obtain x where x: "x \<in> set (users adb)" "?g x" using c(3) count_rows_pos [of ?g "users adb"] by auto
  have "x = u" using unique_on_eqD [OF assms(2) x(1)] find_row_Some [OF assms(3)] x(2) by simp
  with x(2) have "?g u" by simp
  have "find_row (\<lambda>u. u_id u = a_id user) (users adb') = map_option (\<lambda>y. if ?g y then ?f y else y) (find_row (\<lambda>u. u_id u = a_id user) (users adb))"
    unfolding c(2) by (rule find_row_upd_rows_keyed) simp
  then show ?thesis using \<open>?g u\<close> assms(3) w by simp
qed


lemma policy_occurredAt_hash: "policy_occurredAt env (p\<lparr>pf_credentialHash := h\<rparr>) policy = policy_occurredAt env p policy"
  by (simp add: policy_occurredAt_def split: option.split)

definition sample_claim :: proof_claim where
  "sample_claim = the (pf_claim sample_row)"

definition sample_signed_db :: proofs_db where
  "sample_signed_db = sample_store\<lparr>auth := sample_rotation_db, proofs :=
     [sample_row\<lparr>pf_contractTransactionHash := None, pf_credentialHash :=
        credential_hash sample_env (rebuildCredential sample_env ''h1'' (sample_row\<lparr>pf_contractTransactionHash := None\<rparr>) sample_claim)\<rparr>]\<rparr>"


end
